(* ===== verification/Prelude.thy ===== *)
theory Prelude
  imports Main "HOL-Library.Extended_Nat" "HOL-Library.AList"
begin

text \<open>
  Shared vocabulary of the hopssh development.

  \<^item> Go values: a Go \<open>string\<close> or \<open>[]byte\<close> is a HOL \<open>string\<close> (one \<open>char\<close> per byte), a nil-able
    pointer is an \<open>option\<close>, a Go \<open>error\<close> is a value of \<open>go_error\<close>, an \<open>(x, err)\<close> result is a
    sum whose left side is the error.
  \<^item> The environment of a request: \<open>env\<close> supplies what a handler does not compute itself, namely
    the successive readings of the clock, the outcome of the infrastructure behind each database
    call (named by its call site), and the random identifiers and tokens. A theorem that
    quantifies over \<open>env\<close> covers every failure of every database call.
  \<^item> An HTTP answer: \<open>Reject\<close> for \<open>http.Error\<close>, \<open>Reply\<close> for a JSON body.
  \<^item> Histories: \<open>run\<close> executes a list of operations in the order in which they reach the
    store, and \<open>tally\<close> sums a weight over that history. The locales
    \<open>stable_invariant\<close> and \<open>metered\<close> are the two contracts that the stores of the control
    plane offer to such histories.
\<close>

named_theorems store_defs "definitions of the store methods"
named_theorems handler_defs "definitions of the request handlers"

section \<open>Errors and results\<close>

text \<open>
  \<open>ErrNoRows\<close> is \<open>sql.ErrNoRows\<close>; \<open>ErrMsg\<close> is an error with a text of its own (a driver error or
  \<open>fmt.Errorf\<close> without a verb \<open>%w\<close>); \<open>ErrWrap p e\<close> is \<open>fmt.Errorf("p: %w", e)\<close>.
\<close>

datatype go_error =
    ErrNoRows
  | ErrMsg string
  | ErrWrap string go_error

primrec Error :: "go_error \<Rightarrow> string" where
  "Error ErrNoRows = ''sql: no rows in result set''"
| "Error (ErrMsg m) = m"
| "Error (ErrWrap p e) = p @ '': '' @ Error e"

text \<open>\<open>errors.Is(err, sql.ErrNoRows)\<close> looks through wrapping.\<close>

primrec is_no_rows :: "go_error \<Rightarrow> bool" where
  "is_no_rows ErrNoRows = True"
| "is_no_rows (ErrMsg m) = False"
| "is_no_rows (ErrWrap p e) = is_no_rows e"

type_synonym 'a res = "go_error + 'a"

section \<open>Requests and answers\<close>

record env =
  clock :: "nat \<Rightarrow> int"
  fails :: "string \<Rightarrow> go_error option"
  new_id :: "nat \<Rightarrow> string"
  new_token :: "nat \<Rightarrow> string"

datatype 'b http =
    Reject nat string
  | Reply nat 'b

primrec status_of :: "'b http \<Rightarrow> nat" where
  "status_of (Reject c m) = c"
| "status_of (Reply c b) = c"

section \<open>Histories of operations\<close>

fun run :: "('op \<Rightarrow> 's \<Rightarrow> 's) \<Rightarrow> 'op list \<Rightarrow> 's \<Rightarrow> 's" where
  "run step [] s = s"
| "run step (x # xs) s = run step xs (step x s)"

fun tally :: "('op \<Rightarrow> 's \<Rightarrow> 's) \<Rightarrow> ('op \<Rightarrow> 's \<Rightarrow> 'n::comm_monoid_add) \<Rightarrow> 'op list \<Rightarrow> 's \<Rightarrow> 'n" where
  "tally step w [] s = 0"
| "tally step w (x # xs) s = w x s + tally step w xs (step x s)"

lemma run_append [simp]: "run step (xs @ ys) s = run step ys (run step xs s)"
  by (induction xs arbitrary: s) auto

lemma tally_append:
  "tally step w (xs @ ys) s = tally step w xs s + tally step w ys (run step xs s)"
  by (induction xs arbitrary: s) (auto simp: add.assoc)

lemma tally_enat:
  "tally step (\<lambda>x s. enat (w x s)) xs s = enat (tally step w xs s)"
  by (induction xs arbitrary: s) (auto simp: zero_enat_def)

lemma tally_zero:
  assumes "\<And>x s. x \<in> set xs \<Longrightarrow> w x s = 0"
  shows "tally step w xs s = 0"
  using assms by (induction xs arbitrary: s) auto

text \<open>A store whose operations, in whatever order they arrive, keep its invariant.\<close>

locale stable_invariant =
  fixes step :: "'op \<Rightarrow> 's \<Rightarrow> 's"
    and inv :: "'s \<Rightarrow> bool"
  assumes inv_step: "inv s \<Longrightarrow> inv (step x s)"
begin

lemma inv_run: "inv s \<Longrightarrow> inv (run step xs s)"
  by (induction xs arbitrary: s) (auto intro: inv_step)

end

text \<open>
  A store that hands out claims on keys. \<open>credit k s\<close> is the number of claims on \<open>k\<close> that \<open>s\<close>
  still allows; a successful claim pays one unit, and no operation raises the credit of a key by
  more than what it grants.
\<close>

locale metered = stable_invariant step inv
  for step :: "'op \<Rightarrow> 's \<Rightarrow> 's" and inv :: "'s \<Rightarrow> bool" +
  fixes claimed :: "'op \<Rightarrow> 's \<Rightarrow> 'k \<Rightarrow> bool"
    and granted :: "'op \<Rightarrow> 's \<Rightarrow> 'k \<Rightarrow> enat"
    and credit :: "'k \<Rightarrow> 's \<Rightarrow> enat"
  assumes claim_pays: "inv s \<Longrightarrow> claimed x s k \<Longrightarrow> credit k (step x s) + 1 \<le> credit k s"
    and no_free_credit:
      "inv s \<Longrightarrow> \<not> claimed x s k \<Longrightarrow> credit k (step x s) \<le> credit k s + granted x s k"
begin

lemma claims_bounded:
  "inv s \<Longrightarrow>
    enat (tally step (\<lambda>x s. if claimed x s k then 1 else 0) xs s)
      \<le> credit k s + tally step (\<lambda>x s. granted x s k) xs s"
proof (induction xs arbitrary: s)
  case Nil
  show ?case by (simp add: enat_0)
next
  case (Cons x xs)
  let ?w = "\<lambda>x s. if claimed x s k then 1 else 0 :: nat"
  let ?T = "enat (tally step ?w xs (step x s))"
  let ?G = "tally step (\<lambda>x s. granted x s k) xs (step x s)"
  have IH: "?T \<le> credit k (step x s) + ?G"
    by (rule Cons.IH [OF inv_step [OF Cons.prems]])
  show ?case
  proof (cases "claimed x s k")
    case True
    have "1 + ?T \<le> 1 + (credit k (step x s) + ?G)"
      using IH by (rule add_left_mono)
    also have "\<dots> = (credit k (step x s) + 1) + ?G"
      by (simp add: ac_simps)
    also have "\<dots> \<le> credit k s + ?G"
      using claim_pays [OF Cons.prems True] by (rule add_right_mono)
    also have "\<dots> \<le> credit k s + (granted x s k + ?G)"
      by (simp add: add_left_mono add_increasing)
    finally show ?thesis using True by (simp add: one_enat_def)
  next
    case False
    have "?T \<le> credit k s + granted x s k + ?G"
      using IH no_free_credit [OF Cons.prems False] by (meson add_right_mono order_trans)
    then show ?thesis using False by (simp add: ac_simps)
  qed
qed

end

section \<open>Lists and options\<close>

lemma find_Some_conv:
  "find P xs = Some x \<Longrightarrow> x \<in> set xs \<and> P x"
  by (induction xs) (auto split: if_splits)

lemma find_None_conv: "find P xs = None \<longleftrightarrow> (\<forall>x \<in> set xs. \<not> P x)"
  by (induction xs) auto

lemma find_append: "find P (xs @ ys) = (case find P xs of None \<Rightarrow> find P ys | Some x \<Rightarrow> Some x)"
  by (induction xs) auto

lemma set_update_subset: "set (AList.update k v al) \<subseteq> insert (k, v) (set al)"
  by (induction al) auto

lemma update_fresh: "k \<notin> fst ` set al \<Longrightarrow> AList.update k v al = al @ [(k, v)]"
  by (induction al) auto

lemma distinct_map_unique:
  "distinct (map f xs) \<Longrightarrow> x \<in> set xs \<Longrightarrow> y \<in> set xs \<Longrightarrow> f x = f y \<Longrightarrow> x = y"
  by (auto simp: distinct_map inj_on_def)

lemma find_unique:
  assumes "distinct (map f xs)" "x \<in> set xs"
  shows "find (\<lambda>y. f y = f x) xs = Some x"
  using assms by (induction xs) (auto simp: image_iff)

end
