(* ===== verification/GoText.thy ===== *)
theory GoText
  imports Prelude
begin

text \<open>
  The text functions of Go's standard library (packages \<open>strings\<close>, \<open>strconv\<close>, \<open>encoding/hex\<close>)
  that the control plane calls, on byte strings. Case mapping and white space are those of
  ASCII: on a string with bytes from 128 up Go decodes UTF-8 first, so the functions below
  describe Go's on ASCII text, and every statement that depends on case mapping is read with that
  scope. Decimal printing and parsing, prefixes, suffixes and splitting are exact on all bytes.
\<close>

section \<open>Prefixes, suffixes, substrings\<close>

definition HasPrefix :: "string \<Rightarrow> string \<Rightarrow> bool" where
  "HasPrefix s p \<longleftrightarrow> take (length p) s = p"

definition TrimPrefix :: "string \<Rightarrow> string \<Rightarrow> string" where
  "TrimPrefix s p = (if HasPrefix s p then drop (length p) s else s)"

definition HasSuffix :: "string \<Rightarrow> string \<Rightarrow> bool" where
  "HasSuffix s p \<longleftrightarrow> length p \<le> length s \<and> drop (length s - length p) s = p"

definition TrimSuffix :: "string \<Rightarrow> string \<Rightarrow> string" where
  "TrimSuffix s p = (if HasSuffix s p then take (length s - length p) s else s)"

fun Contains :: "string \<Rightarrow> string \<Rightarrow> bool" where
  "Contains [] t \<longleftrightarrow> t = []"
| "Contains (c # s) t \<longleftrightarrow> HasPrefix (c # s) t \<or> Contains s t"

text \<open>\<open>s[:strings.Index(s, c)]\<close> when \<open>c\<close> occurs in \<open>s\<close>, and \<open>s\<close> itself otherwise.\<close>

definition before :: "char \<Rightarrow> string \<Rightarrow> string" where
  "before c s = takeWhile (\<lambda>x. x \<noteq> c) s"

fun Split :: "char \<Rightarrow> string \<Rightarrow> string list" where
  "Split c [] = [[]]"
| "Split c (x # xs) =
     (if x = c then [] # Split c xs
      else case Split c xs of [] \<Rightarrow> [[x]] | y # ys \<Rightarrow> (x # y) # ys)"

text \<open>\<open>net.SplitHostPort\<close>: host and port, or \<open>None\<close> for its error (host and port are then empty).\<close>

definition SplitHostPort :: "string \<Rightarrow> (string \<times> string) option" where
  "SplitHostPort hp =
     (if CHR '':'' \<notin> set hp then None
      else
        let port = rev (takeWhile (\<lambda>c. c \<noteq> CHR '':'') (rev hp));
            i = length hp - length port - 1
        in if hd hp = CHR ''['' then
             (if CHR '']'' \<notin> set hp then None
              else let e = length (before CHR '']'' hp) in
                if e + 1 \<noteq> i then None
                else if CHR ''['' \<in> set (drop 1 hp) \<or> CHR '']'' \<in> set (drop (e + 1) hp) then None
                else Some (take (e - 1) (drop 1 hp), port))
           else
             let host = take i hp in
             if CHR '':'' \<in> set host then None
             else if CHR ''['' \<in> set hp \<or> CHR '']'' \<in> set hp then None
             else Some (host, port))"

section \<open>Case and trimming\<close>

definition lower_byte :: "char \<Rightarrow> char" where
  "lower_byte c = (let n = of_char c :: nat in if 65 \<le> n \<and> n \<le> 90 then char_of (n + 32) else c)"

definition upper_byte :: "char \<Rightarrow> char" where
  "upper_byte c = (let n = of_char c :: nat in if 97 \<le> n \<and> n \<le> 122 then char_of (n - 32) else c)"

definition ToLower :: "string \<Rightarrow> string" where
  "ToLower s = map lower_byte s"

definition ToUpper :: "string \<Rightarrow> string" where
  "ToUpper s = map upper_byte s"

definition is_space :: "char \<Rightarrow> bool" where
  "is_space c \<longleftrightarrow> of_char c \<in> {9, 10, 11, 12, 13, 32 :: nat}"

definition trim_by :: "(char \<Rightarrow> bool) \<Rightarrow> string \<Rightarrow> string" where
  "trim_by P s = rev (dropWhile P (rev (dropWhile P s)))"

definition TrimSpace :: "string \<Rightarrow> string" where
  "TrimSpace s = trim_by is_space s"

section \<open>Decimal numbers\<close>

definition is_digit :: "char \<Rightarrow> bool" where
  "is_digit c \<longleftrightarrow> 48 \<le> (of_char c :: nat) \<and> (of_char c :: nat) \<le> 57"

fun itoa :: "nat \<Rightarrow> string" where
  "itoa n = (if n < 10 then [char_of (48 + n)] else itoa (n div 10) @ [char_of (48 + n mod 10)])"

declare itoa.simps [simp del]

text \<open>The verb \<open>%d\<close> for an integer of any sign.\<close>

definition dec :: "int \<Rightarrow> string" where
  "dec n = (if n < 0 then ''-'' @ itoa (nat (- n)) else itoa (nat n))"

text \<open>The verb \<open>%q\<close> for a text of printable ASCII without quotes and backslashes.\<close>

definition quoted :: "string \<Rightarrow> string" where
  "quoted s = [CHR 0x22] @ s @ [CHR 0x22]"

definition dec_val :: "string \<Rightarrow> nat" where
  "dec_val s = foldl (\<lambda>a c. 10 * a + (of_char c - 48)) 0 s"

text \<open>
  \<open>strconv.Atoi\<close> on a 64-bit platform: the value it returns and whether the error is nil. A
  syntax error returns 0, a range error the nearest representable integer.
\<close>

definition Atoi :: "string \<Rightarrow> int \<times> bool" where
  "Atoi s =
     (let neg = (s \<noteq> [] \<and> hd s = CHR ''-'');
          ds = (if s \<noteq> [] \<and> (hd s = CHR ''-'' \<or> hd s = CHR ''+'') then tl s else s)
      in if ds = [] \<or> \<not> list_all is_digit ds then (0, False)
         else let v = int (dec_val ds) in
           if neg then (if v > 2 ^ 63 then (- (2 ^ 63), False) else (- v, True))
           else if v \<ge> 2 ^ 63 then (2 ^ 63 - 1, False) else (v, True))"

section \<open>Hexadecimal\<close>

definition hex_digit :: "nat \<Rightarrow> char" where
  "hex_digit n = (if n < 10 then char_of (48 + n) else char_of (87 + n))"

definition hex_byte :: "char \<Rightarrow> string" where
  "hex_byte c = [hex_digit (of_char c div 16), hex_digit (of_char c mod 16)]"

definition EncodeToString :: "string \<Rightarrow> string" where
  "EncodeToString b = concat (map hex_byte b)"

section \<open>Facts\<close>

lemma HasPrefix_append [simp]: "HasPrefix (p @ s) p"
  by (simp add: HasPrefix_def)

lemma HasPrefixD: "HasPrefix s p \<Longrightarrow> \<exists>r. s = p @ r"
  unfolding HasPrefix_def by (metis append_take_drop_id)

lemma HasPrefix_iff: "HasPrefix s p \<longleftrightarrow> (\<exists>r. s = p @ r)"
  using HasPrefixD by auto

lemma TrimPrefix_append [simp]: "TrimPrefix (p @ s) p = s"
  by (simp add: TrimPrefix_def)

lemma HasSuffix_append [simp]: "HasSuffix (s @ p) p"
  by (simp add: HasSuffix_def)

lemma HasSuffixD: "HasSuffix s p \<Longrightarrow> \<exists>r. s = r @ p"
  unfolding HasSuffix_def by (metis append_take_drop_id)

lemma TrimSuffix_append [simp]: "TrimSuffix (s @ p) p = s"
  by (simp add: TrimSuffix_def)

lemma Contains_here: "HasPrefix s t \<Longrightarrow> Contains s t"
  by (cases s) (auto simp: HasPrefix_def)

lemma Contains_append: "Contains s t \<Longrightarrow> Contains (p @ s) t"
  by (induction p) auto

lemma Contains_infix [simp]: "Contains (p @ t @ s) t"
  by (intro Contains_append Contains_here) simp

lemma before_append [simp]: "c \<notin> set a \<Longrightarrow> before c (a @ c # b) = a"
  by (induction a) (auto simp: before_def)

lemma before_absent [simp]: "c \<notin> set a \<Longrightarrow> before c a = a"
  unfolding before_def by (rule takeWhile_eq_all_conv [THEN iffD2]) auto

lemma Split_not_Nil [simp]: "Split c s \<noteq> []"
  by (induction s) (auto split: list.splits)

lemma Split_absent [simp]: "c \<notin> set a \<Longrightarrow> Split c a = [a]"
  by (induction a) auto

lemma Split_append [simp]: "c \<notin> set a \<Longrightarrow> Split c (a @ c # b) = a # Split c b"
  by (induction a) auto

lemma of_char_digit [simp]: "(n::nat) < 10 \<Longrightarrow> of_char (char_of (48 + n) :: char) = (48 + n :: nat)"
  by simp

lemma is_digit_char [simp]: "(n::nat) < 10 \<Longrightarrow> is_digit (char_of (48 + n))"
  by (simp add: is_digit_def)

lemma itoa_not_Nil [simp]: "itoa n \<noteq> []"
  by (subst itoa.simps) simp

lemma itoa_digits: "list_all is_digit (itoa n)"
proof (induction n rule: itoa.induct)
  case (1 n)
  show ?case
  proof (cases "n < 10")
    case True
    then show ?thesis by (subst itoa.simps) simp
  next
    case False
    with "1.IH" show ?thesis by (subst itoa.simps) simp
  qed
qed

lemma dec_val_snoc: "dec_val (s @ [c]) = 10 * dec_val s + (of_char c - 48)"
  by (simp add: dec_val_def)

lemma dec_val_itoa [simp]: "dec_val (itoa n) = n"
proof (induction n rule: itoa.induct)
  case (1 n)
  show ?case
  proof (cases "n < 10")
    case True
    then show ?thesis by (subst itoa.simps) (simp add: dec_val_def)
  next
    case False
    with "1.IH" have "dec_val (itoa (n div 10)) = n div 10" by simp
    with False show ?thesis by (subst itoa.simps) (simp add: dec_val_snoc)
  qed
qed

lemma itoa_inject [simp]: "itoa m = itoa n \<longleftrightarrow> m = n"
  by (metis dec_val_itoa)

lemma is_digit_neq: "is_digit c \<Longrightarrow> c \<noteq> CHR ''.'' \<and> c \<noteq> CHR ''/'' \<and> c \<noteq> CHR ''-'' \<and> c \<noteq> CHR ''+'' \<and> c \<noteq> CHR '':''"
  by (auto simp: is_digit_def)

lemma itoa_no_sep [simp]:
  "CHR ''.'' \<notin> set (itoa n)" "CHR ''/'' \<notin> set (itoa n)" "CHR ''-'' \<notin> set (itoa n)"
  "CHR ''+'' \<notin> set (itoa n)" "CHR '':'' \<notin> set (itoa n)"
  using itoa_digits [of n] is_digit_neq by (auto simp: list_all_iff)

lemma itoa_hd: "hd (itoa n) \<noteq> CHR ''-''" "hd (itoa n) \<noteq> CHR ''+''"
  by (metis hd_in_set itoa_no_sep(3) itoa_not_Nil, metis hd_in_set itoa_no_sep(4) itoa_not_Nil)

lemma Atoi_itoa [simp]: "int n < 2 ^ 63 \<Longrightarrow> Atoi (itoa n) = (int n, True)"
  by (simp add: Atoi_def itoa_hd itoa_digits Let_def)

lemma SplitHostPort_plain:
  assumes "set host \<inter> {CHR '':'', CHR ''['', CHR '']''} = {}" "set port \<inter> {CHR '':'', CHR ''['', CHR '']''} = {}"
  shows "SplitHostPort (host @ '':'' @ port) = Some (host, port)"
proof -
  have p: "rev (takeWhile (\<lambda>c. c \<noteq> CHR '':'') (rev (host @ '':'' @ port))) = port"
    using assms(2) by (auto simp: takeWhile_append takeWhile_eq_all_conv)
  have h: "hd (host @ '':'' @ port) \<noteq> CHR ''[''" using assms(1) by (cases host) auto
  have no: "CHR ''['' \<notin> set (host @ '':'' @ port)" "CHR '']'' \<notin> set (host @ '':'' @ port)" "CHR '':'' \<notin> set host"
    using assms by auto
  show ?thesis unfolding SplitHostPort_def Let_def p using h no by simp
qed

lemma ToUpper_idem [simp]: "ToUpper (ToUpper s) = ToUpper s"
  by (auto simp: ToUpper_def upper_byte_def Let_def)

lemma ToLower_idem [simp]: "ToLower (ToLower s) = ToLower s"
  by (auto simp: ToLower_def lower_byte_def Let_def)

lemma ToLower_append [simp]: "ToLower (a @ b) = ToLower a @ ToLower b"
  by (simp add: ToLower_def)

lemma length_EncodeToString: "length (EncodeToString b) = 2 * length b"
  by (induction b) (auto simp: EncodeToString_def hex_byte_def)

end
