(* ===== verification/Tables.thy ===== *)
theory Tables
  imports GoText
begin

text \<open>
  SQL statements over one table. A table is the list of its rows in the order of insertion; the
  queries under \<open>src/internal/db/dbsqlc\<close> use the six forms below. Each statement is atomic: it
  either takes effect as a whole or fails and leaves the table as it was. An \<open>INSERT\<close> fails when
  the new row clashes with a stored one on a \<open>PRIMARY KEY\<close> or \<open>UNIQUE\<close> constraint; the relation
  \<open>clash\<close> of a table is the disjunction of its constraints (\<open>NULL\<close> never clashes).

  The locale \<open>keyed_table\<close> is the contract of a table with a primary key: the key identifies a
  row, and the statements keep it so.
\<close>

section \<open>Statements\<close>

definition select_one :: "('r \<Rightarrow> bool) \<Rightarrow> 'r list \<Rightarrow> 'r res" where
  "select_one P t = (case find P t of None \<Rightarrow> Inl ErrNoRows | Some r \<Rightarrow> Inr r)"

definition select_many :: "('r \<Rightarrow> bool) \<Rightarrow> 'r list \<Rightarrow> 'r list" where
  "select_many P t = filter P t"

definition update_where :: "('r \<Rightarrow> bool) \<Rightarrow> ('r \<Rightarrow> 'r) \<Rightarrow> 'r list \<Rightarrow> 'r list" where
  "update_where P f t = map (\<lambda>r. if P r then f r else r) t"

definition affected :: "('r \<Rightarrow> bool) \<Rightarrow> 'r list \<Rightarrow> nat" where
  "affected P t = length (filter P t)"

definition delete_where :: "('r \<Rightarrow> bool) \<Rightarrow> 'r list \<Rightarrow> 'r list" where
  "delete_where P t = filter (\<lambda>r. \<not> P r) t"

definition unique_error :: "string \<Rightarrow> go_error" where
  "unique_error cols = ErrMsg (''constraint failed: '' @ ''UNIQUE constraint failed'' @ '': '' @ cols)"

definition insert_row :: "('r \<Rightarrow> 'r \<Rightarrow> bool) \<Rightarrow> string \<Rightarrow> 'r \<Rightarrow> 'r list \<Rightarrow> 'r list res" where
  "insert_row clash cols r t =
     (if \<exists>x \<in> set t. clash r x then Inl (unique_error cols) else Inr (t @ [r]))"

text \<open>
  The SQL reads of several rows return them by a sort key; rows with equal keys keep the order in
  which they were inserted.
\<close>

definition order_by :: "('r \<Rightarrow> int) \<Rightarrow> 'r list \<Rightarrow> 'r list" where
  "order_by k rows = sort_key k rows"

text \<open>
  The four ways a generated query function reaches the database. \<open>fault\<close> is the failure of the
  infrastructure behind the call, if there is one (a closed connection, a cancelled context, a lock
  that outlasts the retries); such a failure leaves the table as it was, which is what theory
  \<open>Resilience\<close> proves of the retry layer. An \<open>execresult\<close> also reports the number of rows it matched.
\<close>

definition exec :: "go_error option \<Rightarrow> 'r list \<Rightarrow> 'r list res \<Rightarrow> go_error option \<times> 'r list" where
  "exec fault t r =
     (case fault of Some e \<Rightarrow> (Some e, t)
      | None \<Rightarrow> (case r of Inl e \<Rightarrow> (Some e, t) | Inr t' \<Rightarrow> (None, t')))"

definition execresult ::
  "go_error option \<Rightarrow> ('r \<Rightarrow> bool) \<Rightarrow> ('r \<Rightarrow> 'r) \<Rightarrow> 'r list \<Rightarrow> nat res \<times> 'r list" where
  "execresult fault P f t =
     (case fault of Some e \<Rightarrow> (Inl e, t) | None \<Rightarrow> (Inr (affected P t), update_where P f t))"

definition query_one :: "go_error option \<Rightarrow> ('r \<Rightarrow> bool) \<Rightarrow> 'r list \<Rightarrow> 'r res" where
  "query_one fault P t = (case fault of Some e \<Rightarrow> Inl e | None \<Rightarrow> select_one P t)"

definition query_many :: "go_error option \<Rightarrow> 'r list \<Rightarrow> 'r list res" where
  "query_many fault rows = (case fault of Some e \<Rightarrow> Inl e | None \<Rightarrow> Inr rows)"

text \<open>
  The epilogue of every single-row getter: \<open>sql.ErrNoRows\<close> becomes a nil row without an error, any
  other error is wrapped.
\<close>

definition or_nil :: "string \<Rightarrow> ('r \<Rightarrow> 'a) \<Rightarrow> 'r res \<Rightarrow> 'a option res" where
  "or_nil msg f r =
     (case r of Inr x \<Rightarrow> Inr (Some (f x))
      | Inl e \<Rightarrow> if is_no_rows e then Inr None else Inl (ErrWrap msg e))"

text \<open>\<open>if err != nil { return fmt.Errorf("msg: %w", err) }\<close>\<close>

definition wrap_err :: "string \<Rightarrow> go_error option \<Rightarrow> go_error option" where
  "wrap_err msg err = map_option (ErrWrap msg) err"

text \<open>A table no two rows of which clash.\<close>

definition clash_free :: "('r \<Rightarrow> 'r \<Rightarrow> bool) \<Rightarrow> 'r list \<Rightarrow> bool" where
  "clash_free clash t \<longleftrightarrow> sorted_wrt (\<lambda>x y. \<not> clash y x) t"

text \<open>An \<open>UPDATE\<close> of a column with a \<open>UNIQUE\<close> constraint fails when the updated rows clash.\<close>

definition update_checked ::
  "('r \<Rightarrow> 'r \<Rightarrow> bool) \<Rightarrow> string \<Rightarrow> ('r \<Rightarrow> bool) \<Rightarrow> ('r \<Rightarrow> 'r) \<Rightarrow> 'r list \<Rightarrow> 'r list res" where
  "update_checked clash cols P f t =
     (let t' = update_where P f t in if clash_free clash t' then Inr t' else Inl (unique_error cols))"

text \<open>\<open>db.IsUniqueViolation\<close> (src/internal/db/networks.go) and \<open>isLockError\<close> read the error text.\<close>

definition IsUniqueViolation :: "go_error option \<Rightarrow> bool" where
  "IsUniqueViolation err =
     (case err of None \<Rightarrow> False | Some e \<Rightarrow> Contains (Error e) ''UNIQUE constraint failed'')"

section \<open>Facts about single statements\<close>

lemma select_one_Inr: "select_one P t = Inr r \<Longrightarrow> r \<in> set t \<and> P r"
  by (auto simp: select_one_def split: option.splits dest: find_Some_conv)

lemma select_one_Inl: "select_one P t = Inl e \<longleftrightarrow> e = ErrNoRows \<and> (\<forall>r \<in> set t. \<not> P r)"
  by (auto simp: select_one_def find_None_conv split: option.splits dest: find_Some_conv)

lemma select_one_found: "r \<in> set t \<Longrightarrow> P r \<Longrightarrow> \<exists>r'. select_one P t = Inr r'"
  by (cases "select_one P t") (auto simp: select_one_Inl)

lemma set_update_where: "set (update_where P f t) = (\<lambda>r. if P r then f r else r) ` set t"
  by (simp add: update_where_def)

lemma set_delete_where [simp]: "set (delete_where P t) = {r \<in> set t. \<not> P r}"
  by (simp add: delete_where_def)

lemma length_update_where [simp]: "length (update_where P f t) = length t"
  by (simp add: update_where_def)

lemma map_update_where:
  "(\<And>r. g (f r) = g r) \<Longrightarrow> map g (update_where P f t) = map g t"
  by (auto simp: update_where_def)

lemma affected_0_iff: "affected P t = 0 \<longleftrightarrow> (\<forall>r \<in> set t. \<not> P r)"
  by (auto simp: affected_def filter_empty_conv)

lemma update_where_idle: "\<forall>r \<in> set t. \<not> P r \<Longrightarrow> update_where P f t = t"
  by (auto simp: update_where_def intro: map_idI)

lemma find_update:
  "(\<And>r. P (f r) = P r) \<Longrightarrow>
     find P (update_where Q f t) = map_option (\<lambda>r. if Q r then f r else r) (find P t)"
  by (induction t) (auto simp: update_where_def)

lemma affected_append [simp]: "affected Q (t @ u) = affected Q t + affected Q u"
  by (simp add: affected_def)

lemma affected_single [simp]: "affected Q [r] = (if Q r then 1 else 0)"
  by (simp add: affected_def)

lemma affected_Nil [simp]: "affected Q [] = 0"
  by (simp add: affected_def)

lemma affected_split: "affected Q t = affected (\<lambda>r. Q r \<and> P r) t + affected (\<lambda>r. Q r \<and> \<not> P r) t"
  by (induction t) (auto simp: affected_def)

lemma affected_update_kill:
  "(\<And>r. P r \<Longrightarrow> \<not> Q (f r)) \<Longrightarrow> affected Q (update_where P f t) = affected (\<lambda>r. Q r \<and> \<not> P r) t"
  by (induction t) (auto simp: affected_def update_where_def)

lemma affected_update_same:
  "(\<And>r. P r \<Longrightarrow> Q (f r) = Q r) \<Longrightarrow> affected Q (update_where P f t) = affected Q t"
  by (induction t) (auto simp: affected_def update_where_def)

lemma affected_delete_le: "affected Q (delete_where P t) \<le> affected Q t"
  by (induction t) (auto simp: affected_def delete_where_def)

lemma affected_pos: "r \<in> set t \<Longrightarrow> Q r \<Longrightarrow> 1 \<le> affected Q t"
  using affected_0_iff [of Q t] by (metis One_nat_def Suc_leI gr0I)

lemma unique_error_is_violation [simp]: "IsUniqueViolation (Some (unique_error cols))"
  unfolding IsUniqueViolation_def unique_error_def by (simp only: option.case Error.simps Contains_infix)

lemma execresult_cases:
  "(fst (execresult fault P f t) = Inr n \<longleftrightarrow> fault = None \<and> n = affected P t)"
  "snd (execresult fault P f t) = (if fault = None then update_where P f t else t)"
  by (auto simp: execresult_def split: option.splits)

lemma exec_cases:
  "fst (exec fault t r) = None \<longleftrightarrow> fault = None \<and> (\<exists>t'. r = Inr t')"
  "snd (exec fault t r) = (case r of Inr t' \<Rightarrow> if fault = None then t' else t | Inl e \<Rightarrow> t)"
  by (auto simp: exec_def split: option.splits sum.splits)

lemma exec_Inr [simp]: "snd (exec fault t (Inr t')) = (if fault = None then t' else t)"
  by (simp add: exec_cases)

lemma query_one_Inr: "query_one fault P t = Inr r \<Longrightarrow> fault = None \<and> select_one P t = Inr r"
  by (auto simp: query_one_def split: option.splits)

lemma or_nil_Some: "or_nil msg f r = Inr (Some y) \<longleftrightarrow> (\<exists>x. r = Inr x \<and> y = f x)"
  by (auto simp: or_nil_def split: sum.splits if_splits)

lemma insert_row_Inr:
  "insert_row clash cols r t = Inr t' \<longleftrightarrow> (\<forall>x \<in> set t. \<not> clash r x) \<and> t' = t @ [r]"
  by (auto simp: insert_row_def)

lemma insert_row_Inl:
  "insert_row clash cols r t = Inl e \<longleftrightarrow> (\<exists>x \<in> set t. clash r x) \<and> e = unique_error cols"
  by (auto simp: insert_row_def)

section \<open>Tables with constraints\<close>

locale constrained_table =
  fixes clash :: "'r \<Rightarrow> 'r \<Rightarrow> bool"
  assumes clash_sym: "clash x y \<Longrightarrow> clash y x"
begin

lemma clash_free_Nil [simp]: "clash_free clash []"
  by (simp add: clash_free_def)

lemma clash_free_insert:
  "clash_free clash t \<Longrightarrow> insert_row clash cols r t = Inr t' \<Longrightarrow> clash_free clash t'"
  by (auto simp: clash_free_def insert_row_Inr sorted_wrt_append)

lemma clash_free_delete: "clash_free clash t \<Longrightarrow> clash_free clash (delete_where P t)"
  by (simp add: clash_free_def delete_where_def sorted_wrt_filter)

lemma clash_free_update:
  assumes "clash_free clash t"
    and "\<And>x y. clash (if P x then f x else x) (if P y then f y else y) \<Longrightarrow> clash x y"
  shows "clash_free clash (update_where P f t)"
  using assms(1) unfolding clash_free_def update_where_def sorted_wrt_map
  by (rule sorted_wrt_mono_rel [rotated]) (use assms(2) in blast)

lemma clash_free_pair:
  assumes "clash_free clash t" "x \<in> set t" "y \<in> set t" "clash x y"
  shows "x = y"
proof -
  obtain i j where ij: "i < length t" "j < length t" "x = t ! i" "y = t ! j"
    using assms(2,3) by (auto simp: in_set_conv_nth)
  consider "i < j" | "i = j" | "j < i" by linarith
  then show ?thesis
    using assms(1,4) ij clash_sym unfolding clash_free_def sorted_wrt_iff_nth_less
    by cases blast+
qed

lemma find_delete:
  assumes "clash_free clash t" "\<And>x y. P x \<Longrightarrow> P y \<Longrightarrow> clash x y"
  shows "find P (delete_where Q t) = (case find P t of None \<Rightarrow> None | Some r \<Rightarrow> if Q r then None else Some r)"
proof (cases "find P (delete_where Q t)")
  case None
  then show ?thesis
    by (auto simp: find_None_conv split: option.splits dest!: find_Some_conv)
next
  case (Some r)
  then have r: "r \<in> set t" "\<not> Q r" "P r" using find_Some_conv [OF Some] by auto
  then obtain r' where r': "find P t = Some r'" by (metis find_None_conv not_None_eq)
  then have "r' = r" using find_Some_conv [OF r'] r assms clash_free_pair by metis
  then show ?thesis using Some r r' by simp
qed

end

locale keyed_table = constrained_table clash
  for clash :: "'r \<Rightarrow> 'r \<Rightarrow> bool" +
  fixes key :: "'r \<Rightarrow> 'k"
  assumes key_clash: "key x = key y \<Longrightarrow> clash x y"
begin

lemma keys_distinct: "clash_free clash t \<Longrightarrow> distinct (map key t)"
  by (induction t) (auto simp: clash_free_def, metis clash_sym key_clash)

lemma key_unique:
  "clash_free clash t \<Longrightarrow> x \<in> set t \<Longrightarrow> y \<in> set t \<Longrightarrow> key x = key y \<Longrightarrow> x = y"
  using clash_free_pair key_clash by blast

lemma select_key:
  "clash_free clash t \<Longrightarrow> r \<in> set t \<Longrightarrow> select_one (\<lambda>x. key x = key r) t = Inr r"
  by (simp add: select_one_def find_unique keys_distinct)

lemma select_after_insert:
  assumes "clash_free clash t" "insert_row clash cols r t = Inr t'"
  shows "select_one (\<lambda>x. key x = key r) t' = Inr r"
proof (rule select_key)
  show "clash_free clash t'" using assms by (rule clash_free_insert)
  show "r \<in> set t'" using assms(2) by (simp add: insert_row_Inr)
qed

lemma affected_key_le:
  assumes "clash_free clash t" "\<And>r. P r \<Longrightarrow> key r = k"
  shows "affected P t \<le> 1"
proof -
  have "distinct (map key (filter P t))"
    using keys_distinct [OF assms(1)] by (rule distinct_map_filter)
  moreover have "set (map key (filter P t)) \<subseteq> {k}" using assms(2) by auto
  ultimately have "length (map key (filter P t)) \<le> card {k}"
    by (metis card_mono distinct_card finite.emptyI finite_insert)
  then show ?thesis by (simp add: affected_def)
qed

end

end
