(* ===== verification/Resilience.thy ===== *)
theory Resilience
  imports Tables
begin

text \<open>
  The lock-retry layer between the stores and SQLite (src/internal/db/resilience.go).
  \<open>db i s\<close> is what the \<open>i\<close>-th execution of the statement does in state \<open>s\<close>: Go's pair
  \<open>(result, err)\<close> and the state after it. \<open>ctx i\<close> is the context's error when the wait before that
  execution ends by \<open>ctx.Done()\<close>.
\<close>

definition isLockError :: "go_error option \<Rightarrow> bool" where
  "isLockError err =
     (case err of None \<Rightarrow> False
      | Some e \<Rightarrow> Contains (Error e) ''database is locked'' \<or> Contains (Error e) ''table is locked'')"

definition lockRetryIntervals :: "nat list" where
  "lockRetryIntervals = [50, 100, 150, 200, 300, 400, 500, 700, 1000, 1500, 2000, 3000]"

lemma length_lockRetryIntervals: "length lockRetryIntervals = 12"
  by (simp add: lockRetryIntervals_def)

type_synonym 'r go_result = "'r option \<times> go_error option"

fun retryExec ::
  "(nat \<Rightarrow> go_error option) \<Rightarrow> (nat \<Rightarrow> 's \<Rightarrow> 'r go_result \<times> 's) \<Rightarrow> nat \<Rightarrow> nat list
     \<Rightarrow> go_error option \<Rightarrow> 's \<Rightarrow> 'r go_result \<times> 's" where
  "retryExec ctx db i [] lastErr s = ((None, lastErr), s)"
| "retryExec ctx db i (interval # rest) lastErr s =
     (case ctx i of
        Some e \<Rightarrow> ((None, Some e), s)
      | None \<Rightarrow>
          (case db i s of ((result, err), s') \<Rightarrow>
             if err = None then ((result, None), s')
             else if \<not> isLockError err then ((result, err), s')
             else retryExec ctx db (Suc i) rest err s'))"

definition ExecContext ::
  "(nat \<Rightarrow> go_error option) \<Rightarrow> (nat \<Rightarrow> 's \<Rightarrow> 'r go_result \<times> 's) \<Rightarrow> 's \<Rightarrow> 'r go_result \<times> 's" where
  "ExecContext ctx db s =
     (case db 0 s of ((result, err), s') \<Rightarrow>
        if err = None \<or> \<not> isLockError err then ((result, err), s')
        else retryExec ctx db 1 lockRetryIntervals None s')"

text \<open>The same loop around \<open>QueryContext\<close>: \<open>q i\<close> is what the \<open>i\<close>-th execution of the query returns.\<close>

fun retryQuery ::
  "(nat \<Rightarrow> go_error option) \<Rightarrow> (nat \<Rightarrow> 'r go_result) \<Rightarrow> nat \<Rightarrow> nat list \<Rightarrow> go_error option \<Rightarrow> 'r go_result" where
  "retryQuery ctx q i [] lastErr = (None, lastErr)"
| "retryQuery ctx q i (interval # rest) lastErr =
     (case ctx i of
        Some e \<Rightarrow> (None, Some e)
      | None \<Rightarrow>
          (case q i of (rows, err) \<Rightarrow>
             if err = None then (rows, None)
             else if \<not> isLockError err then (rows, err)
             else retryQuery ctx q (Suc i) rest err))"

definition QueryContext :: "(nat \<Rightarrow> go_error option) \<Rightarrow> (nat \<Rightarrow> 'r go_result) \<Rightarrow> 'r go_result" where
  "QueryContext ctx q =
     (case q 0 of (rows, err) \<Rightarrow>
        if err = None \<or> \<not> isLockError err then (rows, err)
        else retryQuery ctx q 1 lockRetryIntervals None)"

text \<open>
  What one statement looks like to the layer: an execution that fails leaves the database as it
  was (the statements are atomic), so a retry starts from the same state.
\<close>

definition atomic_statement :: "(nat \<Rightarrow> 's \<Rightarrow> 'r go_result \<times> 's) \<Rightarrow> bool" where
  "atomic_statement db \<longleftrightarrow> (\<forall>i s r e s'. db i s = ((r, Some e), s') \<longrightarrow> s' = s)"

text \<open>The \<open>j\<close>-th execution succeeded after executions \<open>i..<j\<close> that all met a lock.\<close>

definition settles :: "(nat \<Rightarrow> 's \<Rightarrow> 'r go_result \<times> 's) \<Rightarrow> 's \<Rightarrow> nat \<Rightarrow> nat \<Rightarrow> 'r option \<Rightarrow> 's \<Rightarrow> bool" where
  "settles db s i j r s' \<longleftrightarrow>
     i \<le> j \<and> db j s = ((r, None), s') \<and> (\<forall>l. i \<le> l \<and> l < j \<longrightarrow> isLockError (snd (fst (db l s))))"

lemma settles_now: "db i s = ((r, None), s') \<Longrightarrow> settles db s i i r s'"
  by (auto simp: settles_def)

lemma settles_later:
  "settles db s (Suc i) j r s' \<Longrightarrow> isLockError (snd (fst (db i s))) \<Longrightarrow> settles db s i j r s'"
  unfolding settles_def by (auto simp: Suc_le_eq) (metis Suc_leI antisym_conv2)

lemma atomic_failure: "atomic_statement db \<Longrightarrow> db i s = ((r, Some e), s') \<Longrightarrow> s' = s"
  unfolding atomic_statement_def by blast

lemma retryExec_once:
  assumes "atomic_statement db" "retryExec ctx db i ds lastErr s = ((r, err), s')"
    and "ds \<noteq> [] \<or> lastErr \<noteq> None"
  shows "(err = None \<longrightarrow> (\<exists>j < i + length ds. settles db s i j r s')) \<and> (err \<noteq> None \<longrightarrow> s' = s)"
  using assms(2,3)
proof (induction ds arbitrary: i lastErr)
  case Nil
  then show ?case by auto
next
  case (Cons d ds)
  obtain r1 e1 s1 where d: "db i s = ((r1, e1), s1)" by (metis prod.exhaust)
  consider (cancelled) e where "ctx i = Some e" | (succeeded) "ctx i = None" "e1 = None"
    | (failed) e where "ctx i = None" "e1 = Some e" "\<not> isLockError e1"
    | (locked) e where "ctx i = None" "e1 = Some e" "isLockError e1"
    by (cases "ctx i"; cases e1) auto
  then show ?case
  proof cases
    case cancelled
    then show ?thesis using Cons.prems by auto
  next
    case succeeded
    then have "r = r1" "err = None" "s' = s1" using Cons.prems d by auto
    then show ?thesis using d succeeded settles_now by (metis add_less_cancel_left add_0_right length_greater_0_conv list.distinct(1))
  next
    case failed
    then show ?thesis using Cons.prems d atomic_failure [OF assms(1)] by fastforce
  next
    case locked
    then have s1: "s1 = s" using d atomic_failure [OF assms(1)] by blast
    have "retryExec ctx db (Suc i) ds e1 s = ((r, err), s')" using Cons.prems d locked s1 by auto
    from Cons.IH [OF this] locked show ?thesis
      using settles_later [of db s i] d by (metis add_Suc_shift fst_conv length_Cons option.distinct(1) snd_conv)
  qed
qed

lemma QueryContext_is_ExecContext:
  "QueryContext ctx q = fst (ExecContext ctx (\<lambda>i (s::unit). (q i, s)) ())"
proof -
  have "retryQuery ctx q i ds lastErr = fst (retryExec ctx (\<lambda>i (s::unit). (q i, s)) i ds lastErr ())"
    for i ds lastErr
    by (induction ds arbitrary: i lastErr) (auto split: option.splits prod.splits)
  then show ?thesis
    by (auto simp: QueryContext_def ExecContext_def split: prod.splits)
qed

text \<open>
  Property C9. The retry layer has exactly-once effect. When \<open>ExecContext\<close> returns a nil error,
  the state it leaves is that of one single successful execution, the \<open>j\<close>-th with \<open>j \<le> 12\<close>, and
  every execution before it failed with a lock error; when it returns an error, nothing changed.
  So a retried write is never applied twice and never half applied.
\<close>

theorem ExecContext_exactly_once:
  assumes "atomic_statement db" "ExecContext ctx db s = ((r, err), s')"
  shows "(err = None \<longrightarrow>
            (\<exists>j \<le> 12. db j s = ((r, None), s') \<and> (\<forall>l < j. isLockError (snd (fst (db l s))))))
         \<and> (err \<noteq> None \<longrightarrow> s' = s)"
proof -
  obtain r0 e0 s0 where d: "db 0 s = ((r0, e0), s0)" by (metis prod.exhaust)
  show ?thesis
  proof (cases "e0 = None \<or> \<not> isLockError e0")
    case True
    then have "r = r0" "err = e0" "s' = s0" using assms(2) d by (auto simp: ExecContext_def)
    then show ?thesis using d atomic_failure [OF assms(1)] by (cases e0) auto
  next
    case False
    then have s0: "s0 = s" using d atomic_failure [OF assms(1)] by (cases e0) auto
    have lock: "isLockError (snd (fst (db 0 s)))" using d False by simp
    have "retryExec ctx db (Suc 0) lockRetryIntervals None s = ((r, err), s')"
      using assms(2) d False s0 by (auto simp: ExecContext_def)
    from retryExec_once [OF assms(1) this]
    have R: "err = None \<Longrightarrow> \<exists>j < 1 + length lockRetryIntervals. settles db s 1 j r s'"
        "err \<noteq> None \<Longrightarrow> s' = s"
      by (auto simp: lockRetryIntervals_def)
    show ?thesis
    proof (intro conjI impI)
      assume "err = None"
      then obtain j where j: "j \<le> 12" "settles db s 1 j r s'"
        using R(1) length_lockRetryIntervals by (metis One_nat_def add.commute less_Suc_eq_le plus_1_eq_Suc)
      have "settles db s 0 j r s'" using settles_later [where i = 0] lock j(2) by simp
      then have "err = None \<and> db j s = ((r, None), s') \<and> (\<forall>l < j. isLockError (snd (fst (db l s))))"
        using \<open>err = None\<close> by (simp add: settles_def)
      with j(1) show "\<exists>j \<le> 12. db j s = ((r, None), s') \<and> (\<forall>l < j. isLockError (snd (fst (db l s))))"
        by blast
    qed (use R(2) in blast)
  qed
qed

definition locked_twice :: "nat \<Rightarrow> nat \<Rightarrow> unit go_result \<times> nat" where
  "locked_twice i s = (if i < 2 then ((None, Some (ErrMsg ''database is locked'')), s)
                       else ((Some (), None), s + 1))"

theorem ExecContext_exactly_once_witness:
  "atomic_statement locked_twice \<and> ExecContext (\<lambda>_. None) locked_twice 5 = ((Some (), None), 6)
   \<and> (\<exists>j \<le> 12. locked_twice j 5 = ((Some (), None), 6)
        \<and> (\<forall>l < j. isLockError (snd (fst (locked_twice l 5)))))"
proof -
  have a: "atomic_statement locked_twice"
    by (auto simp: atomic_statement_def locked_twice_def split: if_splits)
  have lock: "isLockError (Some (ErrMsg ''database is locked''))"
    by (simp add: isLockError_def HasPrefix_def)
  have e: "ExecContext (\<lambda>_. None) locked_twice 5 = ((Some (), None), 6)"
    by (simp add: ExecContext_def locked_twice_def lockRetryIntervals_def lock)
  show ?thesis using a e ExecContext_exactly_once [OF a e] by simp
qed

end
