(* ===== verification/Subnet.thy ===== *)
theory Subnet
  imports GoText "HOL-Library.Word"
begin

text \<open>
  Overlay addresses (src/internal/pki/subnet.go) over the IPv4 half of \<open>net/netip\<close>: a network
  owns a \<open>/24\<close>, the server is host 1 and node \<open>i\<close> is host \<open>i + 2\<close>. An address is four bytes. The
  only subnets in the system are the dotted quads \<open>10.42.n.0/24\<close> that the network store writes, so
  the parser below covers IPv4 and treats a string with a colon as malformed.
\<close>

type_synonym ipv4 = "8 word \<times> 8 word \<times> 8 word \<times> 8 word"

record prefix =
  Addr :: ipv4
  Bits :: nat

section \<open>Printing and parsing\<close>

definition octet_string :: "8 word \<Rightarrow> string" where
  "octet_string w = itoa (unat w)"

definition addr_string :: "ipv4 \<Rightarrow> string" where
  "addr_string a =
     (case a of (p, q, r, s) \<Rightarrow>
        octet_string p @ ''.'' @ octet_string q @ ''.'' @ octet_string r @ ''.'' @ octet_string s)"

definition prefix_string :: "prefix \<Rightarrow> string" where
  "prefix_string p = addr_string (Addr p) @ ''/'' @ itoa (Bits p)"

definition parse_octet :: "string \<Rightarrow> 8 word option" where
  "parse_octet f =
     (if f \<noteq> [] \<and> list_all is_digit f \<and> (1 < length f \<longrightarrow> hd f \<noteq> CHR ''0'') \<and> dec_val f \<le> 255
      then Some (of_nat (dec_val f)) else None)"

definition ParseAddr :: "string \<Rightarrow> ipv4 option" where
  "ParseAddr s =
     (case Split CHR ''.'' s of
        [f0, f1, f2, f3] \<Rightarrow>
          (case (parse_octet f0, parse_octet f1, parse_octet f2, parse_octet f3) of
             (Some p, Some q, Some r, Some t) \<Rightarrow> Some (p, q, r, t)
           | _ \<Rightarrow> None)
      | _ \<Rightarrow> None)"

definition ParsePrefix :: "string \<Rightarrow> prefix res" where
  "ParsePrefix s =
     (let r = rev s;
          bitsStr = rev (takeWhile (\<lambda>c. c \<noteq> CHR ''/'') r);
          ip = rev (tl (dropWhile (\<lambda>c. c \<noteq> CHR ''/'') r))
      in if CHR ''/'' \<notin> set s then Inl (ErrMsg ''netip.ParsePrefix: no '/' '')
         else case ParseAddr ip of
           None \<Rightarrow> Inl (ErrMsg ''netip.ParsePrefix: unable to parse IP'')
         | Some a \<Rightarrow>
             if 1 < length bitsStr \<and> \<not> (is_digit (hd bitsStr) \<and> hd bitsStr \<noteq> CHR ''0'')
             then Inl (ErrMsg ''netip.ParsePrefix: bad bits after slash'')
             else case Atoi bitsStr of (n, ok) \<Rightarrow>
               if \<not> ok then Inl (ErrMsg ''netip.ParsePrefix: bad bits after slash'')
               else if n < 0 \<or> 32 < n then Inl (ErrMsg ''netip.ParsePrefix: prefix length out of range'')
               else Inr \<lparr>Addr = a, Bits = nat n\<rparr>)"

section \<open>The operations\<close>

definition SubnetIP :: "string \<Rightarrow> int \<Rightarrow> prefix res" where
  "SubnetIP subnet hostIndex =
     (case ParsePrefix subnet of
        Inl e \<Rightarrow> Inl (ErrWrap ''parse subnet'' e)
      | Inr p \<Rightarrow>
          if hostIndex < 0 \<or> 254 < hostIndex then Inl (ErrMsg ''host index out of range (0-254)'')
          else case Addr p of (b0, b1, b2, b3) \<Rightarrow>
            Inr \<lparr>Addr = (b0, b1, b2, of_int hostIndex), Bits = 24\<rparr>)"

definition ServerAddress :: "string \<Rightarrow> prefix res" where
  "ServerAddress subnet = SubnetIP subnet 1"

definition NodeAddress :: "string \<Rightarrow> int \<Rightarrow> prefix res" where
  "NodeAddress subnet nodeIndex = SubnetIP subnet (nodeIndex + 2)"

section \<open>Printing is inverted by parsing\<close>

lemma unat_octet_le: "unat (w :: 8 word) \<le> 255"
  using unsigned_less [of w, where ?'a = nat] by simp

lemma digits_no_zero_head: "1 < length (itoa n) \<Longrightarrow> hd (itoa n) \<noteq> CHR ''0''"
proof (induction n rule: itoa.induct)
  case (1 n)
  show ?case
  proof (cases "n < 10")
    case True
    then have "length (itoa n) = 1" by (subst itoa.simps) simp
    then show ?thesis using "1.prems" by simp
  next
    case False
    then have split: "itoa n = itoa (n div 10) @ [char_of (48 + n mod 10)]" by (subst itoa.simps) simp
    show ?thesis
    proof (cases "1 < length (itoa (n div 10))")
      case True
      then show ?thesis using "1.IH" False split by simp
    next
      case short: False
      then have m: "n div 10 < 10" by (subst (asm) itoa.simps) (auto split: if_splits)
      then have "itoa (n div 10) = [char_of (48 + n div 10)]" by (subst itoa.simps) simp
      moreover have "of_char (char_of (48 + n div 10) :: char) = (48 + n div 10 :: nat)" using m by simp
      moreover have "n div 10 \<noteq> 0" using False by simp
      ultimately show ?thesis using split by (auto dest: arg_cong [where f = "of_char :: char \<Rightarrow> nat"])
    qed
  qed
qed

lemma parse_octet_string [simp]: "parse_octet (octet_string w) = Some w"
  using digits_no_zero_head [of "unat w"] unat_octet_le [of w]
  by (simp add: parse_octet_def octet_string_def itoa_digits)

lemma octet_string_no_sep [simp]:
  "CHR ''.'' \<notin> set (octet_string w)" "CHR ''/'' \<notin> set (octet_string w)"
  by (simp_all add: octet_string_def)

lemma Split_addr_string:
  "Split CHR ''.'' (addr_string (p, q, r, s)) = [octet_string p, octet_string q, octet_string r, octet_string s]"
  by (simp add: addr_string_def)

lemma ParseAddr_addr_string [simp]: "ParseAddr (addr_string a) = Some a"
  by (cases a) (simp add: ParseAddr_def Split_addr_string)

lemma addr_string_inject [simp]: "addr_string a = addr_string b \<longleftrightarrow> a = b"
  by (metis ParseAddr_addr_string option.inject)

lemma addr_string_no_slash [simp]: "CHR ''/'' \<notin> set (addr_string a)"
  by (cases a) (simp add: addr_string_def)

lemma slash_split:
  "CHR ''/'' \<notin> set b \<Longrightarrow> rev (takeWhile (\<lambda>c. c \<noteq> CHR ''/'') (rev (a @ ''/'' @ b))) = b"
  "CHR ''/'' \<notin> set b \<Longrightarrow> rev (tl (dropWhile (\<lambda>c. c \<noteq> CHR ''/'') (rev (a @ ''/'' @ b)))) = a"
  by (auto simp: takeWhile_append dropWhile_append takeWhile_eq_all_conv dropWhile_eq_Nil_conv)

lemma itoa_hd_digit: "1 < length (itoa n) \<Longrightarrow> is_digit (hd (itoa n)) \<and> hd (itoa n) \<noteq> CHR ''0''"
  by (metis digits_no_zero_head hd_in_set itoa_digits itoa_not_Nil list_all_iff)

lemma ParsePrefix_print:
  assumes "Bits p \<le> 32"
  shows "ParsePrefix (prefix_string p) = Inr p"
proof -
  have bits: "rev (takeWhile (\<lambda>c. c \<noteq> CHR ''/'') (rev (prefix_string p))) = itoa (Bits p)"
    and ip: "rev (tl (dropWhile (\<lambda>c. c \<noteq> CHR ''/'') (rev (prefix_string p)))) = addr_string (Addr p)"
    unfolding prefix_string_def by (rule slash_split; simp)+
  have "CHR ''/'' \<in> set (prefix_string p)" by (simp add: prefix_string_def)
  moreover have "Atoi (itoa (Bits p)) = (int (Bits p), True)" using assms by simp
  ultimately show ?thesis
    using assms itoa_hd_digit [of "Bits p"]
    by (auto simp: ParsePrefix_def Let_def bits ip)
qed

text \<open>
  Printing and parsing an address prefix are inverse: what \<open>Prefix.String\<close> writes,
  \<open>ParsePrefix\<close> reads back, for every address and every prefix length up to 32.
\<close>

theorem ParsePrefix_prefix_string:
  assumes "Bits p \<le> 32"
  shows "ParsePrefix (prefix_string p) = Inr p \<and> addr_string (Addr p) = before CHR ''/'' (prefix_string p)"
  using ParsePrefix_print [OF assms] by (simp add: prefix_string_def)

theorem ParsePrefix_prefix_string_witness:
  "ParsePrefix (prefix_string \<lparr>Addr = (10, 42, 7, 254), Bits = 24\<rparr>) = Inr \<lparr>Addr = (10, 42, 7, 254), Bits = 24\<rparr>"
  using ParsePrefix_prefix_string [of "\<lparr>Addr = (10, 42, 7, 254), Bits = 24\<rparr>"] by simp

section \<open>Node addresses\<close>

lemma SubnetIP_Inr:
  "SubnetIP subnet h = Inr q \<longleftrightarrow>
     (\<exists>p b0 b1 b2 b3. ParsePrefix subnet = Inr p \<and> Addr p = (b0, b1, b2, b3) \<and> 0 \<le> h \<and> h \<le> 254
        \<and> q = \<lparr>Addr = (b0, b1, b2, of_int h), Bits = 24\<rparr>)"
  by (auto simp: SubnetIP_def split: sum.splits prod.splits)

lemma of_int_octet_inject:
  assumes "0 \<le> i" "i \<le> 254" "0 \<le> j" "j \<le> 254" "(of_int i :: 8 word) = of_int j"
  shows "i = j"
proof -
  have "uint (of_int i :: 8 word) = uint (of_int j :: 8 word)" using assms(5) by simp
  then have "i mod 256 = j mod 256" by (simp add: uint_word_of_int)
  then show ?thesis using assms(1-4) by simp
qed

lemma SubnetIP_inject:
  assumes "SubnetIP subnet i = Inr p" "SubnetIP subnet j = Inr q"
  shows "Addr p = Addr q \<longleftrightarrow> i = j"
proof -
  have "0 \<le> i" "i \<le> 254" "0 \<le> j" "j \<le> 254" using assms by (auto simp: SubnetIP_Inr)
  note injection = of_int_octet_inject [OF this]
  then show ?thesis using assms by (auto simp: SubnetIP_Inr)
qed

text \<open>
  Addresses within one network never collide. Two node indices of the same network
  get the same address only when they are the same index, and no node ever gets the address of the
  server, which is host 1.
\<close>

theorem NodeAddress_unique:
  assumes "NodeAddress subnet i = Inr p" "NodeAddress subnet j = Inr q"
    and "ServerAddress subnet = Inr srv" "0 \<le> i"
  shows "(addr_string (Addr p) = addr_string (Addr q) \<longleftrightarrow> i = j)
       \<and> addr_string (Addr p) \<noteq> addr_string (Addr srv)"
proof
  show "addr_string (Addr p) = addr_string (Addr q) \<longleftrightarrow> i = j"
    using SubnetIP_inject [OF assms(1,2) [unfolded NodeAddress_def]] by simp
  show "addr_string (Addr p) \<noteq> addr_string (Addr srv)"
    using SubnetIP_inject [OF assms(1) [unfolded NodeAddress_def] assms(3) [unfolded ServerAddress_def]]
      assms(4) by simp
qed

theorem NodeAddress_unique_witness:
  "NodeAddress ''10.42.7.0/24'' 0 = Inr \<lparr>Addr = (10, 42, 7, 2), Bits = 24\<rparr>
   \<and> addr_string (10, 42, 7, 2) \<noteq> addr_string (10, 42, 7, 254)
   \<and> addr_string (10, 42, 7, 2) \<noteq> addr_string (10, 42, 7, 1)"
proof -
  have n: "NodeAddress ''10.42.7.0/24'' 0 = Inr \<lparr>Addr = (10, 42, 7, 2), Bits = 24\<rparr>"
      "NodeAddress ''10.42.7.0/24'' 252 = Inr \<lparr>Addr = (10, 42, 7, 254), Bits = 24\<rparr>"
      "ServerAddress ''10.42.7.0/24'' = Inr \<lparr>Addr = (10, 42, 7, 1), Bits = 24\<rparr>"
    by code_simp+
  show ?thesis using n(1) NodeAddress_unique [OF n] by simp
qed

end
