(* ===== verification/DeviceCodes.thy ===== *)
theory DeviceCodes
  imports Tables
begin

text \<open>
  The device-authorisation codes (src/internal/db/device_codes.go and the queries of
  src/internal/db/dbsqlc/device_codes.sql.go). A code is created \<open>pending\<close>, a signed-in user moves
  it to \<open>authorized\<close> for one network, and the polling agent moves it to \<open>completed\<close>, once. SHA-256 is
  the argument \<open>sha\<close> of the definitions; nothing below depends on what it computes. The write
  connection is limited to one, so a transaction runs without interleaving.
\<close>

record DeviceCode =
  dc_code :: string
  dc_user_code :: string
  dc_user_id :: "string option"
  dc_network_id :: "string option"
  dc_node_id :: "string option"
  dc_status :: string
  dc_expires_at :: int
  dc_created_at :: int

type_synonym device_codes = "DeviceCode list"

definition dc_clash :: "DeviceCode \<Rightarrow> DeviceCode \<Rightarrow> bool" where
  "dc_clash x y \<longleftrightarrow> dc_code x = dc_code y \<or> dc_user_code x = dc_user_code y"

section \<open>The generated queries\<close>

definition InsertDeviceCode ::
  "go_error option \<Rightarrow> int \<Rightarrow> string \<Rightarrow> string \<Rightarrow> string \<Rightarrow> int \<Rightarrow> device_codes \<Rightarrow> go_error option \<times> device_codes" where
  "InsertDeviceCode fault now deviceCode userCode status expiresAt t =
     exec fault t (insert_row dc_clash ''device_codes''
       \<lparr>dc_code = deviceCode, dc_user_code = userCode, dc_user_id = None, dc_network_id = None,
        dc_node_id = None, dc_status = status, dc_expires_at = expiresAt, dc_created_at = now\<rparr> t)"

definition GetDeviceCodeByCode :: "go_error option \<Rightarrow> string \<Rightarrow> device_codes \<Rightarrow> DeviceCode res" where
  "GetDeviceCodeByCode fault deviceCode t = query_one fault (\<lambda>r. dc_code r = deviceCode) t"

definition GetDeviceCodeByUserCode :: "go_error option \<Rightarrow> string \<Rightarrow> int \<Rightarrow> device_codes \<Rightarrow> DeviceCode res" where
  "GetDeviceCodeByUserCode fault userCode now t =
     query_one fault (\<lambda>r. dc_user_code r = userCode \<and> dc_expires_at r > now) t"

definition AuthorizeDeviceCode ::
  "go_error option \<Rightarrow> string option \<Rightarrow> string option \<Rightarrow> string \<Rightarrow> int \<Rightarrow> device_codes \<Rightarrow> nat res \<times> device_codes" where
  "AuthorizeDeviceCode fault userID networkID userCode now t =
     execresult fault (\<lambda>r. dc_user_code r = userCode \<and> dc_status r = ''pending'' \<and> dc_expires_at r > now)
       (\<lambda>r. r\<lparr>dc_user_id := userID, dc_network_id := networkID, dc_status := ''authorized''\<rparr>) t"

definition GetAuthorizedDeviceCode :: "go_error option \<Rightarrow> string \<Rightarrow> int \<Rightarrow> device_codes \<Rightarrow> DeviceCode res" where
  "GetAuthorizedDeviceCode fault deviceCode now t =
     query_one fault (\<lambda>r. dc_code r = deviceCode \<and> dc_status r = ''authorized'' \<and> dc_expires_at r > now) t"

definition CompleteDeviceCode :: "go_error option \<Rightarrow> string \<Rightarrow> device_codes \<Rightarrow> nat res \<times> device_codes" where
  "CompleteDeviceCode fault deviceCode t =
     execresult fault (\<lambda>r. dc_code r = deviceCode \<and> dc_status r = ''authorized'')
       (\<lambda>r. r\<lparr>dc_status := ''completed''\<rparr>) t"

definition SetDeviceCodeNodeID ::
  "go_error option \<Rightarrow> string option \<Rightarrow> string \<Rightarrow> device_codes \<Rightarrow> go_error option \<times> device_codes" where
  "SetDeviceCodeNodeID fault nodeID deviceCode t =
     exec fault t (Inr (update_where (\<lambda>r. dc_code r = deviceCode) (\<lambda>r. r\<lparr>dc_node_id := nodeID\<rparr>) t))"

definition DeleteExpiredDeviceCodes ::
  "go_error option \<Rightarrow> int \<Rightarrow> device_codes \<Rightarrow> go_error option \<times> device_codes" where
  "DeleteExpiredDeviceCodes fault now t = exec fault t (Inr (delete_where (\<lambda>r. dc_expires_at r < now) t))"

section \<open>The store\<close>

definition deviceCodeTTL :: int where
  "deviceCodeTTL = 10 * 60"

definition userCodeAlphabet :: string where
  "userCodeAlphabet = ''ABCDEFGHJKLMNPQRSTUVWXYZ23456789''"

definition userCodeLength :: nat where
  "userCodeLength = 4"

definition hashDeviceCode :: "(string \<Rightarrow> string) \<Rightarrow> string \<Rightarrow> string" where
  "hashDeviceCode sha code = EncodeToString (sha code)"

text \<open>\<open>b\<close> is what \<open>rand.Read\<close> returned for 32 bytes, \<open>draw i\<close> what the \<open>i\<close>-th \<open>rand.Int\<close> returned.\<close>

definition generateDeviceCode :: "string res \<Rightarrow> string res" where
  "generateDeviceCode b = (case b of Inl e \<Rightarrow> Inl e | Inr bs \<Rightarrow> Inr (EncodeToString bs))"

fun draw_code :: "(nat \<Rightarrow> nat res) \<Rightarrow> nat \<Rightarrow> string res" where
  "draw_code draw 0 = Inr []"
| "draw_code draw (Suc n) =
     (case draw_code draw n of
        Inl e \<Rightarrow> Inl e
      | Inr s \<Rightarrow> (case draw n of Inl e \<Rightarrow> Inl e | Inr k \<Rightarrow> Inr (s @ [userCodeAlphabet ! k])))"

definition generateUserCode :: "(nat \<Rightarrow> nat res) \<Rightarrow> string res" where
  "generateUserCode draw = draw_code draw userCodeLength"

text \<open>The attempts of \<open>Create\<close>: \<open>n\<close> are left, \<open>a\<close> is the number of the next one.\<close>

fun create_attempts ::
  "(string \<Rightarrow> string) \<Rightarrow> string \<Rightarrow> (nat \<Rightarrow> nat \<Rightarrow> nat res) \<Rightarrow> (nat \<Rightarrow> int) \<Rightarrow> (nat \<Rightarrow> go_error option)
     \<Rightarrow> nat \<Rightarrow> nat \<Rightarrow> device_codes \<Rightarrow> DeviceCode res \<times> device_codes" where
  "create_attempts sha deviceCode draws now fault a 0 t =
     (Inl (ErrMsg ''failed to generate unique user code after 3 attempts''), t)"
| "create_attempts sha deviceCode draws now fault a (Suc n) t =
     (case generateUserCode (draws a) of
        Inl e \<Rightarrow> (Inl e, t)
      | Inr userCode \<Rightarrow>
          let dc = \<lparr>dc_code = deviceCode, dc_user_code = ''HOP-'' @ userCode, dc_user_id = None,
                    dc_network_id = None, dc_node_id = None, dc_status = ''pending'',
                    dc_expires_at = now a + deviceCodeTTL, dc_created_at = 0\<rparr>
          in case InsertDeviceCode (fault a) (now a) (hashDeviceCode sha deviceCode) (dc_user_code dc)
                    (dc_status dc) (dc_expires_at dc) t of
               (None, t') \<Rightarrow> (Inr dc, t')
             | (Some e, t') \<Rightarrow>
                 if Contains (Error e) ''UNIQUE constraint failed''
                 then create_attempts sha deviceCode draws now fault (Suc a) n t'
                 else (Inl (ErrWrap ''create device code'' e), t'))"

definition DeviceCodeStore_Create ::
  "(string \<Rightarrow> string) \<Rightarrow> string res \<Rightarrow> (nat \<Rightarrow> nat \<Rightarrow> nat res) \<Rightarrow> (nat \<Rightarrow> int) \<Rightarrow> (nat \<Rightarrow> go_error option)
     \<Rightarrow> device_codes \<Rightarrow> DeviceCode res \<times> device_codes" where
  "DeviceCodeStore_Create sha b draws now fault t =
     (case generateDeviceCode b of
        Inl e \<Rightarrow> (Inl e, t)
      | Inr deviceCode \<Rightarrow> create_attempts sha deviceCode draws now fault 0 3 t)"

definition mapDeviceCodeRow :: "DeviceCode \<Rightarrow> DeviceCode" where
  "mapDeviceCodeRow row =
     \<lparr>dc_code = dc_code row, dc_user_code = dc_user_code row, dc_user_id = dc_user_id row,
      dc_network_id = dc_network_id row, dc_node_id = dc_node_id row, dc_status = dc_status row,
      dc_expires_at = dc_expires_at row, dc_created_at = dc_created_at row\<rparr>"

definition GetByDeviceCode :: "(string \<Rightarrow> string) \<Rightarrow> go_error option \<Rightarrow> string \<Rightarrow> device_codes \<Rightarrow> DeviceCode option res" where
  "GetByDeviceCode sha fault deviceCode t =
     or_nil ''get device code'' mapDeviceCodeRow (GetDeviceCodeByCode fault (hashDeviceCode sha deviceCode) t)"

definition GetByUserCode :: "go_error option \<Rightarrow> int \<Rightarrow> string \<Rightarrow> device_codes \<Rightarrow> DeviceCode option res" where
  "GetByUserCode fault now userCode t =
     or_nil ''get device code by user code'' mapDeviceCodeRow
       (GetDeviceCodeByUserCode fault (ToUpper userCode) now t)"

definition DeviceCodeStore_Authorize ::
  "go_error option \<Rightarrow> int \<Rightarrow> string \<Rightarrow> string \<Rightarrow> string \<Rightarrow> device_codes \<Rightarrow> go_error option \<times> device_codes" where
  "DeviceCodeStore_Authorize fault now userCode userID networkID t =
     (case AuthorizeDeviceCode fault (Some userID) (Some networkID) (ToUpper userCode) now t of
        (Inl e, t') \<Rightarrow> (Some (ErrWrap ''authorize device code'' e), t')
      | (Inr rows, t') \<Rightarrow>
          if rows = 0 then (Some (ErrMsg ''device code not found, already used, or expired''), t')
          else (None, t'))"

text \<open>
  The transaction of \<open>ClaimAuthorized\<close>; \<open>fault\<close> is indexed by its four points of failure. Every return
  before the commit rolls back.
\<close>

definition ClaimAuthorized ::
  "(string \<Rightarrow> string) \<Rightarrow> (string \<Rightarrow> go_error option) \<Rightarrow> int \<Rightarrow> string \<Rightarrow> device_codes
     \<Rightarrow> DeviceCode option res \<times> device_codes" where
  "ClaimAuthorized sha fault now deviceCode t =
     (let h = hashDeviceCode sha deviceCode in
      case fault ''begin'' of
        Some e \<Rightarrow> (Inl (ErrWrap ''begin tx'' e), t)
      | None \<Rightarrow>
          (case GetAuthorizedDeviceCode (fault ''query'') h now t of
             Inl e \<Rightarrow> (if is_no_rows e then (Inr None, t) else (Inl (ErrWrap ''query device code'' e), t))
           | Inr row \<Rightarrow>
               (case CompleteDeviceCode (fault ''exec'') h t of
                  (Inl e, t') \<Rightarrow> (Inl (ErrWrap ''claim device code'' e), t)
                | (Inr rows, t') \<Rightarrow>
                    if rows = 0 then (Inr None, t)
                    else case fault ''commit'' of
                      Some e \<Rightarrow> (Inl (ErrWrap ''commit'' e), t)
                    | None \<Rightarrow>
                        (Inr (Some \<lparr>dc_code = dc_code row, dc_user_code = dc_user_code row,
                                    dc_user_id = dc_user_id row, dc_network_id = dc_network_id row,
                                    dc_node_id = None, dc_status = dc_status row,
                                    dc_expires_at = dc_expires_at row, dc_created_at = 0\<rparr>), t'))))"

definition SetNodeID ::
  "(string \<Rightarrow> string) \<Rightarrow> go_error option \<Rightarrow> string \<Rightarrow> string \<Rightarrow> device_codes \<Rightarrow> go_error option \<times> device_codes" where
  "SetNodeID sha fault deviceCode nodeID t =
     SetDeviceCodeNodeID fault (Some nodeID) (hashDeviceCode sha deviceCode) t"

definition DeviceCodeStore_DeleteExpired :: "go_error option \<Rightarrow> int \<Rightarrow> device_codes \<Rightarrow> go_error option \<times> device_codes" where
  "DeviceCodeStore_DeleteExpired fault now t = DeleteExpiredDeviceCodes fault now t"

lemmas device_code_queries = InsertDeviceCode_def GetDeviceCodeByCode_def GetDeviceCodeByUserCode_def
  AuthorizeDeviceCode_def GetAuthorizedDeviceCode_def CompleteDeviceCode_def SetDeviceCodeNodeID_def
  DeleteExpiredDeviceCodes_def

section \<open>What each operation does to the table\<close>

lemma create_attempts_outcome:
  "create_attempts sha code draws now fault a n t = (res, t') \<Longrightarrow>
     (case res of
        Inl e \<Rightarrow> t' = t
      | Inr dc \<Rightarrow> dc_code dc = code
          \<and> (\<exists>row. t' = t @ [row] \<and> (\<forall>x \<in> set t. \<not> dc_clash row x)
               \<and> dc_code row = hashDeviceCode sha code \<and> dc_status row = ''pending''
               \<and> dc_user_code row = dc_user_code dc \<and> dc_expires_at row = dc_expires_at dc))"
proof (induction n arbitrary: a)
  case (Suc n)
  then show ?case
    by (auto simp: InsertDeviceCode_def exec_def insert_row_Inr insert_row_Inl Let_def
        split: sum.splits option.splits prod.splits if_splits)
qed auto

lemma Create_outcome:
  assumes "DeviceCodeStore_Create sha b draws now fault t = (res, t')"
  shows "case res of
           Inl e \<Rightarrow> t' = t
         | Inr dc \<Rightarrow> (\<exists>row. t' = t @ [row] \<and> (\<forall>x \<in> set t. \<not> dc_clash row x)
             \<and> dc_code row = hashDeviceCode sha (dc_code dc) \<and> dc_status row = ''pending''
             \<and> dc_user_code row = dc_user_code dc \<and> dc_expires_at row = dc_expires_at dc)"
proof (cases "generateDeviceCode b")
  case (Inl e)
  then show ?thesis using assms by (auto simp: DeviceCodeStore_Create_def)
next
  case (Inr code)
  then have "create_attempts sha code draws now fault 0 3 t = (res, t')"
    using assms by (simp add: DeviceCodeStore_Create_def)
  from create_attempts_outcome [OF this] show ?thesis by (auto split: sum.splits)
qed

lemma Authorize_table:
  "snd (DeviceCodeStore_Authorize fault now userCode userID networkID t) =
     (if fault = None
      then update_where (\<lambda>r. dc_user_code r = ToUpper userCode \<and> dc_status r = ''pending'' \<and> dc_expires_at r > now)
             (\<lambda>r. r\<lparr>dc_user_id := Some userID, dc_network_id := Some networkID, dc_status := ''authorized''\<rparr>) t
      else t)"
  by (auto simp: DeviceCodeStore_Authorize_def AuthorizeDeviceCode_def execresult_def split: option.splits)

lemma Authorize_success:
  "fst (DeviceCodeStore_Authorize fault now userCode userID networkID t) = None \<longleftrightarrow>
     fault = None \<and> (\<exists>r \<in> set t. dc_user_code r = ToUpper userCode \<and> dc_status r = ''pending'' \<and> dc_expires_at r > now)"
  by (auto simp: DeviceCodeStore_Authorize_def AuthorizeDeviceCode_def execresult_def affected_0_iff
      split: option.splits if_splits)

definition complete_code :: "string \<Rightarrow> device_codes \<Rightarrow> device_codes" where
  "complete_code h t =
     update_where (\<lambda>r. dc_code r = h \<and> dc_status r = ''authorized'') (\<lambda>r. r\<lparr>dc_status := ''completed''\<rparr>) t"

lemma Claim_outcome:
  assumes "ClaimAuthorized sha fault now code t = (res, t')"
  shows "case res of
           Inr (Some dc) \<Rightarrow>
             (\<exists>row \<in> set t. dc_code row = hashDeviceCode sha code \<and> dc_status row = ''authorized''
                \<and> dc_expires_at row > now \<and> dc_code dc = dc_code row \<and> dc_user_code dc = dc_user_code row
                \<and> dc_user_id dc = dc_user_id row \<and> dc_network_id dc = dc_network_id row
                \<and> dc_expires_at dc = dc_expires_at row)
             \<and> t' = complete_code (hashDeviceCode sha code) t
         | _ \<Rightarrow> t' = t"
  using assms
  by (auto simp: ClaimAuthorized_def GetAuthorizedDeviceCode_def CompleteDeviceCode_def execresult_def
      complete_code_def Let_def dest!: query_one_Inr select_one_Inr
      split: option.splits sum.splits if_splits prod.splits)

section \<open>Histories\<close>

datatype dc_op =
    DcCreate "string res" "nat \<Rightarrow> nat \<Rightarrow> nat res" "nat \<Rightarrow> int" "nat \<Rightarrow> go_error option"
  | DcAuthorize "go_error option" int string string string
  | DcClaim "string \<Rightarrow> go_error option" int string
  | DcSetNode "go_error option" string string
  | DcSweep "go_error option" int

primrec dc_step :: "(string \<Rightarrow> string) \<Rightarrow> dc_op \<Rightarrow> device_codes \<Rightarrow> device_codes" where
  "dc_step sha (DcCreate b draws now fault) t = snd (DeviceCodeStore_Create sha b draws now fault t)"
| "dc_step sha (DcAuthorize fault now userCode userID networkID) t =
     snd (DeviceCodeStore_Authorize fault now userCode userID networkID t)"
| "dc_step sha (DcClaim fault now code) t = snd (ClaimAuthorized sha fault now code t)"
| "dc_step sha (DcSetNode fault code nodeID) t = snd (SetNodeID sha fault code nodeID t)"
| "dc_step sha (DcSweep fault now) t = snd (DeviceCodeStore_DeleteExpired fault now t)"

text \<open>The operation is a claim of the stored code \<open>h\<close> that was answered with the device code.\<close>

primrec dc_claimed :: "(string \<Rightarrow> string) \<Rightarrow> dc_op \<Rightarrow> device_codes \<Rightarrow> string \<Rightarrow> bool" where
  "dc_claimed sha (DcCreate b draws now fault) t h = False"
| "dc_claimed sha (DcAuthorize fault now userCode userID networkID) t h = False"
| "dc_claimed sha (DcClaim fault now code) t h =
     (hashDeviceCode sha code = h
      \<and> (case fst (ClaimAuthorized sha fault now code t) of Inr (Some dc) \<Rightarrow> True | _ \<Rightarrow> False))"
| "dc_claimed sha (DcSetNode fault code nodeID) t h = False"
| "dc_claimed sha (DcSweep fault now) t h = False"

text \<open>The operation issued a code that is stored as \<open>h\<close>.\<close>

primrec dc_issued :: "(string \<Rightarrow> string) \<Rightarrow> dc_op \<Rightarrow> device_codes \<Rightarrow> string \<Rightarrow> bool" where
  "dc_issued sha (DcCreate b draws now fault) t h =
     (case fst (DeviceCodeStore_Create sha b draws now fault t) of
        Inl e \<Rightarrow> False | Inr dc \<Rightarrow> hashDeviceCode sha (dc_code dc) = h)"
| "dc_issued sha (DcAuthorize fault now userCode userID networkID) t h = False"
| "dc_issued sha (DcClaim fault now code) t h = False"
| "dc_issued sha (DcSetNode fault code nodeID) t h = False"
| "dc_issued sha (DcSweep fault now) t h = False"

definition live_code :: "string \<Rightarrow> DeviceCode \<Rightarrow> bool" where
  "live_code h r \<longleftrightarrow> dc_code r = h \<and> dc_status r \<noteq> ''completed''"

interpretation dct: keyed_table dc_clash dc_code
  by unfold_locales (auto simp: dc_clash_def)

lemma dc_step_update:
  "snd (SetNodeID sha fault code nodeID t) =
     (if fault = None then update_where (\<lambda>r. dc_code r = hashDeviceCode sha code) (\<lambda>r. r\<lparr>dc_node_id := Some nodeID\<rparr>) t
      else t)"
  "snd (DeviceCodeStore_DeleteExpired fault now t) =
     (if fault = None then delete_where (\<lambda>r. dc_expires_at r < now) t else t)"
  by (auto simp: SetNodeID_def SetDeviceCodeNodeID_def DeviceCodeStore_DeleteExpired_def
      DeleteExpiredDeviceCodes_def)

lemma dc_step_clash_free: "clash_free dc_clash t \<Longrightarrow> clash_free dc_clash (dc_step sha x t)"
proof (cases x)
  case (DcCreate b draws now fault)
  assume t: "clash_free dc_clash t"
  obtain res t' where c: "DeviceCodeStore_Create sha b draws now fault t = (res, t')" by fastforce
  show ?thesis
    using Create_outcome [OF c] t c DcCreate dct.clash_free_insert [of t "''''"]
    by (auto simp: insert_row_Inr split: sum.splits)
next
  case (DcClaim fault now code)
  assume t: "clash_free dc_clash t"
  obtain res t' where c: "ClaimAuthorized sha fault now code t = (res, t')" by fastforce
  have "clash_free dc_clash (complete_code h t)" for h
    unfolding complete_code_def by (rule dct.clash_free_update [OF t]) (auto simp: dc_clash_def split: if_splits)
  then show ?thesis using Claim_outcome [OF c] t c DcClaim by (auto split: sum.splits option.splits)
qed (auto simp: Authorize_table dc_step_update dc_clash_def split: if_splits
     intro!: dct.clash_free_update dct.clash_free_delete)

lemma complete_code_live:
  assumes "row \<in> set t" "dc_code row = h" "dc_status row = ''authorized''"
  shows "affected (live_code h) (complete_code h t) + 1 \<le> affected (live_code h) t"
    and "affected (live_code k) (complete_code h t) \<le> affected (live_code k) t"
proof -
  let ?P = "\<lambda>r. dc_code r = h \<and> dc_status r = ''authorized''"
  have kill: "affected (live_code k) (complete_code h t) = affected (\<lambda>r. live_code k r \<and> \<not> ?P r) t" for k
    unfolding complete_code_def by (rule affected_update_kill) (simp add: live_code_def)
  have "1 \<le> affected (\<lambda>r. live_code h r \<and> ?P r) t"
    by (rule affected_pos [OF assms(1)]) (use assms in \<open>simp add: live_code_def\<close>)
  then show "affected (live_code h) (complete_code h t) + 1 \<le> affected (live_code h) t"
    using affected_split [of "live_code h" t ?P] kill [of h] by simp
  show "affected (live_code k) (complete_code h t) \<le> affected (live_code k) t"
    using affected_split [of "live_code k" t ?P] kill [of k] by simp
qed

interpretation dcm: metered "dc_step sha" "clash_free dc_clash" "dc_claimed sha"
  "\<lambda>x t h. if dc_issued sha x t h then 1 else 0" "\<lambda>h t. enat (affected (live_code h) t)"
proof
  fix t x h
  show "clash_free dc_clash t \<Longrightarrow> clash_free dc_clash (dc_step sha x t)" by (rule dc_step_clash_free)
  show "enat (affected (live_code h) (dc_step sha x t)) + 1 \<le> enat (affected (live_code h) t)"
    if "dc_claimed sha x t h"
  proof (cases x)
    case (DcClaim fault now code)
    obtain res t' where c: "ClaimAuthorized sha fault now code t = (res, t')" by fastforce
    show ?thesis
      using Claim_outcome [OF c] c that DcClaim complete_code_live(1)
      by (auto simp: one_enat_def split: sum.splits option.splits)
  qed (use that in auto)
  show "enat (affected (live_code h) (dc_step sha x t))
          \<le> enat (affected (live_code h) t) + (if dc_issued sha x t h then 1 else 0)"
    if "\<not> dc_claimed sha x t h"
  proof (cases x)
    case (DcCreate b draws now fault)
    obtain res t' where c: "DeviceCodeStore_Create sha b draws now fault t = (res, t')" by fastforce
    show ?thesis
      using Create_outcome [OF c] c DcCreate
      by (auto simp: one_enat_def live_code_def split: sum.splits)
  next
    case (DcClaim fault now code)
    obtain res t' where c: "ClaimAuthorized sha fault now code t = (res, t')" by fastforce
    show ?thesis
      using Claim_outcome [OF c] c DcClaim complete_code_live(2)
      by (auto split: sum.splits option.splits)
  qed (auto simp: Authorize_table dc_step_update affected_delete_le live_code_def
        intro!: eq_imp_le affected_update_same)
qed

text \<open>
  Property C1. A device code is redeemed at most once. In any history of operations on the store
  (any interleaving of requests, any of which may fail at any database call), starting from a
  database without codes, the number of successful claims of a code is at most the number of times
  it was issued; a code of 32 random bytes is issued once.
\<close>

theorem device_code_claimed_once:
  "tally (dc_step sha) (\<lambda>x t. if dc_claimed sha x t h then 1 else 0) ops []
     \<le> (tally (dc_step sha) (\<lambda>x t. if dc_issued sha x t h then 1 else 0) ops [] :: nat)"
  using dcm.claims_bounded [of "[]" sha h ops] tally_enat [of "dc_step sha" "\<lambda>x t. if dc_issued sha x t h then 1 else 0" ops "[]"]
  by (simp add: if_distrib [of enat] one_enat_def zero_enat_def cong: if_cong)

text \<open>The authorisation a row carries: who, for which network, under which user code, until when.\<close>

definition grant_of :: "DeviceCode \<Rightarrow> string option \<times> string option \<times> string \<times> int" where
  "grant_of r = (dc_user_id r, dc_network_id r, dc_user_code r, dc_expires_at r)"

definition backed :: "dc_op list \<Rightarrow> string option \<times> string option \<times> string \<times> int \<Rightarrow> bool" where
  "backed ops g \<longleftrightarrow>
     (\<exists>now userCode userID networkID ex. DcAuthorize None now userCode userID networkID \<in> set ops
        \<and> g = (Some userID, Some networkID, ToUpper userCode, ex) \<and> now < ex)"

lemma backed_mono: "backed ops g \<Longrightarrow> backed (ops @ later) g"
    "backed later g \<Longrightarrow> backed (ops @ later) g"
  unfolding backed_def by fastforce+

lemma dc_step_grants:
  assumes "r' \<in> set (dc_step sha x t)" "dc_status r' = ''authorized''"
  shows "(\<exists>r \<in> set t. dc_status r = ''authorized'' \<and> grant_of r' = grant_of r) \<or> backed [x] (grant_of r')"
proof (cases x)
  case (DcCreate b draws now fault)
  obtain res t' where c: "DeviceCodeStore_Create sha b draws now fault t = (res, t')" by fastforce
  show ?thesis using Create_outcome [OF c] c DcCreate assms by (auto split: sum.splits)
next
  case (DcAuthorize fault now userCode userID networkID)
  then show ?thesis using assms
    by (auto simp: Authorize_table set_update_where backed_def grant_of_def split: if_splits)
next
  case (DcClaim fault now code)
  obtain res t' where c: "ClaimAuthorized sha fault now code t = (res, t')" by fastforce
  show ?thesis using Claim_outcome [OF c] c DcClaim assms
    by (auto simp: complete_code_def set_update_where split: sum.splits option.splits if_splits)
qed (use assms in \<open>auto simp: dc_step_update set_update_where grant_of_def split: if_splits\<close>)

lemma authorized_backed:
  "r \<in> set (run (dc_step sha) ops []) \<Longrightarrow> dc_status r = ''authorized'' \<Longrightarrow> backed ops (grant_of r)"
proof (induction ops arbitrary: r rule: rev_induct)
  case (snoc x ops)
  have "r \<in> set (dc_step sha x (run (dc_step sha) ops []))" using snoc.prems(1) by simp
  from dc_step_grants [OF this snoc.prems(2)] show ?case
  proof
    assume "\<exists>q \<in> set (run (dc_step sha) ops []). dc_status q = ''authorized'' \<and> grant_of r = grant_of q"
    then show ?case using snoc.IH backed_mono(1) by metis
  qed (rule backed_mono(2))
qed simp

text \<open>
  Property C4. A device joins only what a user approved. Whenever the claim of a device code
  succeeds, after any history of the store, the user and the network it carries are those of an
  \<open>Authorize\<close> call of that history on this code's user code, which took effect before the code
  expired; and the claim itself happens before the expiry.
\<close>

theorem claimed_code_was_authorized:
  assumes "ClaimAuthorized sha fault now code (run (dc_step sha) ops []) = (Inr (Some dc), t')"
  shows "\<exists>when userCode userID networkID.
           DcAuthorize None when userCode userID networkID \<in> set ops
           \<and> dc_user_code dc = ToUpper userCode \<and> dc_user_id dc = Some userID
           \<and> dc_network_id dc = Some networkID \<and> dc_code dc = hashDeviceCode sha code
           \<and> when < dc_expires_at dc \<and> now < dc_expires_at dc"
proof -
  from Claim_outcome [OF assms] obtain row where
    row: "row \<in> set (run (dc_step sha) ops [])" "dc_status row = ''authorized''"
      "dc_code row = hashDeviceCode sha code" "now < dc_expires_at row"
    and dc: "dc_code dc = dc_code row" "dc_user_code dc = dc_user_code row"
      "dc_user_id dc = dc_user_id row" "dc_network_id dc = dc_network_id row"
      "dc_expires_at dc = dc_expires_at row"
    by auto
  from authorized_backed [OF row(1,2)] show ?thesis
    using dc row(3,4) by (auto simp: backed_def grant_of_def)
qed

text \<open>One code issued at 100, approved at 150 and redeemed at 200.\<close>

definition sample_history :: "dc_op list" where
  "sample_history =
     [DcCreate (Inr ''k'') (\<lambda>_ _. Inr 0) (\<lambda>_. 100) (\<lambda>_. None),
      DcAuthorize None 150 ''hop-aaaa'' ''u1'' ''n1'']"

theorem claimed_code_was_authorized_witness:
  "ClaimAuthorized (\<lambda>s. s) (\<lambda>_. None) 200 ''6b'' (run (dc_step (\<lambda>s. s)) sample_history [])
     = (Inr (Some \<lparr>dc_code = ''3662'', dc_user_code = ''HOP-AAAA'', dc_user_id = Some ''u1'',
                   dc_network_id = Some ''n1'', dc_node_id = None, dc_status = ''authorized'',
                   dc_expires_at = 700, dc_created_at = 0\<rparr>),
        [\<lparr>dc_code = ''3662'', dc_user_code = ''HOP-AAAA'', dc_user_id = Some ''u1'',
          dc_network_id = Some ''n1'', dc_node_id = None, dc_status = ''completed'',
          dc_expires_at = 700, dc_created_at = 100\<rparr>])
   \<and> (\<exists>when userCode userID networkID. DcAuthorize None when userCode userID networkID \<in> set sample_history
        \<and> ''HOP-AAAA'' = ToUpper userCode \<and> Some ''u1'' = Some userID \<and> Some ''n1'' = Some networkID \<and> when < 700)"
proof -
  have e: "ClaimAuthorized (\<lambda>s. s) (\<lambda>_. None) 200 ''6b'' (run (dc_step (\<lambda>s. s)) sample_history [])
     = (Inr (Some \<lparr>dc_code = ''3662'', dc_user_code = ''HOP-AAAA'', dc_user_id = Some ''u1'',
                   dc_network_id = Some ''n1'', dc_node_id = None, dc_status = ''authorized'',
                   dc_expires_at = 700, dc_created_at = 0\<rparr>),
        [\<lparr>dc_code = ''3662'', dc_user_code = ''HOP-AAAA'', dc_user_id = Some ''u1'',
          dc_network_id = Some ''n1'', dc_node_id = None, dc_status = ''completed'',
          dc_expires_at = 700, dc_created_at = 100\<rparr>])"
    by code_simp
  show ?thesis using e claimed_code_was_authorized [OF e] by auto
qed

end
