(* ===== verification/Accounts.thy ===== *)
theory Accounts
  imports Resilience
begin

text \<open>
  Users and sessions (src/internal/db/users.go, sessions.go and their generated queries) and the
  authentication middleware (src/internal/auth/middleware.go). A session is stored under the
  SHA-256 of its token; \<open>sha\<close> is the hash function, an argument of the definitions. The two reads on
  the authentication path have a retry loop of their own, three attempts, because a single-row read
  is not retried by the layer of theory \<open>Resilience\<close>.
\<close>

section \<open>Users\<close>

record User =
  u_id :: string
  u_email :: string
  u_name :: string
  u_password_hash :: string
  u_github_id :: "string option"
  u_created_at :: int

record UserProfile =
  p_id :: string
  p_email :: string
  p_name :: string

definition user_clash :: "User \<Rightarrow> User \<Rightarrow> bool" where
  "user_clash x y \<longleftrightarrow> u_id x = u_id y \<or> u_email x = u_email y
     \<or> (u_github_id x \<noteq> None \<and> u_github_id x = u_github_id y)"

definition CreateUser ::
  "go_error option \<Rightarrow> int \<Rightarrow> string \<Rightarrow> string \<Rightarrow> string \<Rightarrow> string \<Rightarrow> string option \<Rightarrow> User list
     \<Rightarrow> go_error option \<times> User list" where
  "CreateUser fault now ident email name passwordHash githubID t =
     exec fault t (insert_row user_clash ''users''
       \<lparr>u_id = ident, u_email = email, u_name = name, u_password_hash = passwordHash,
        u_github_id = githubID, u_created_at = now\<rparr> t)"

definition GetUserProfileByID :: "go_error option \<Rightarrow> string \<Rightarrow> User list \<Rightarrow> UserProfile res" where
  "GetUserProfileByID fault ident t =
     (case query_one fault (\<lambda>r. u_id r = ident) t of
        Inl e \<Rightarrow> Inl e
      | Inr r \<Rightarrow> Inr \<lparr>p_id = u_id r, p_email = u_email r, p_name = u_name r\<rparr>)"

definition GetUserByEmail :: "go_error option \<Rightarrow> string \<Rightarrow> User list \<Rightarrow> User res" where
  "GetUserByEmail fault email t = query_one fault (\<lambda>r. u_email r = email) t"

definition GetUserByGitHubID :: "go_error option \<Rightarrow> string option \<Rightarrow> User list \<Rightarrow> User res" where
  "GetUserByGitHubID fault githubID t =
     query_one fault (\<lambda>r. githubID \<noteq> None \<and> u_github_id r = githubID) t"

definition CountUsers :: "go_error option \<Rightarrow> User list \<Rightarrow> int res" where
  "CountUsers fault t = (case fault of Some e \<Rightarrow> Inl e | None \<Rightarrow> Inr (int (length t)))"

definition SetUserGitHubID ::
  "go_error option \<Rightarrow> string option \<Rightarrow> string \<Rightarrow> User list \<Rightarrow> go_error option \<times> User list" where
  "SetUserGitHubID fault githubID ident t =
     exec fault t (update_checked user_clash ''users.github_id'' (\<lambda>r. u_id r = ident)
       (\<lambda>r. r\<lparr>u_github_id := githubID\<rparr>) t)"

definition UserStore_Create :: "go_error option \<Rightarrow> int \<Rightarrow> User \<Rightarrow> User list \<Rightarrow> go_error option \<times> User list" where
  "UserStore_Create fault now u t =
     CreateUser fault now (u_id u) (u_email u) (u_name u) (u_password_hash u) (u_github_id u) t"

fun profile_attempts :: "(nat \<Rightarrow> go_error option) \<Rightarrow> string \<Rightarrow> User list \<Rightarrow> nat \<Rightarrow> nat \<Rightarrow> UserProfile option res" where
  "profile_attempts fault ident t a 0 =
     Inl (ErrMsg ''get user profile by id: database locked after retries'')"
| "profile_attempts fault ident t a (Suc n) =
     (case GetUserProfileByID (fault a) ident t of
        Inr row \<Rightarrow> Inr (Some row)
      | Inl e \<Rightarrow>
          if is_no_rows e then Inr None
          else if \<not> isLockError (Some e) then Inl (ErrWrap ''get user profile by id'' e)
          else profile_attempts fault ident t (Suc a) n)"

definition GetProfileByID :: "(nat \<Rightarrow> go_error option) \<Rightarrow> string \<Rightarrow> User list \<Rightarrow> UserProfile option res" where
  "GetProfileByID fault ident t = profile_attempts fault ident t 0 3"

definition GetByEmail :: "go_error option \<Rightarrow> string \<Rightarrow> User list \<Rightarrow> User option res" where
  "GetByEmail fault email t = or_nil ''get user by email'' id (GetUserByEmail fault email t)"

definition UserStore_Count :: "go_error option \<Rightarrow> User list \<Rightarrow> int \<times> go_error option" where
  "UserStore_Count fault t = (case CountUsers fault t of Inl e \<Rightarrow> (0, Some e) | Inr n \<Rightarrow> (n, None))"

definition GetByGitHubID :: "go_error option \<Rightarrow> string \<Rightarrow> User list \<Rightarrow> User option res" where
  "GetByGitHubID fault githubID t =
     (if githubID = [] then Inr None
      else or_nil ''get user by github id'' id (GetUserByGitHubID fault (Some githubID) t))"

definition SetGitHubID :: "go_error option \<Rightarrow> string \<Rightarrow> string \<Rightarrow> User list \<Rightarrow> go_error option \<times> User list" where
  "SetGitHubID fault userID githubID t = SetUserGitHubID fault (Some githubID) userID t"

section \<open>Sessions\<close>

record Session =
  s_token :: string
  s_user_id :: string
  s_created_at :: int
  s_expires_at :: int

definition session_clash :: "Session \<Rightarrow> Session \<Rightarrow> bool" where
  "session_clash x y \<longleftrightarrow> s_token x = s_token y"

definition CreateSession ::
  "go_error option \<Rightarrow> int \<Rightarrow> string \<Rightarrow> string \<Rightarrow> int \<Rightarrow> Session list \<Rightarrow> go_error option \<times> Session list" where
  "CreateSession fault now token userID expiresAt t =
     exec fault t (insert_row session_clash ''sessions.token''
       \<lparr>s_token = token, s_user_id = userID, s_created_at = now, s_expires_at = expiresAt\<rparr> t)"

definition GetSessionUserID :: "go_error option \<Rightarrow> string \<Rightarrow> int \<Rightarrow> Session list \<Rightarrow> string res" where
  "GetSessionUserID fault token now t =
     (case query_one fault (\<lambda>r. s_token r = token \<and> s_expires_at r > now) t of
        Inl e \<Rightarrow> Inl e | Inr r \<Rightarrow> Inr (s_user_id r))"

definition DeleteSession :: "go_error option \<Rightarrow> string \<Rightarrow> Session list \<Rightarrow> go_error option \<times> Session list" where
  "DeleteSession fault token t = exec fault t (Inr (delete_where (\<lambda>r. s_token r = token) t))"

definition DeleteExpiredSessions :: "go_error option \<Rightarrow> int \<Rightarrow> Session list \<Rightarrow> go_error option \<times> Session list" where
  "DeleteExpiredSessions fault now t = exec fault t (Inr (delete_where (\<lambda>r. s_expires_at r < now) t))"

definition hashSessionToken :: "(string \<Rightarrow> string) \<Rightarrow> string \<Rightarrow> string" where
  "hashSessionToken sha token = EncodeToString (sha token)"

definition SessionStore_Create ::
  "(string \<Rightarrow> string) \<Rightarrow> go_error option \<Rightarrow> int \<Rightarrow> string \<Rightarrow> string \<Rightarrow> int \<Rightarrow> Session list
     \<Rightarrow> go_error option \<times> Session list" where
  "SessionStore_Create sha fault now token userID ttl t =
     CreateSession fault now (hashSessionToken sha token) userID (now + ttl) t"

text \<open>\<open>err\<close> is the error of the last attempt, which the loop returns when it runs out.\<close>

fun user_id_attempts ::
  "(nat \<Rightarrow> go_error option) \<Rightarrow> string \<Rightarrow> int \<Rightarrow> Session list \<Rightarrow> nat \<Rightarrow> nat \<Rightarrow> go_error option
     \<Rightarrow> string \<times> go_error option" where
  "user_id_attempts fault hash now t a 0 err = ([], err)"
| "user_id_attempts fault hash now t a (Suc n) err =
     (case GetSessionUserID (fault a) hash now t of
        Inr userID \<Rightarrow> (userID, None)
      | Inl e \<Rightarrow>
          if is_no_rows e then ([], None)
          else if \<not> isLockError (Some e) then ([], Some e)
          else user_id_attempts fault hash now t (Suc a) n (Some e))"

definition GetUserID ::
  "(string \<Rightarrow> string) \<Rightarrow> (nat \<Rightarrow> go_error option) \<Rightarrow> int \<Rightarrow> string \<Rightarrow> Session list \<Rightarrow> string \<times> go_error option" where
  "GetUserID sha fault now token t = user_id_attempts fault (hashSessionToken sha token) now t 0 3 None"

definition SessionStore_Delete ::
  "(string \<Rightarrow> string) \<Rightarrow> go_error option \<Rightarrow> string \<Rightarrow> Session list \<Rightarrow> go_error option \<times> Session list" where
  "SessionStore_Delete sha fault token t = DeleteSession fault (hashSessionToken sha token) t"

definition SessionStore_DeleteExpired :: "go_error option \<Rightarrow> int \<Rightarrow> Session list \<Rightarrow> go_error option \<times> Session list" where
  "SessionStore_DeleteExpired fault now t = DeleteExpiredSessions fault now t"

section \<open>The middleware\<close>

text \<open>The credentials of a request: its \<open>Authorization\<close> header (empty when absent) and its session cookie.\<close>

record credentials =
  authorization :: string
  session_cookie :: "string option"

definition extractToken :: "credentials \<Rightarrow> string" where
  "extractToken r =
     (if HasPrefix (authorization r) ''Bearer '' then TrimPrefix (authorization r) ''Bearer ''
      else case session_cookie r of Some c \<Rightarrow> c | None \<Rightarrow> [])"

text \<open>
  \<open>RequireAuth\<close> answers 401 (\<open>None\<close>) or hands the profile to the next handler. \<open>faultS\<close> and \<open>faultU\<close>
  are the failures of the attempts of the two reads.
\<close>

definition RequireAuth ::
  "(string \<Rightarrow> string) \<Rightarrow> (nat \<Rightarrow> go_error option) \<Rightarrow> (nat \<Rightarrow> go_error option) \<Rightarrow> int
     \<Rightarrow> Session list \<Rightarrow> User list \<Rightarrow> credentials \<Rightarrow> UserProfile option" where
  "RequireAuth sha faultS faultU now sessions users r =
     (let token = extractToken r in
      if token = [] then None
      else case GetUserID sha faultS now token sessions of (userID, err) \<Rightarrow>
        if err \<noteq> None \<or> userID = [] then None
        else case GetProfileByID faultU userID users of
          Inl e \<Rightarrow> None
        | Inr profile \<Rightarrow> profile)"

section \<open>Facts\<close>

interpretation usert: keyed_table user_clash u_id
  by unfold_locales (unfold user_clash_def, metis+)

interpretation sesst: keyed_table session_clash s_token
  by unfold_locales (auto simp: session_clash_def)

lemma user_id_attempts_sound:
  "user_id_attempts fault hash now t a n err0 = (uid, None) \<Longrightarrow> n \<noteq> 0 \<or> err0 \<noteq> None \<Longrightarrow>
     (uid \<noteq> [] \<longrightarrow> (\<exists>s \<in> set t. s_token s = hash \<and> s_expires_at s > now \<and> s_user_id s = uid))"
proof (induction n arbitrary: a err0)
  case (Suc n)
  show ?case
  proof (cases "GetSessionUserID (fault a) hash now t")
    case (Inl e)
    then show ?thesis using Suc by (auto split: if_splits)
  next
    case (Inr u)
    then show ?thesis using Suc.prems
      by (auto simp: GetSessionUserID_def dest!: query_one_Inr select_one_Inr split: sum.splits)
  qed
qed auto

lemma profile_attempts_sound:
  "profile_attempts fault ident t a n = Inr (Some p) \<Longrightarrow>
     p_id p = ident \<and> (\<exists>u \<in> set t. u_id u = ident \<and> u_email u = p_email p \<and> u_name u = p_name p)"
proof (induction n arbitrary: a)
  case (Suc n)
  show ?case
  proof (cases "GetUserProfileByID (fault a) ident t")
    case (Inl e)
    then show ?thesis using Suc by (auto split: if_splits)
  next
    case (Inr u)
    then show ?thesis using Suc.prems
      by (auto simp: GetUserProfileByID_def dest!: query_one_Inr select_one_Inr split: sum.splits)
  qed
qed auto

lemma GetUserID_sound:
  "GetUserID sha fault now token t = (uid, None) \<Longrightarrow> uid \<noteq> [] \<Longrightarrow>
     \<exists>s \<in> set t. s_token s = hashSessionToken sha token \<and> s_expires_at s > now \<and> s_user_id s = uid"
  using user_id_attempts_sound unfolding GetUserID_def by (metis numeral_eq_Suc old.nat.distinct(2))

text \<open>With a database that answers, the first attempt decides.\<close>

lemma GetUserID_no_fault:
  assumes "fault 0 = None"
  shows "GetUserID sha fault now token t =
    (case find (\<lambda>s. s_token s = hashSessionToken sha token \<and> s_expires_at s > now) t of
       None \<Rightarrow> ([], None) | Some s \<Rightarrow> (s_user_id s, None))"
  using assms
  by (simp add: GetUserID_def numeral_eq_Suc GetSessionUserID_def query_one_def select_one_def split: option.splits)

text \<open>
  Property C8. Only a live session authenticates. When the middleware lets a request through as
  user \<open>p\<close>, then, whatever the failures of the database, the request carried a token whose hash is
  the key of a stored session that has not expired and belongs to \<open>p\<close>, and \<open>p\<close> is a stored user.
\<close>

theorem RequireAuth_sound:
  assumes "RequireAuth sha faultS faultU now sessions users r = Some p"
  shows "\<exists>s \<in> set sessions. \<exists>u \<in> set users.
           extractToken r \<noteq> [] \<and> s_token s = hashSessionToken sha (extractToken r)
           \<and> s_expires_at s > now \<and> s_user_id s = u_id u \<and> u_id u = p_id p
           \<and> u_email u = p_email p \<and> u_name u = p_name p"
proof -
  obtain uid where tok: "extractToken r \<noteq> []" "uid \<noteq> []"
    and s: "GetUserID sha faultS now (extractToken r) sessions = (uid, None)"
    and u: "GetProfileByID faultU uid users = Inr (Some p)"
    using assms by (auto simp: RequireAuth_def Let_def split: if_splits prod.splits sum.splits)
  from GetUserID_sound [OF s tok(2)] profile_attempts_sound [OF u [unfolded GetProfileByID_def]] tok(1)
  show ?thesis by (metis (no_types, lifting))
qed

theorem RequireAuth_sound_witness:
  "\<exists>s \<in> set [\<lparr>s_token = ''7431'', s_user_id = ''u1'', s_created_at = 5, s_expires_at = 100\<rparr>].
   \<exists>u \<in> set [\<lparr>u_id = ''u1'', u_email = ''a@b.c'', u_name = ''A'', u_password_hash = ''h'',
                u_github_id = None, u_created_at = 1\<rparr>].
     s_token s = hashSessionToken (\<lambda>x. x) ''t1'' \<and> s_expires_at s > 50 \<and> s_user_id s = u_id u \<and> u_id u = ''u1''"
proof -
  have e: "RequireAuth (\<lambda>x. x) (\<lambda>a. if a = 0 then Some (ErrMsg ''database is locked'') else None) (\<lambda>_. None) 50
     [\<lparr>s_token = ''7431'', s_user_id = ''u1'', s_created_at = 5, s_expires_at = 100\<rparr>]
     [\<lparr>u_id = ''u1'', u_email = ''a@b.c'', u_name = ''A'', u_password_hash = ''h'',
       u_github_id = None, u_created_at = 1\<rparr>]
     \<lparr>authorization = ''Bearer t1'', session_cookie = None\<rparr> = Some \<lparr>p_id = ''u1'', p_email = ''a@b.c'', p_name = ''A''\<rparr>"
    by code_simp
  have t: "extractToken \<lparr>authorization = ''Bearer t1'', session_cookie = None\<rparr> = ''t1''"
    by (simp add: extractToken_def HasPrefix_def TrimPrefix_def)
  show ?thesis using RequireAuth_sound [OF e] unfolding t by fastforce
qed

text \<open>
  The life of a session. Once \<open>SessionStore.Create\<close> has succeeded at time \<open>t0\<close>, the token
  yields its user at every moment before \<open>t0 + ttl\<close> and nobody from that moment on; after
  \<open>SessionStore.Delete\<close> it yields nobody at all, at any time.
\<close>

theorem session_lifecycle:
  assumes "fault 0 = None"
    and create: "SessionStore_Create sha None t0 token uid ttl t = (None, t')"
  shows "GetUserID sha fault now token t' = (if now < t0 + ttl then uid else [], None)
       \<and> GetUserID sha fault now token (snd (SessionStore_Delete sha None token t')) = ([], None)"
proof -
  let ?h = "hashSessionToken sha token"
  let ?s = "\<lparr>s_token = ?h, s_user_id = uid, s_created_at = t0, s_expires_at = t0 + ttl\<rparr>"
  have ins: "insert_row session_clash ''sessions.token'' ?s t = Inr t'"
    using create by (auto simp: SessionStore_Create_def CreateSession_def exec_def split: sum.splits)
  have "find (\<lambda>s. s_token s = ?h \<and> s_expires_at s > now) t' = (if now < t0 + ttl then Some ?s else None)"
    using ins by (auto simp: insert_row_Inr session_clash_def find_append split: option.splits dest!: find_Some_conv)
  moreover have "find (\<lambda>s. s_token s = ?h \<and> s_expires_at s > now) (delete_where (\<lambda>r. s_token r = ?h) t') = None"
    by (simp add: find_None_conv)
  ultimately show ?thesis
    using GetUserID_no_fault [where fault = fault] assms(1)
    by (simp add: SessionStore_Delete_def DeleteSession_def)
qed

theorem session_lifecycle_witness:
  "GetUserID (\<lambda>x. x) (\<lambda>_. None) 30 ''t1'' (snd (SessionStore_Create (\<lambda>x. x) None 10 ''t1'' ''u1'' 100 [])) = (''u1'', None)
   \<and> GetUserID (\<lambda>x. x) (\<lambda>_. None) 110 ''t1'' (snd (SessionStore_Create (\<lambda>x. x) None 10 ''t1'' ''u1'' 100 [])) = ([], None)"
proof -
  have c: "SessionStore_Create (\<lambda>x. x) None 10 ''t1'' ''u1'' 100 [] =
             (None, snd (SessionStore_Create (\<lambda>x. x) None 10 ''t1'' ''u1'' 100 []))"
    by code_simp
  note L = session_lifecycle [where fault = "\<lambda>_. None", OF refl c]
  show ?thesis using L [of 30] L [of 110] by simp
qed

end
