(* ===== verification/Membership.thy ===== *)
theory Membership
  imports Accounts
begin

text \<open>
  Network membership and invite codes (src/internal/db/network_members.go, network_invites.go and
  their generated queries). An invite carries a role, an optional expiry and an optional number of
  uses; \<open>Claim\<close> consumes one use in a single \<open>UPDATE\<close>.
\<close>

section \<open>Members\<close>

record NetworkMember =
  m_id :: string
  m_network_id :: string
  m_user_id :: string
  m_role :: string
  m_created_at :: int

record NetworkMemberWithUser = NetworkMember +
  mu_email :: string
  mu_name :: string

definition member_clash :: "NetworkMember \<Rightarrow> NetworkMember \<Rightarrow> bool" where
  "member_clash x y \<longleftrightarrow> m_id x = m_id y \<or> (m_network_id x = m_network_id y \<and> m_user_id x = m_user_id y)"

definition InsertNetworkMember ::
  "go_error option \<Rightarrow> int \<Rightarrow> string \<Rightarrow> string \<Rightarrow> string \<Rightarrow> string \<Rightarrow> NetworkMember list
     \<Rightarrow> go_error option \<times> NetworkMember list" where
  "InsertNetworkMember fault now ident networkID userID role t =
     exec fault t (insert_row member_clash ''network_members''
       \<lparr>m_id = ident, m_network_id = networkID, m_user_id = userID, m_role = role, m_created_at = now\<rparr> t)"

definition GetNetworkMember :: "go_error option \<Rightarrow> string \<Rightarrow> string \<Rightarrow> NetworkMember list \<Rightarrow> NetworkMember res" where
  "GetNetworkMember fault networkID userID t =
     query_one fault (\<lambda>r. m_network_id r = networkID \<and> m_user_id r = userID) t"

definition ListMembersForNetwork ::
  "go_error option \<Rightarrow> string \<Rightarrow> User list \<Rightarrow> NetworkMember list \<Rightarrow> NetworkMemberWithUser list res" where
  "ListMembersForNetwork fault networkID users t =
     query_many fault
       (concat (map (\<lambda>m. map (\<lambda>u. \<lparr>m_id = m_id m, m_network_id = m_network_id m, m_user_id = m_user_id m,
                                    m_role = m_role m, m_created_at = m_created_at m,
                                    mu_email = u_email u, mu_name = u_name u\<rparr>)
                          (select_many (\<lambda>u. u_id u = m_user_id m) users))
               (order_by m_created_at (select_many (\<lambda>m. m_network_id m = networkID) t))))"

definition ListNetworkIDsForMember :: "go_error option \<Rightarrow> string \<Rightarrow> NetworkMember list \<Rightarrow> string list res" where
  "ListNetworkIDsForMember fault userID t =
     query_many fault (map m_network_id (select_many (\<lambda>r. m_user_id r = userID) t))"

definition DeleteNetworkMember :: "go_error option \<Rightarrow> string \<Rightarrow> NetworkMember list \<Rightarrow> go_error option \<times> NetworkMember list" where
  "DeleteNetworkMember fault ident t = exec fault t (Inr (delete_where (\<lambda>r. m_id r = ident) t))"

definition DeleteNetworkMemberByNetworkAndUser ::
  "go_error option \<Rightarrow> string \<Rightarrow> string \<Rightarrow> NetworkMember list \<Rightarrow> go_error option \<times> NetworkMember list" where
  "DeleteNetworkMemberByNetworkAndUser fault networkID userID t =
     exec fault t (Inr (delete_where (\<lambda>r. m_network_id r = networkID \<and> m_user_id r = userID) t))"

definition NetworkMemberStore_Add ::
  "go_error option \<Rightarrow> int \<Rightarrow> string \<Rightarrow> string \<Rightarrow> string \<Rightarrow> string \<Rightarrow> NetworkMember list
     \<Rightarrow> go_error option \<times> NetworkMember list" where
  "NetworkMemberStore_Add fault now ident networkID userID role t =
     InsertNetworkMember fault now ident networkID userID role t"

definition GetMembership :: "go_error option \<Rightarrow> string \<Rightarrow> string \<Rightarrow> NetworkMember list \<Rightarrow> NetworkMember res" where
  "GetMembership fault networkID userID t = GetNetworkMember fault networkID userID t"

definition NetworkMemberStore_ListForNetwork ::
  "go_error option \<Rightarrow> string \<Rightarrow> User list \<Rightarrow> NetworkMember list \<Rightarrow> NetworkMemberWithUser list res" where
  "NetworkMemberStore_ListForNetwork fault networkID users t = ListMembersForNetwork fault networkID users t"

definition ListNetworkIDsForUser :: "go_error option \<Rightarrow> string \<Rightarrow> NetworkMember list \<Rightarrow> string list res" where
  "ListNetworkIDsForUser fault userID t = ListNetworkIDsForMember fault userID t"

definition NetworkMemberStore_Remove ::
  "go_error option \<Rightarrow> string \<Rightarrow> NetworkMember list \<Rightarrow> go_error option \<times> NetworkMember list" where
  "NetworkMemberStore_Remove fault ident t = DeleteNetworkMember fault ident t"

definition RemoveByNetworkAndUser ::
  "go_error option \<Rightarrow> string \<Rightarrow> string \<Rightarrow> NetworkMember list \<Rightarrow> go_error option \<times> NetworkMember list" where
  "RemoveByNetworkAndUser fault networkID userID t = DeleteNetworkMemberByNetworkAndUser fault networkID userID t"

section \<open>Invites\<close>

record NetworkInvite =
  i_id :: string
  i_network_id :: string
  i_created_by :: string
  i_code :: string
  i_role :: string
  i_max_uses :: "int option"
  i_use_count :: int
  i_expires_at :: "int option"
  i_created_at :: int

type_synonym invites = "NetworkInvite list"

definition invite_clash :: "NetworkInvite \<Rightarrow> NetworkInvite \<Rightarrow> bool" where
  "invite_clash x y \<longleftrightarrow> i_id x = i_id y \<or> i_code x = i_code y"

definition InsertInvite ::
  "go_error option \<Rightarrow> int \<Rightarrow> string \<Rightarrow> string \<Rightarrow> string \<Rightarrow> string \<Rightarrow> string \<Rightarrow> int option \<Rightarrow> int option
     \<Rightarrow> invites \<Rightarrow> go_error option \<times> invites" where
  "InsertInvite fault now ident networkID createdBy code role maxUses expiresAt t =
     exec fault t (insert_row invite_clash ''network_invites''
       \<lparr>i_id = ident, i_network_id = networkID, i_created_by = createdBy, i_code = code, i_role = role,
        i_max_uses = maxUses, i_use_count = 0, i_expires_at = expiresAt, i_created_at = now\<rparr> t)"

definition GetInviteByCode :: "go_error option \<Rightarrow> string \<Rightarrow> invites \<Rightarrow> NetworkInvite res" where
  "GetInviteByCode fault code t = query_one fault (\<lambda>r. i_code r = code) t"

text \<open>The \<open>WHERE\<close> clause of the claim: the invite has not expired and has a use left.\<close>

definition claimable :: "string \<Rightarrow> int \<Rightarrow> NetworkInvite \<Rightarrow> bool" where
  "claimable code now r \<longleftrightarrow>
     i_code r = code
     \<and> (case i_expires_at r of None \<Rightarrow> True | Some x \<Rightarrow> x > now)
     \<and> (case i_max_uses r of None \<Rightarrow> True | Some m \<Rightarrow> i_use_count r < m)"

definition AtomicClaimInvite :: "go_error option \<Rightarrow> int \<Rightarrow> string \<Rightarrow> invites \<Rightarrow> nat res \<times> invites" where
  "AtomicClaimInvite fault now code t =
     execresult fault (claimable code now) (\<lambda>r. r\<lparr>i_use_count := i_use_count r + 1\<rparr>) t"

definition ListInvitesForNetwork :: "go_error option \<Rightarrow> string \<Rightarrow> invites \<Rightarrow> NetworkInvite list res" where
  "ListInvitesForNetwork fault networkID t =
     query_many fault (order_by (\<lambda>r. - i_created_at r) (select_many (\<lambda>r. i_network_id r = networkID) t))"

definition DeleteInvite :: "go_error option \<Rightarrow> string \<Rightarrow> invites \<Rightarrow> go_error option \<times> invites" where
  "DeleteInvite fault ident t = exec fault t (Inr (delete_where (\<lambda>r. i_id r = ident) t))"

definition DeleteExpiredInvites :: "go_error option \<Rightarrow> int \<Rightarrow> invites \<Rightarrow> go_error option \<times> invites" where
  "DeleteExpiredInvites fault now t =
     exec fault t (Inr (delete_where (\<lambda>r. case i_expires_at r of None \<Rightarrow> False | Some x \<Rightarrow> x < now) t))"

definition InviteStore_Create :: "go_error option \<Rightarrow> int \<Rightarrow> NetworkInvite \<Rightarrow> invites \<Rightarrow> go_error option \<times> invites" where
  "InviteStore_Create fault now invite t =
     InsertInvite fault now (i_id invite) (i_network_id invite) (i_created_by invite) (i_code invite)
       (i_role invite) (i_max_uses invite) (i_expires_at invite) t"

definition GetByCode :: "go_error option \<Rightarrow> string \<Rightarrow> invites \<Rightarrow> NetworkInvite res" where
  "GetByCode fault code t = GetInviteByCode fault code t"

text \<open>
  \<open>Claim\<close>: \<open>fault\<close> is indexed by the two database calls, \<open>now\<close> is the clock of the \<open>UPDATE\<close> and
  \<open>now'\<close> the later reading that only selects the message.
\<close>

definition InviteStore_Claim ::
  "(string \<Rightarrow> go_error option) \<Rightarrow> int \<Rightarrow> int \<Rightarrow> string \<Rightarrow> invites \<Rightarrow> NetworkInvite res \<times> invites" where
  "InviteStore_Claim fault now now' code t =
     (case AtomicClaimInvite (fault ''exec'') now code t of
        (Inl e, t') \<Rightarrow> (Inl (ErrWrap ''failed to claim invite'' e), t')
      | (Inr rows, t') \<Rightarrow>
          if rows = 0 then
            (case GetByCode (fault ''get'') code t' of
               Inl e \<Rightarrow> (Inl (ErrMsg ''invite not found''), t')
             | Inr invite \<Rightarrow>
                 if (case i_expires_at invite of None \<Rightarrow> False | Some x \<Rightarrow> x < now')
                 then (Inl (ErrMsg ''invite has expired''), t')
                 else if (case i_max_uses invite of None \<Rightarrow> False | Some m \<Rightarrow> i_use_count invite \<ge> m)
                 then (Inl (ErrMsg ''invite has reached its maximum uses''), t')
                 else (Inl (ErrMsg ''invite not found''), t'))
          else
            (case GetByCode (fault ''get'') code t' of
               Inl e \<Rightarrow> (Inl (ErrMsg ''invite not found''), t')
             | Inr invite \<Rightarrow> (Inr invite, t')))"

definition InviteStore_ListForNetwork :: "go_error option \<Rightarrow> string \<Rightarrow> invites \<Rightarrow> NetworkInvite list res" where
  "InviteStore_ListForNetwork fault networkID t = ListInvitesForNetwork fault networkID t"

definition InviteStore_Delete :: "go_error option \<Rightarrow> string \<Rightarrow> invites \<Rightarrow> go_error option \<times> invites" where
  "InviteStore_Delete fault ident t = DeleteInvite fault ident t"

definition InviteStore_DeleteExpired :: "go_error option \<Rightarrow> int \<Rightarrow> invites \<Rightarrow> go_error option \<times> invites" where
  "InviteStore_DeleteExpired fault now t = DeleteExpiredInvites fault now t"

section \<open>Members: facts\<close>

interpretation membert: keyed_table member_clash m_id
  by unfold_locales (auto simp: member_clash_def)

lemma GetMembership_Inr:
  "GetMembership fault networkID userID t = Inr m \<Longrightarrow>
     m \<in> set t \<and> m_network_id m = networkID \<and> m_user_id m = userID"
  by (auto simp: GetMembership_def GetNetworkMember_def dest!: query_one_Inr select_one_Inr)

section \<open>Invites: histories\<close>

datatype invite_op =
    IvCreate "go_error option" int NetworkInvite
  | IvClaim "string \<Rightarrow> go_error option" int int string
  | IvDelete "go_error option" string
  | IvSweep "go_error option" int

primrec invite_step :: "invite_op \<Rightarrow> invites \<Rightarrow> invites" where
  "invite_step (IvCreate fault now invite) t = snd (InviteStore_Create fault now invite t)"
| "invite_step (IvClaim fault now now' code) t = snd (InviteStore_Claim fault now now' code t)"
| "invite_step (IvDelete fault ident) t = snd (InviteStore_Delete fault ident t)"
| "invite_step (IvSweep fault now) t = snd (InviteStore_DeleteExpired fault now t)"

primrec invite_claimed :: "invite_op \<Rightarrow> invites \<Rightarrow> string \<Rightarrow> bool" where
  "invite_claimed (IvCreate fault now invite) t c = False"
| "invite_claimed (IvClaim fault now now' code) t c =
     (code = c \<and> (case fst (InviteStore_Claim fault now now' code t) of Inl e \<Rightarrow> False | Inr invite \<Rightarrow> True))"
| "invite_claimed (IvDelete fault ident) t c = False"
| "invite_claimed (IvSweep fault now) t c = False"

text \<open>The uses an invite with this limit allows from now on.\<close>

definition uses_left :: "int option \<Rightarrow> int \<Rightarrow> enat" where
  "uses_left maxUses used = (case maxUses of None \<Rightarrow> \<infinity> | Some m \<Rightarrow> enat (nat (m - used)))"

definition invite_credit :: "string \<Rightarrow> invites \<Rightarrow> enat" where
  "invite_credit c t =
     (case find (\<lambda>r. i_code r = c) t of None \<Rightarrow> 0 | Some r \<Rightarrow> uses_left (i_max_uses r) (i_use_count r))"

primrec invite_granted :: "invite_op \<Rightarrow> invites \<Rightarrow> string \<Rightarrow> enat" where
  "invite_granted (IvCreate fault now invite) t c =
     (if i_code invite = c \<and> fst (InviteStore_Create fault now invite t) = None
      then uses_left (i_max_uses invite) 0 else 0)"
| "invite_granted (IvClaim fault now now' code) t c = 0"
| "invite_granted (IvDelete fault ident) t c = 0"
| "invite_granted (IvSweep fault now) t c = 0"

interpretation invitet: keyed_table invite_clash i_id
  by unfold_locales (auto simp: invite_clash_def)

lemma Claim_table:
  "snd (InviteStore_Claim fault now now' code t) =
     (if fault ''exec'' = None
      then update_where (claimable code now) (\<lambda>r. r\<lparr>i_use_count := i_use_count r + 1\<rparr>) t else t)"
  by (auto simp: InviteStore_Claim_def AtomicClaimInvite_def execresult_def
      split: option.splits sum.splits if_splits)

lemma Claim_success:
  assumes "fst (InviteStore_Claim fault now now' code t) = Inr invite"
  shows "fault ''exec'' = None \<and> (\<exists>r \<in> set t. claimable code now r)
       \<and> invite \<in> set (snd (InviteStore_Claim fault now now' code t)) \<and> i_code invite = code"
  using assms
  by (auto simp: InviteStore_Claim_def AtomicClaimInvite_def execresult_def affected_0_iff GetByCode_def
      GetInviteByCode_def dest!: query_one_Inr select_one_Inr split: option.splits sum.splits if_splits)

lemma invite_delete_table:
  "snd (InviteStore_Delete fault ident t) =
     (if fault = None then delete_where (\<lambda>r. i_id r = ident) t else t)"
  "snd (InviteStore_DeleteExpired fault now t) =
     (if fault = None then delete_where (\<lambda>r. case i_expires_at r of None \<Rightarrow> False | Some x \<Rightarrow> x < now) t else t)"
  by (auto simp: InviteStore_Delete_def DeleteInvite_def InviteStore_DeleteExpired_def DeleteExpiredInvites_def)

lemma InviteStore_Create_cases:
  "InviteStore_Create fault now invite t = (err, t') \<Longrightarrow>
     (err = None \<and> t' = t @ [invite\<lparr>i_use_count := 0, i_created_at := now\<rparr>]
        \<and> (\<forall>x \<in> set t. \<not> invite_clash (invite\<lparr>i_use_count := 0, i_created_at := now\<rparr>) x))
     \<or> (err \<noteq> None \<and> t' = t)"
  by (cases invite)
    (auto simp: InviteStore_Create_def InsertInvite_def exec_def insert_row_Inr split: option.splits sum.splits)

lemma invite_step_clash_free:
  assumes "clash_free invite_clash t"
  shows "clash_free invite_clash (invite_step x t)"
proof (cases x)
  case (IvCreate fault now invite)
  obtain err t' where c: "InviteStore_Create fault now invite t = (err, t')" by fastforce
  show ?thesis
    using InviteStore_Create_cases [OF c] assms c IvCreate invitet.clash_free_insert [of t "''''"]
    by (auto simp: insert_row_Inr)
qed (use assms in \<open>auto simp: Claim_table invite_delete_table invite_clash_def split: if_splits
     intro!: invitet.clash_free_update invitet.clash_free_delete\<close>)

lemma invite_credit_delete:
  "clash_free invite_clash t \<Longrightarrow> invite_credit c (delete_where Q t) \<le> invite_credit c t"
  by (subst (1) invite_credit_def, subst invitet.find_delete)
    (auto simp: invite_credit_def invite_clash_def split: option.splits)

lemma claimable_uses: "claimable code now r \<Longrightarrow>
  uses_left (i_max_uses r) (i_use_count r + 1) + 1 = uses_left (i_max_uses r) (i_use_count r)"
  by (auto simp: claimable_def uses_left_def one_enat_def split: option.splits)

lemma invite_credit_claim:
  fixes code :: string and now :: int
  assumes "clash_free invite_clash t"
  defines "t' \<equiv> update_where (claimable code now) (\<lambda>r. r\<lparr>i_use_count := i_use_count r + 1\<rparr>) t"
  shows "\<exists>r \<in> set t. claimable code now r \<Longrightarrow> invite_credit code t' + 1 \<le> invite_credit code t"
    and "invite_credit c t' \<le> invite_credit c t"
proof -
  have f: "find (\<lambda>r. i_code r = c) t' =
     map_option (\<lambda>r. if claimable code now r then r\<lparr>i_use_count := i_use_count r + 1\<rparr> else r)
       (find (\<lambda>r. i_code r = c) t)" for c
    unfolding t'_def by (rule find_update) simp
  show "invite_credit c t' \<le> invite_credit c t"
    using claimable_uses [of code now] by (auto simp: invite_credit_def f split: option.splits) (metis le_iff_add)
  assume "\<exists>r \<in> set t. claimable code now r"
  then obtain r where r: "r \<in> set t" "claimable code now r" by blast
  then have "i_code r = code" by (simp add: claimable_def)
  moreover obtain q where q: "find (\<lambda>r. i_code r = code) t = Some q"
    using r \<open>i_code r = code\<close> by (metis (mono_tags, lifting) find_None_conv not_None_eq)
  ultimately have "q = r"
    using find_Some_conv [OF q] r(1) invitet.clash_free_pair [OF assms(1)] by (auto simp: invite_clash_def)
  then show "invite_credit code t' + 1 \<le> invite_credit code t"
    using q r(2) claimable_uses by (simp add: invite_credit_def f)
qed

interpretation ivm: metered invite_step "clash_free invite_clash" invite_claimed invite_granted invite_credit
proof
  fix t x c
  assume inv: "clash_free invite_clash t"
  show "clash_free invite_clash (invite_step x t)" by (rule invite_step_clash_free [OF inv])
  show "invite_credit c (invite_step x t) + 1 \<le> invite_credit c t" if "invite_claimed x t c"
  proof (cases x)
    case (IvClaim fault now now' code)
    then show ?thesis
      using that Claim_success [of fault now now' code t] invite_credit_claim(1) [OF inv, of code now]
      by (auto simp: Claim_table split: sum.splits)
  qed (use that in auto)
  show "invite_credit c (invite_step x t) \<le> invite_credit c t + invite_granted x t c"
    if "\<not> invite_claimed x t c"
  proof (cases x)
    case (IvCreate fault now invite)
    obtain err t' where cr: "InviteStore_Create fault now invite t = (err, t')" by fastforce
    show ?thesis
      using InviteStore_Create_cases [OF cr] cr IvCreate
      by (auto simp: invite_credit_def find_append invite_clash_def split: option.splits dest: find_Some_conv)
  next
    case (IvClaim fault now now' code)
    then show ?thesis using invite_credit_claim(2) [OF inv] by (simp add: Claim_table)
  qed (auto simp: invite_delete_table invite_credit_delete [OF inv])
qed

text \<open>
  Property C6. An invite is never used more often than its limit. In any history of the invite store
  (claims racing with each other, with deletions and with failing database calls), the number of
  successful claims of a code is at most the uses it had left at the start plus the limits of the
  invites created with this code along the way; without a limit there is no bound.
\<close>

theorem invite_uses_bounded:
  assumes "clash_free invite_clash t"
  shows "enat (tally invite_step (\<lambda>x t. if invite_claimed x t c then 1 else 0) ops t)
           \<le> invite_credit c t + tally invite_step (\<lambda>x t. invite_granted x t c) ops t"
  by (rule ivm.claims_bounded [OF assms])

definition two_use_invite :: NetworkInvite where
  "two_use_invite =
     \<lparr>i_id = ''i1'', i_network_id = ''n1'', i_created_by = ''u1'', i_code = ''abc'', i_role = ''member'',
      i_max_uses = Some 2, i_use_count = 0, i_expires_at = Some 50, i_created_at = 0\<rparr>"

theorem invite_uses_bounded_witness:
  "tally invite_step (\<lambda>x t. if invite_claimed x t ''abc'' then 1 else 0)
     (replicate 4 (IvClaim (\<lambda>_. None) 10 10 ''abc'')) [two_use_invite] = (2 :: nat)
   \<and> enat (tally invite_step (\<lambda>x t. if invite_claimed x t ''abc'' then 1 else 0)
           (replicate 4 (IvClaim (\<lambda>_. None) 10 10 ''abc'')) [two_use_invite])
       \<le> invite_credit ''abc'' [two_use_invite]
          + tally invite_step (\<lambda>x t. invite_granted x t ''abc'') (replicate 4 (IvClaim (\<lambda>_. None) 10 10 ''abc'')) [two_use_invite]"
proof
  have "clash_free invite_clash [two_use_invite]" by (simp add: clash_free_def)
  then show "enat (tally invite_step (\<lambda>x t. if invite_claimed x t ''abc'' then 1 else 0)
           (replicate 4 (IvClaim (\<lambda>_. None) 10 10 ''abc'')) [two_use_invite])
       \<le> invite_credit ''abc'' [two_use_invite]
          + tally invite_step (\<lambda>x t. invite_granted x t ''abc'') (replicate 4 (IvClaim (\<lambda>_. None) 10 10 ''abc'')) [two_use_invite]"
    by (rule invite_uses_bounded)
qed code_simp

end
