(* ===== verification/Crypto.thy ===== *)
theory Crypto
  imports GoText
begin

text \<open>
  Encryption of secrets at rest (src/internal/crypto/crypto.go). The AES-GCM primitive of
  \<open>crypto/cipher\<close> is the record \<open>gcm\<close>, an argument of the definitions: \<open>seal key nonce plaintext\<close> is
  the ciphertext with its tag and \<open>open_box key nonce ciphertext\<close> the plaintext, or \<open>None\<close> when the
  tag does not match. What the code relies on is \<open>gcm_correct\<close>: opening a sealed box under the same
  key and nonce gives the plaintext back.
\<close>

record gcm =
  seal :: "string \<Rightarrow> string \<Rightarrow> string \<Rightarrow> string"
  open_box :: "string \<Rightarrow> string \<Rightarrow> string \<Rightarrow> string option"

definition gcm_correct :: "gcm \<Rightarrow> bool" where
  "gcm_correct g \<longleftrightarrow> (\<forall>key nonce p. open_box g key nonce (seal g key nonce p) = Some p)"

definition NonceSize :: nat where
  "NonceSize = 12"

record Encryptor =
  enc_key :: string

section \<open>Hexadecimal decoding\<close>

definition hex_value :: "char \<Rightarrow> nat option" where
  "hex_value c =
     (let n = of_char c :: nat in
      if 48 \<le> n \<and> n \<le> 57 then Some (n - 48)
      else if 97 \<le> n \<and> n \<le> 102 then Some (n - 87)
      else if 65 \<le> n \<and> n \<le> 70 then Some (n - 55)
      else None)"

fun DecodeString :: "string \<Rightarrow> string option" where
  "DecodeString [] = Some []"
| "DecodeString [c] = None"
| "DecodeString (a # b # s) =
     (case (hex_value a, hex_value b, DecodeString s) of
        (Some x, Some y, Some r) \<Rightarrow> Some (char_of (16 * x + y) # r)
      | _ \<Rightarrow> None)"

section \<open>The encryptor\<close>

definition NewEncryptor :: "string \<Rightarrow> Encryptor res" where
  "NewEncryptor hexKey =
     (case DecodeString hexKey of
        None \<Rightarrow> Inl (ErrMsg ''HOPSSH_ENCRYPTION_KEY must be 64 hex characters (32 bytes)'')
      | Some key \<Rightarrow>
          if length key \<noteq> 32
          then Inl (ErrMsg ''HOPSSH_ENCRYPTION_KEY must be 64 hex characters (32 bytes)'')
          else Inr \<lparr>enc_key = key\<rparr>)"

text \<open>\<open>aes.NewCipher\<close> accepts keys of 16, 24 and 32 bytes.\<close>

definition cipher_error :: "Encryptor \<Rightarrow> go_error option" where
  "cipher_error e = (if length (enc_key e) \<in> {16, 24, 32} then None else Some (ErrMsg ''crypto/aes: invalid key size''))"

text \<open>\<open>nonce\<close> is what \<open>io.ReadFull(rand.Reader, nonce)\<close> produced for 12 bytes.\<close>

definition Encrypt :: "gcm \<Rightarrow> Encryptor \<Rightarrow> string res \<Rightarrow> string \<Rightarrow> string res" where
  "Encrypt g e nonce plaintext =
     (case cipher_error e of
        Some err \<Rightarrow> Inl err
      | None \<Rightarrow>
          (case nonce of Inl err \<Rightarrow> Inl err | Inr n \<Rightarrow> Inr (n @ seal g (enc_key e) n plaintext)))"

definition EncryptBytes :: "gcm \<Rightarrow> Encryptor \<Rightarrow> string res \<Rightarrow> string \<Rightarrow> string res" where
  "EncryptBytes g e nonce plaintext = Encrypt g e nonce plaintext"

definition Decrypt :: "gcm \<Rightarrow> Encryptor \<Rightarrow> string \<Rightarrow> string res" where
  "Decrypt g e data =
     (case cipher_error e of
        Some err \<Rightarrow> Inl err
      | None \<Rightarrow>
          if length data < NonceSize then Inl (ErrMsg ''ciphertext too short'')
          else case open_box g (enc_key e) (take NonceSize data) (drop NonceSize data) of
            None \<Rightarrow> Inl (ErrWrap ''decryption failed (wrong key?)'' (ErrMsg ''cipher: message authentication failed''))
          | Some plaintext \<Rightarrow> Inr plaintext)"

definition DecryptBytes :: "gcm \<Rightarrow> Encryptor \<Rightarrow> string \<Rightarrow> string res" where
  "DecryptBytes g e data = (case Decrypt g e data of Inl err \<Rightarrow> Inl err | Inr s \<Rightarrow> Inr s)"

definition GenerateKey :: "string res \<Rightarrow> string res" where
  "GenerateKey key = (case key of Inl err \<Rightarrow> Inl err | Inr k \<Rightarrow> Inr (EncodeToString k))"

section \<open>Round trips\<close>

lemma hex_value_digit: "n < 16 \<Longrightarrow> hex_value (hex_digit n) = Some n"
  by (auto simp: hex_value_def hex_digit_def Let_def)

lemma DecodeString_EncodeToString [simp]: "DecodeString (EncodeToString b) = Some b"
proof (induction b)
  case (Cons c b)
  have "(of_char c :: nat) < 256" by simp
  then have "of_char c div 16 < (16 :: nat)" by (simp add: less_mult_imp_div_less)
  moreover have "char_of (16 * (of_char c div 16) + of_char c mod 16 :: nat) = c"
    by (simp only: mult_div_mod_eq char_of_char)
  ultimately show ?case
    using Cons by (simp add: EncodeToString_def hex_byte_def hex_value_digit)
qed (simp add: EncodeToString_def)

lemma DecryptBytes_EncryptBytes:
  assumes "gcm_correct g" "length n = NonceSize" "EncryptBytes g e (Inr n) p = Inr ct"
  shows "DecryptBytes g e ct = Inr p" and "ct \<noteq> []"
  using assms
  by (auto simp: DecryptBytes_def Decrypt_def EncryptBytes_def Encrypt_def gcm_correct_def NonceSize_def
      split: option.splits)

text \<open>
  A secret written to the database can be read back. For any key that \<open>GenerateKey\<close>
  produced, \<open>NewEncryptor\<close> accepts it, and with it every plaintext that is encrypted under a fresh
  12-byte nonce decrypts to itself; the stored form is never empty, so the test for an absent
  key in the stores cannot confuse the two.
\<close>

theorem encryption_roundtrip:
  assumes "gcm_correct g" "length k = 32" "length n = NonceSize"
  shows "\<exists>hexKey e ct. GenerateKey (Inr k) = Inr hexKey \<and> NewEncryptor hexKey = Inr e
           \<and> EncryptBytes g e (Inr n) p = Inr ct \<and> ct \<noteq> [] \<and> DecryptBytes g e ct = Inr p"
proof -
  let ?e = "\<lparr>enc_key = k\<rparr>"
  have e: "NewEncryptor (EncodeToString k) = Inr ?e" using assms(2) by (simp add: NewEncryptor_def)
  have c: "EncryptBytes g ?e (Inr n) p = Inr (n @ seal g k n p)"
    using assms(2) by (simp add: EncryptBytes_def Encrypt_def cipher_error_def)
  show ?thesis
    using e c DecryptBytes_EncryptBytes [OF assms(1,3) c] by (auto simp: GenerateKey_def)
qed

text \<open>A cipher that leaves the plaintext as it is: enough to show that the assumptions can be met.\<close>

definition plain_gcm :: gcm where
  "plain_gcm = \<lparr>seal = (\<lambda>key n p. p), open_box = (\<lambda>key n c. Some c)\<rparr>"

theorem encryption_roundtrip_witness:
  "\<exists>hexKey e ct. GenerateKey (Inr (replicate 32 CHR ''k'')) = Inr hexKey \<and> NewEncryptor hexKey = Inr e
     \<and> EncryptBytes plain_gcm e (Inr ''abcdefghijkl'') ''secret'' = Inr ct \<and> ct \<noteq> []
     \<and> DecryptBytes plain_gcm e ct = Inr ''secret''"
proof (rule encryption_roundtrip)
  show "gcm_correct plain_gcm" by (simp add: gcm_correct_def plain_gcm_def)
qed (simp_all add: NonceSize_def)

end
