(* ===== verification/Networks.thy ===== *)
theory Networks
  imports Resilience Crypto Subnet
begin

text \<open>
  The network store (src/internal/db/networks.go and its generated queries): networks with their CA
  and server keys encrypted at rest, the allocation of \<open>/24\<close> subnets and of lighthouse ports.
  A row of the table (\<open>NetworkRow\<close>) holds the encrypted keys and nullable columns; \<open>Network\<close> is
  what the store hands out.
\<close>

record NetworkRow =
  nr_id :: string
  nr_user_id :: string
  nr_name :: string
  nr_slug :: string
  nr_ca_cert :: string
  nr_ca_key :: string
  nr_subnet :: "string option"
  nr_server_cert :: string
  nr_server_key :: string
  nr_port :: "int option"
  nr_dns_domain :: string
  nr_created_at :: int

type_synonym networks = "NetworkRow list"

record Network =
  n_id :: string
  n_user_id :: string
  n_name :: string
  n_slug :: string
  n_ca_cert :: string
  n_ca_key :: string
  n_subnet :: string
  n_server_cert :: string
  n_server_key :: string
  n_port :: "int option"
  n_dns_domain :: string
  n_created_at :: int

definition network_clash :: "NetworkRow \<Rightarrow> NetworkRow \<Rightarrow> bool" where
  "network_clash x y \<longleftrightarrow> nr_id x = nr_id y \<or> nr_slug x = nr_slug y
     \<or> (nr_subnet x \<noteq> None \<and> nr_subnet x = nr_subnet y) \<or> (nr_port x \<noteq> None \<and> nr_port x = nr_port y)"

section \<open>The generated queries\<close>

definition InsertNetwork :: "go_error option \<Rightarrow> int \<Rightarrow> NetworkRow \<Rightarrow> networks \<Rightarrow> go_error option \<times> networks" where
  "InsertNetwork fault now arg t =
     exec fault t (insert_row network_clash ''networks'' (arg\<lparr>nr_created_at := now\<rparr>) t)"

definition GetNetworkByID :: "go_error option \<Rightarrow> string \<Rightarrow> networks \<Rightarrow> NetworkRow res" where
  "GetNetworkByID fault ident t = query_one fault (\<lambda>r. nr_id r = ident) t"

definition ListNetworksForUser :: "go_error option \<Rightarrow> string \<Rightarrow> networks \<Rightarrow> NetworkRow list res" where
  "ListNetworksForUser fault userID t =
     query_many fault (order_by (\<lambda>r. - nr_created_at r) (select_many (\<lambda>r. nr_user_id r = userID) t))"

definition ListAllNetworks :: "go_error option \<Rightarrow> networks \<Rightarrow> NetworkRow list res" where
  "ListAllNetworks fault t = query_many fault t"

text \<open>The lighthouse ports in use, and SQL's \<open>MAX\<close>, which is \<open>NULL\<close> on no rows.\<close>

definition ports :: "networks \<Rightarrow> int list" where
  "ports t = List.map_filter nr_port t"

definition sql_max :: "int list \<Rightarrow> int option" where
  "sql_max xs = (if xs = [] then None else Some (Max (set xs)))"

definition MaxLighthousePort_query :: "go_error option \<Rightarrow> networks \<Rightarrow> int option res" where
  "MaxLighthousePort_query fault t = (case fault of Some e \<Rightarrow> Inl e | None \<Rightarrow> Inr (sql_max (ports t)))"

text \<open>The ports \<open>p\<close> whose successor is free, in ascending order; the first one decides.\<close>

definition FirstAvailableLighthousePort_query :: "go_error option \<Rightarrow> networks \<Rightarrow> int option res" where
  "FirstAvailableLighthousePort_query fault t =
     (case fault of Some e \<Rightarrow> Inl e
      | None \<Rightarrow>
          (case sort (filter (\<lambda>p. p + 1 \<notin> set (ports t)) (ports t)) of
             [] \<Rightarrow> Inr (Some 42001) | p # ps \<Rightarrow> Inr (Some (p + 1))))"

definition NetworkSlugExists :: "go_error option \<Rightarrow> string \<Rightarrow> networks \<Rightarrow> int res" where
  "NetworkSlugExists fault slug t =
     (case fault of Some e \<Rightarrow> Inl e | None \<Rightarrow> Inr (int (affected (\<lambda>r. nr_slug r = slug) t)))"

definition DeleteNetwork :: "go_error option \<Rightarrow> string \<Rightarrow> networks \<Rightarrow> go_error option \<times> networks" where
  "DeleteNetwork fault ident t = exec fault t (Inr (delete_where (\<lambda>r. nr_id r = ident) t))"

text \<open>
  The third octet as SQLite extracts it from the text: \<open>SUBSTR\<close> from position 7 up to the next dot
  (with no dot the length is negative and SQLite takes the one character before position 7), then
  \<open>CAST AS INTEGER\<close>, which reads the longest numeric prefix and is 0 without one.
\<close>

definition cast_integer :: "string \<Rightarrow> int" where
  "cast_integer s =
     (let u = dropWhile is_space s;
          neg = (u \<noteq> [] \<and> hd u = CHR ''-'');
          ds = takeWhile is_digit (if u \<noteq> [] \<and> (hd u = CHR ''-'' \<or> hd u = CHR ''+'') then tl u else u);
          v = int (dec_val ds)
      in if neg then max (- (2 ^ 63)) (- v) else min (2 ^ 63 - 1) v)"

definition third_octet :: "string \<Rightarrow> int" where
  "third_octet subnet =
     (let rest = drop 6 subnet in
      if CHR ''.'' \<in> set rest then cast_integer (before CHR ''.'' rest) else cast_integer (take 1 (drop 5 subnet)))"

definition MaxSubnetOctet :: "go_error option \<Rightarrow> networks \<Rightarrow> int option res" where
  "MaxSubnetOctet fault t =
     (case fault of Some e \<Rightarrow> Inl e
      | None \<Rightarrow> Inr (sql_max (map third_octet (List.map_filter nr_subnet t))))"

section \<open>The store\<close>

definition NetworkStore_Create ::
  "gcm \<Rightarrow> Encryptor \<Rightarrow> string res \<Rightarrow> string res \<Rightarrow> go_error option \<Rightarrow> int \<Rightarrow> Network \<Rightarrow> networks
     \<Rightarrow> go_error option \<times> networks" where
  "NetworkStore_Create g enc nonce1 nonce2 fault now n t =
     (case EncryptBytes g enc nonce1 (n_ca_key n) of
        Inl e \<Rightarrow> (Some (ErrWrap ''encrypt CA key'' e), t)
      | Inr encCAKey \<Rightarrow>
          (case EncryptBytes g enc nonce2 (n_server_key n) of
             Inl e \<Rightarrow> (Some (ErrWrap ''encrypt server key'' e), t)
           | Inr encServerKey \<Rightarrow>
               InsertNetwork fault now
                 \<lparr>nr_id = n_id n, nr_user_id = n_user_id n, nr_name = n_name n, nr_slug = n_slug n,
                  nr_ca_cert = n_ca_cert n, nr_ca_key = encCAKey, nr_subnet = Some (n_subnet n),
                  nr_server_cert = n_server_cert n, nr_server_key = encServerKey, nr_port = n_port n,
                  nr_dns_domain = n_dns_domain n, nr_created_at = 0\<rparr> t))"

text \<open>The two decryptions of a row, shared by \<open>Get\<close> and \<open>ListAll\<close>.\<close>

definition decrypt_key :: "gcm \<Rightarrow> Encryptor \<Rightarrow> string \<Rightarrow> string \<Rightarrow> string res" where
  "decrypt_key g enc msg data =
     (if 0 < length data
      then (case DecryptBytes g enc data of Inl e \<Rightarrow> Inl (ErrWrap msg e) | Inr k \<Rightarrow> Inr k)
      else Inr [])"

definition map_network_row :: "gcm \<Rightarrow> Encryptor \<Rightarrow> NetworkRow \<Rightarrow> Network res" where
  "map_network_row g enc row =
     (case decrypt_key g enc ''decrypt CA key'' (nr_ca_key row) of
        Inl e \<Rightarrow> Inl e
      | Inr caKey \<Rightarrow>
          (case decrypt_key g enc ''decrypt server key'' (nr_server_key row) of
             Inl e \<Rightarrow> Inl e
           | Inr serverKey \<Rightarrow>
               Inr \<lparr>n_id = nr_id row, n_user_id = nr_user_id row, n_name = nr_name row, n_slug = nr_slug row,
                    n_ca_cert = nr_ca_cert row, n_ca_key = caKey,
                    n_subnet = (case nr_subnet row of None \<Rightarrow> [] | Some s \<Rightarrow> s),
                    n_server_cert = nr_server_cert row, n_server_key = serverKey, n_port = nr_port row,
                    n_dns_domain = nr_dns_domain row, n_created_at = nr_created_at row\<rparr>))"

text \<open>\<open>Get\<close> reads a second time when the first read met a lock; \<open>fault\<close> is indexed by the read.\<close>

definition NetworkStore_Get ::
  "gcm \<Rightarrow> Encryptor \<Rightarrow> (nat \<Rightarrow> go_error option) \<Rightarrow> string \<Rightarrow> networks \<Rightarrow> Network option res" where
  "NetworkStore_Get g enc fault ident t =
     (let first = GetNetworkByID (fault 0) ident t;
          result = (case first of
                      Inl e \<Rightarrow> if isLockError (Some e) then GetNetworkByID (fault 1) ident t else first
                    | Inr r \<Rightarrow> first)
      in case result of
           Inl e \<Rightarrow> if is_no_rows e then Inr None else Inl (ErrWrap ''get network'' e)
         | Inr row \<Rightarrow> (case map_network_row g enc row of Inl e \<Rightarrow> Inl e | Inr n \<Rightarrow> Inr (Some n)))"

definition NetworkStore_ListForUser :: "go_error option \<Rightarrow> string \<Rightarrow> networks \<Rightarrow> Network list res" where
  "NetworkStore_ListForUser fault userID t =
     (case ListNetworksForUser fault userID t of
        Inl e \<Rightarrow> Inl e
      | Inr rows \<Rightarrow> Inr (map (\<lambda>r. \<lparr>n_id = nr_id r, n_user_id = nr_user_id r, n_name = nr_name r,
          n_slug = nr_slug r, n_ca_cert = [], n_ca_key = [],
          n_subnet = (case nr_subnet r of None \<Rightarrow> [] | Some s \<Rightarrow> s), n_server_cert = [], n_server_key = [],
          n_port = nr_port r, n_dns_domain = nr_dns_domain r, n_created_at = nr_created_at r\<rparr>) rows))"

fun map_network_rows :: "gcm \<Rightarrow> Encryptor \<Rightarrow> NetworkRow list \<Rightarrow> Network list res" where
  "map_network_rows g enc [] = Inr []"
| "map_network_rows g enc (r # rs) =
     (case map_network_row g enc r of
        Inl e \<Rightarrow> Inl e
      | Inr n \<Rightarrow> (case map_network_rows g enc rs of Inl e \<Rightarrow> Inl e | Inr ns \<Rightarrow> Inr (n # ns)))"

definition NetworkStore_ListAll :: "gcm \<Rightarrow> Encryptor \<Rightarrow> go_error option \<Rightarrow> networks \<Rightarrow> Network list res" where
  "NetworkStore_ListAll g enc fault t =
     (case ListAllNetworks fault t of Inl e \<Rightarrow> Inl e | Inr rows \<Rightarrow> map_network_rows g enc rows)"

definition MaxLighthousePort :: "go_error option \<Rightarrow> networks \<Rightarrow> int res" where
  "MaxLighthousePort fault t =
     (case MaxLighthousePort_query fault t of
        Inl e \<Rightarrow> Inl e | Inr None \<Rightarrow> Inr 0 | Inr (Some v) \<Rightarrow> Inr v)"

definition FirstAvailableLighthousePort :: "go_error option \<Rightarrow> networks \<Rightarrow> int res" where
  "FirstAvailableLighthousePort fault t =
     (case FirstAvailableLighthousePort_query fault t of
        Inl e \<Rightarrow> Inl e | Inr None \<Rightarrow> Inr 42001 | Inr (Some v) \<Rightarrow> Inr v)"

definition SlugExists :: "go_error option \<Rightarrow> string \<Rightarrow> networks \<Rightarrow> bool" where
  "SlugExists fault slug t = (case NetworkSlugExists fault slug t of Inl e \<Rightarrow> False | Inr n \<Rightarrow> n > 0)"

definition NetworkStore_Delete :: "go_error option \<Rightarrow> string \<Rightarrow> networks \<Rightarrow> go_error option \<times> networks" where
  "NetworkStore_Delete fault ident t = DeleteNetwork fault ident t"

definition subnet_text :: "int \<Rightarrow> string" where
  "subnet_text octet = ''10.42.'' @ (if octet < 0 then ''-'' @ itoa (nat (- octet)) else itoa (nat octet)) @ ''.0/24''"

definition AllocateSubnet :: "go_error option \<Rightarrow> networks \<Rightarrow> string res" where
  "AllocateSubnet fault t =
     (case MaxSubnetOctet fault t of
        Inl e \<Rightarrow> Inl (ErrWrap ''query max subnet'' e)
      | Inr result \<Rightarrow>
          let octet = (case result of None \<Rightarrow> 1 | Some v \<Rightarrow> v + 1) in
          if octet > 254 then Inl (ErrMsg ''subnet space exhausted'') else Inr (subnet_text octet))"

section \<open>Creating and reading a network\<close>

interpretation nett: keyed_table network_clash nr_id
  by unfold_locales (unfold network_clash_def, metis+)

lemma decrypt_key_roundtrip:
  assumes "gcm_correct g" "length n = NonceSize" "EncryptBytes g enc (Inr n) k = Inr ct"
  shows "decrypt_key g enc msg ct = Inr k"
  using DecryptBytes_EncryptBytes [OF assms] by (simp add: decrypt_key_def)

text \<open>
  What \<open>Create\<close> stores, \<open>Get\<close> returns: after a network was created, reading it by its id
  gives the same network with the same plaintext keys (and the row's creation time), also when the
  first read met a lock.
\<close>

theorem network_create_get:
  assumes "gcm_correct g" "length n1 = NonceSize" "length n2 = NonceSize" "clash_free network_clash t"
    and create: "NetworkStore_Create g enc (Inr n1) (Inr n2) fault now n t = (None, t')"
    and reads: "fault' 0 = None \<or> (isLockError (fault' 0) \<and> fault' 1 = None)"
  shows "NetworkStore_Get g enc fault' (n_id n) t' = Inr (Some (n\<lparr>n_created_at := now\<rparr>))"
proof -
  obtain ck sk where k: "EncryptBytes g enc (Inr n1) (n_ca_key n) = Inr ck"
      "EncryptBytes g enc (Inr n2) (n_server_key n) = Inr sk"
    using create by (auto simp: NetworkStore_Create_def split: sum.splits)
  let ?r = "\<lparr>nr_id = n_id n, nr_user_id = n_user_id n, nr_name = n_name n, nr_slug = n_slug n,
             nr_ca_cert = n_ca_cert n, nr_ca_key = ck, nr_subnet = Some (n_subnet n),
             nr_server_cert = n_server_cert n, nr_server_key = sk, nr_port = n_port n,
             nr_dns_domain = n_dns_domain n, nr_created_at = now\<rparr>"
  have "insert_row network_clash ''networks'' ?r t = Inr t'"
    using create k by (auto simp: NetworkStore_Create_def InsertNetwork_def exec_def split: option.splits sum.splits)
  from nett.select_after_insert [OF assms(4) this]
  have "GetNetworkByID None (n_id n) t' = Inr ?r" by (simp add: GetNetworkByID_def query_one_def)
  moreover have "GetNetworkByID (Some e) (n_id n) t' = Inl e" for e
    by (simp add: GetNetworkByID_def query_one_def)
  moreover have "map_network_row g enc ?r = Inr (n\<lparr>n_created_at := now\<rparr>)"
    using decrypt_key_roundtrip [OF assms(1,2) k(1)] decrypt_key_roundtrip [OF assms(1,3) k(2)]
    by (simp add: map_network_row_def)
  ultimately show ?thesis
    using reads by (cases "fault' 0") (auto simp: NetworkStore_Get_def Let_def isLockError_def)
qed

section \<open>Lighthouse ports\<close>

lemma first_port_None: "FirstAvailableLighthousePort None t =
  (case sort (filter (\<lambda>p. p + 1 \<notin> set (ports t)) (ports t)) of [] \<Rightarrow> Inr 42001 | p # ps \<Rightarrow> Inr (p + 1))"
  by (auto simp: FirstAvailableLighthousePort_def FirstAvailableLighthousePort_query_def split: list.splits)

lemma port_candidates: "ports t \<noteq> [] \<Longrightarrow> \<exists>p \<in> set (ports t). p + 1 \<notin> set (ports t)"
  by (rule bexI [of _ "Max (set (ports t))"])
    (auto dest: Max_ge [OF finite_set] intro: Max_in [OF finite_set])

text \<open>
  The lighthouse port is always free, and it is the first free port above the lowest
  port in use: every port between the lowest one and the answer is taken. So a gap is reused, except
  below the lowest port; with no network at all the answer is 42001.
\<close>

theorem lighthouse_port_free:
  assumes "FirstAvailableLighthousePort None t = Inr p"
  shows "p \<notin> set (ports t)
       \<and> (if ports t = [] then p = 42001
          else Min (set (ports t)) < p \<and> (\<forall>q. Min (set (ports t)) \<le> q \<and> q < p \<longrightarrow> q \<in> set (ports t)))"
proof (cases "ports t = []")
  case True
  then show ?thesis using assms by (simp add: first_port_None)
next
  case False
  let ?P = "set (ports t)" and ?C = "filter (\<lambda>p. p + 1 \<notin> set (ports t)) (ports t)"
  obtain c cs where c: "sort ?C = c # cs"
    using port_candidates [OF False] by (cases "sort ?C") (auto simp: filter_empty_conv dest: arg_cong [where f = set])
  then have p: "p = c + 1" using assms by (simp add: first_port_None)
  have cin: "c \<in> set ?C" using c by (metis list.set_intros(1) set_sort)
  have low: "c \<le> d" if "d \<in> set ?C" for d
    using that c by (metis set_ConsD set_sort sorted_simps(2) sorted_sort order_refl)
  let ?m = "Min ?P"
  have m: "?m \<in> ?P" "?m \<le> c" using False cin by auto
  have fill: "q \<in> ?P" if "?m \<le> q" "q \<le> c" for q
    using that(1) that(2)
  proof (induction q rule: int_ge_induct)
    case (step i)
    then have "i \<in> ?P" "i < c" by auto
    then show ?case using low [of i] by (auto simp: not_le)
  qed (use m in auto)
  have "\<forall>q. ?m \<le> q \<and> q < p \<longrightarrow> q \<in> ?P" using fill p by auto
  moreover have "p \<notin> ?P" using cin p by simp
  moreover have "?m < p" using m(2) p by simp
  ultimately show ?thesis using False by simp
qed

section \<open>Subnets\<close>

lemma third_octet_text: "third_octet (subnet_text (int n)) = int n" if "n < 256"
proof -
  have "drop 6 (subnet_text (int n)) = itoa n @ CHR ''.'' # ''0/24''" by (simp add: subnet_text_def)
  moreover have tw: "takeWhile is_digit (itoa n) = itoa n"
    using itoa_digits [of n] by (simp add: list_all_iff takeWhile_eq_all_conv)
  moreover have "dropWhile is_space (itoa n) = itoa n"
    using itoa_digits [of n] itoa_not_Nil [of n]
    by (cases "itoa n") (auto simp: is_space_def is_digit_def)
  ultimately show ?thesis
    using that itoa_hd [of n] by (simp add: third_octet_def cast_integer_def Let_def tw)
qed

text \<open>Every stored subnet is one that the store writes.\<close>

definition subnets_ok :: "networks \<Rightarrow> bool" where
  "subnets_ok t \<longleftrightarrow> (\<forall>r \<in> set t. \<forall>s. nr_subnet r = Some s \<longrightarrow> (\<exists>k \<in> {1..254}. s = subnet_text (int k)))"

lemma set_map_filter: "set (List.map_filter f xs) = {y. \<exists>x \<in> set xs. f x = Some y}"
  by (induction xs) (auto simp: List.map_filter_def)

lemma octet_mem:
  assumes "subnets_ok t"
  shows "v \<in> set (map third_octet (List.map_filter nr_subnet t)) \<longleftrightarrow>
    (\<exists>k \<in> {1..254}. v = int k \<and> (\<exists>r \<in> set t. nr_subnet r = Some (subnet_text (int k))))"
proof
  assume "v \<in> set (map third_octet (List.map_filter nr_subnet t))"
  then obtain r s where r: "r \<in> set t" "nr_subnet r = Some s" "v = third_octet s"
    by (auto simp: set_map_filter)
  then obtain k where k: "k \<in> {1..254}" "s = subnet_text (int k)" using assms unfolding subnets_ok_def by blast
  then have "v = int k" using r(3) third_octet_text [of k] by simp
  then show "\<exists>k \<in> {1..254}. v = int k \<and> (\<exists>r \<in> set t. nr_subnet r = Some (subnet_text (int k)))"
    using k r by blast
next
  assume "\<exists>k \<in> {1..254}. v = int k \<and> (\<exists>r \<in> set t. nr_subnet r = Some (subnet_text (int k)))"
  then obtain k r where k: "k \<in> {1..254}" "v = int k" "r \<in> set t" "nr_subnet r = Some (subnet_text (int k))"
    by blast
  then have "v = third_octet (subnet_text (int k))" using third_octet_text [of k] by simp
  then show "v \<in> set (map third_octet (List.map_filter nr_subnet t))"
    using k(3,4) by (auto simp: set_map_filter)
qed

lemma subnet_text_inject: "m < 256 \<Longrightarrow> n < 256 \<Longrightarrow> subnet_text (int m) = subnet_text (int n) \<longleftrightarrow> m = n"
  by (metis of_nat_eq_iff third_octet_text)

lemma subnet_text_prefix:
  assumes "n < 256"
  shows "ParsePrefix (subnet_text (int n)) = Inr \<lparr>Addr = (10, 42, of_nat n, 0), Bits = 24\<rparr>"
proof -
  let ?p = "\<lparr>Addr = (10, 42, of_nat n, 0), Bits = 24\<rparr>"
  have u: "unat (of_nat n :: 8 word) = n" using assms by (simp add: unsigned_of_nat take_bit_nat_eq_self)
  have d: "itoa 10 = ''10''" "itoa 42 = ''42''" "itoa 0 = ''0''" "itoa 24 = ''24''" by code_simp+
  have "prefix_string ?p = subnet_text (int n)"
    by (simp add: prefix_string_def addr_string_def octet_string_def subnet_text_def u d)
  moreover have "ParsePrefix (prefix_string ?p) = Inr ?p" by (rule ParsePrefix_print) simp
  ultimately show ?thesis by simp
qed

lemma AllocateSubnet_octet:
  "AllocateSubnet None t =
     (let os = map third_octet (List.map_filter nr_subnet t); k = (if os = [] then 1 else Max (set os) + 1) in
      if k > 254 then Inl (ErrMsg ''subnet space exhausted'') else Inr (subnet_text k))"
  by (simp add: AllocateSubnet_def MaxSubnetOctet_def sql_max_def Let_def)

lemma AllocateSubnet_sound:
  assumes "subnets_ok t"
  shows "case AllocateSubnet None t of
           Inr s \<Rightarrow> (\<exists>k \<in> {1..254::nat}. s = subnet_text (int k)
               \<and> ParsePrefix s = Inr \<lparr>Addr = (10, 42, of_nat k, 0), Bits = 24\<rparr>)
             \<and> (\<forall>r \<in> set t. nr_subnet r \<noteq> Some s)
             \<and> (\<forall>r. nr_subnet r = Some s \<longrightarrow> subnets_ok (t @ [r]))
         | Inl e \<Rightarrow> e = ErrMsg ''subnet space exhausted''
             \<and> (\<exists>r \<in> set t. nr_subnet r = Some (subnet_text 254))"
proof -
  define octs where "octs = map third_octet (List.map_filter nr_subnet t)"
  define k where "k = (if octs = [] then 1 else Max (set octs) + 1)"
  have result: "AllocateSubnet None t =
      (if k > 254 then Inl (ErrMsg ''subnet space exhausted'') else Inr (subnet_text k))"
    unfolding AllocateSubnet_octet k_def octs_def Let_def ..
  note os = octet_mem [OF assms, folded octs_def]
  have mem: "octs \<noteq> [] \<Longrightarrow> Max (set octs) \<in> set octs" by (rule Max_in) auto
  have "\<exists>j \<in> {1..254}. Max (set octs) = int j" if "octs \<noteq> []"
    using mem [OF that] os [of "Max (set octs)"] by blast
  then have "\<exists>j \<le> 254. k = int j + 1" unfolding k_def by (cases "octs = []") auto
  then have k1: "1 \<le> k" "k \<le> 255" by auto
  have above: "int j < k" if "j \<in> {1..254}" "r \<in> set t" "nr_subnet r = Some (subnet_text (int j))" for j r
  proof -
    have "int j \<in> set octs" using os [of "int j"] that by blast
    moreover from this have "octs \<noteq> []" by (metis empty_iff empty_set)
    moreover have "int j \<le> Max (set octs)" using calculation(1) by (simp add: Max_ge)
    ultimately show ?thesis by (simp add: k_def)
  qed
  show ?thesis
  proof (cases "k > 254")
    case True
    then have "k = 255" using k1 by simp
    then have "octs \<noteq> []" "Max (set octs) = 254" unfolding k_def by (auto split: if_splits)
    then have "254 \<in> set octs" using mem by metis
    then obtain r where "r \<in> set t" "nr_subnet r = Some (subnet_text 254)" using os [of 254] by auto
    then show ?thesis using True by (auto simp: result)
  next
    case False
    define j where "j = nat k"
    have j: "k = int j" "j \<in> {1..254}" using k1 False by (auto simp: j_def)
    have "nr_subnet r \<noteq> Some (subnet_text (int j))" if "r \<in> set t" for r
      using above [OF j(2) that] j(1) by auto
    moreover have "AllocateSubnet None t = Inr (subnet_text (int j))"
      using False j(1) by (simp add: result)
    moreover have "subnets_ok (t @ [r])" if "nr_subnet r = Some (subnet_text (int j))" for r
      using assms that j(2) by (auto simp: subnets_ok_def)
    ultimately show ?thesis using j(2) subnet_text_prefix [of j] by auto
  qed
qed

text \<open>
  Property C11. Subnet allocation. When the allocator answers with a subnet, it is one of
  \<open>10.42.1.0/24\<close> to \<open>10.42.254.0/24\<close>, no stored network has it, it parses, and the table with it is
  again one on which the allocator is correct. It refuses exactly when the subnet with octet 254 is
  taken, whatever is free below.
\<close>

theorem AllocateSubnet_fresh:
  assumes "subnets_ok t"
  shows "case AllocateSubnet None t of
           Inr s \<Rightarrow> (\<exists>k \<in> {1..254::nat}. s = subnet_text (int k)
               \<and> ParsePrefix s = Inr \<lparr>Addr = (10, 42, of_nat k, 0), Bits = 24\<rparr>)
             \<and> (\<forall>r \<in> set t. nr_subnet r \<noteq> Some s)
             \<and> (\<forall>r. nr_subnet r = Some s \<longrightarrow> subnets_ok (t @ [r]))
         | Inl e \<Rightarrow> e = ErrMsg ''subnet space exhausted''
             \<and> (\<exists>r \<in> set t. nr_subnet r = Some (subnet_text 254))"
  using assms by (rule AllocateSubnet_sound)

text \<open>One network with port 42001 and subnet \<open>10.42.1.0/24\<close>, created in an empty table.\<close>

definition sample_network :: Network where
  "sample_network =
     \<lparr>n_id = ''n1'', n_user_id = ''u1'', n_name = ''Home'', n_slug = ''home'', n_ca_cert = ''CA'',
      n_ca_key = ''cakey'', n_subnet = ''10.42.1.0/24'', n_server_cert = ''SC'', n_server_key = ''skey'',
      n_port = Some 42001, n_dns_domain = ''hop'', n_created_at = 0\<rparr>"

definition sample_networks :: networks where
  "sample_networks =
     snd (NetworkStore_Create plain_gcm \<lparr>enc_key = replicate 32 CHR ''k''\<rparr> (Inr ''abcdefghijkl'')
            (Inr ''abcdefghijkl'') None 7 sample_network [])"

theorem network_create_get_witness:
  "NetworkStore_Get plain_gcm \<lparr>enc_key = replicate 32 CHR ''k''\<rparr>
     (\<lambda>i. if i = 0 then Some (ErrMsg ''database is locked'') else None) ''n1'' sample_networks
   = Inr (Some (sample_network\<lparr>n_created_at := 7\<rparr>))"
proof -
  have g: "gcm_correct plain_gcm" by (simp add: gcm_correct_def plain_gcm_def)
  have c: "NetworkStore_Create plain_gcm \<lparr>enc_key = replicate 32 CHR ''k''\<rparr> (Inr ''abcdefghijkl'')
            (Inr ''abcdefghijkl'') None 7 sample_network [] = (None, sample_networks)"
    by code_simp
  have l: "isLockError (Some (ErrMsg ''database is locked''))" by code_simp
  have i: "n_id sample_network = ''n1''" by (simp add: sample_network_def)
  show ?thesis
    by (rule network_create_get [OF g _ _ nett.clash_free_Nil c, unfolded i]) (simp_all add: NonceSize_def l)
qed

theorem lighthouse_port_free_witness:
  "FirstAvailableLighthousePort None sample_networks = Inr 42002 \<and> 42002 \<notin> set (ports sample_networks)"
proof -
  have e: "FirstAvailableLighthousePort None sample_networks = Inr 42002" by code_simp
  show ?thesis using e lighthouse_port_free [OF e] by blast
qed

theorem AllocateSubnet_fresh_witness:
  "AllocateSubnet None sample_networks = Inr ''10.42.2.0/24''
   \<and> Some ''10.42.2.0/24'' \<notin> nr_subnet ` set sample_networks"
proof -
  have e: "AllocateSubnet None sample_networks = Inr ''10.42.2.0/24''" by code_simp
  have s: "map nr_subnet sample_networks = [Some ''10.42.1.0/24'']" by code_simp
  have one: "''10.42.1.0/24'' = subnet_text (int 1)" by code_simp
  have "subnets_ok sample_networks"
    unfolding subnets_ok_def
  proof (intro ballI allI impI)
    fix r u assume "r \<in> set sample_networks" "nr_subnet r = Some u"
    then have "Some u \<in> set (map nr_subnet sample_networks)" by (metis imageI list.set_map)
    then have "u = ''10.42.1.0/24''" unfolding s by simp
    then show "\<exists>k \<in> {1..254}. u = subnet_text (int k)" using one by (intro bexI [of _ 1]) auto
  qed
  from AllocateSubnet_fresh [OF this] show ?thesis using e by auto
qed

end
