(* ===== verification/Nodes.thy ===== *)
theory Nodes
  imports Networks
begin

text \<open>
  The node store (src/internal/db/nodes.go and its generated queries): rows of enrolled machines,
  their one-time enrollment tokens, and the allocation of overlay addresses. The heartbeat side of
  the same store is in theory \<open>Heartbeats\<close>. \<open>NodeRow\<close> is a row of the table, \<open>Node\<close> what the store
  hands out; a token is stored as its SHA-256 (\<open>sha\<close>), the agent token and the node key are encrypted.
\<close>

record NodeRow =
  d_id :: string
  d_network_id :: string
  d_hostname :: string
  d_os :: string
  d_arch :: string
  d_cert :: string
  d_key :: string
  d_ip :: "string option"
  d_agent_token :: string
  d_enroll_token :: "string option"
  d_enroll_expires :: "int option"
  d_real_ip :: "string option"
  d_type :: string
  d_exposed_ports :: "string option"
  d_dns_name :: "string option"
  d_capabilities :: string
  d_status :: string
  d_last_seen :: "int option"
  d_created_at :: int
  d_peers_direct :: "int option"
  d_peers_relayed :: "int option"
  d_peers_reported_at :: "int option"
  d_peer_state :: "string option"
  d_agent_version :: "string option"
  d_client_type :: "string option"
  d_routes :: "string option"

type_synonym nodes = "NodeRow list"

record Node =
  nd_id :: string
  nd_network_id :: string
  nd_hostname :: string
  nd_os :: string
  nd_arch :: string
  nd_cert :: string
  nd_key :: string
  nd_ip :: string
  nd_agent_token :: string
  nd_enroll_token :: "string option"
  nd_enroll_expires :: "int option"
  nd_real_ip :: "string option"
  nd_type :: string
  nd_exposed_ports :: "string option"
  nd_dns_name :: "string option"
  nd_capabilities :: string
  nd_status :: string
  nd_last_seen :: "int option"
  nd_created_at :: int
  nd_peers_direct :: "int option"
  nd_peers_relayed :: "int option"
  nd_peers_reported_at :: "int option"
  nd_peer_state :: "string option"
  nd_agent_version :: "string option"
  nd_client_type :: "string option"

text \<open>The zero value of Go's \<open>Node\<close> struct.\<close>

definition zero_node :: Node where
  "zero_node =
     \<lparr>nd_id = [], nd_network_id = [], nd_hostname = [], nd_os = [], nd_arch = [], nd_cert = [], nd_key = [],
      nd_ip = [], nd_agent_token = [], nd_enroll_token = None, nd_enroll_expires = None, nd_real_ip = None,
      nd_type = [], nd_exposed_ports = None, nd_dns_name = None, nd_capabilities = [], nd_status = [],
      nd_last_seen = None, nd_created_at = 0, nd_peers_direct = None, nd_peers_relayed = None,
      nd_peers_reported_at = None, nd_peer_state = None, nd_agent_version = None, nd_client_type = None\<rparr>"

definition node_clash :: "NodeRow \<Rightarrow> NodeRow \<Rightarrow> bool" where
  "node_clash x y \<longleftrightarrow> d_id x = d_id y
     \<or> (d_enroll_token x \<noteq> None \<and> d_enroll_token x = d_enroll_token y)
     \<or> (d_ip x \<noteq> None \<and> d_network_id x = d_network_id y \<and> d_ip x = d_ip y)"

section \<open>The generated queries\<close>

definition InsertNode ::
  "go_error option \<Rightarrow> int \<Rightarrow> string \<Rightarrow> string \<Rightarrow> string \<Rightarrow> string \<Rightarrow> string \<Rightarrow> string \<Rightarrow> string \<Rightarrow> string option \<Rightarrow> string
     \<Rightarrow> string option \<Rightarrow> int option \<Rightarrow> string \<Rightarrow> string option \<Rightarrow> string \<Rightarrow> nodes \<Rightarrow> go_error option \<times> nodes" where
  "InsertNode fault now ident networkID hostname os arch cert key ip agentToken enrollToken enrollExpires
     nodeType dnsName status t =
     exec fault t (insert_row node_clash ''nodes''
       \<lparr>d_id = ident, d_network_id = networkID, d_hostname = hostname, d_os = os, d_arch = arch, d_cert = cert,
        d_key = key, d_ip = ip, d_agent_token = agentToken, d_enroll_token = enrollToken,
        d_enroll_expires = enrollExpires, d_real_ip = None, d_type = nodeType, d_exposed_ports = None,
        d_dns_name = dnsName,
        d_capabilities = ''['' @ [CHR 0x22] @ ''terminal'' @ [CHR 0x22] @ '','' @ [CHR 0x22] @ ''health'' @ [CHR 0x22]
          @ '','' @ [CHR 0x22] @ ''forward'' @ [CHR 0x22] @ '']'',
        d_status = status, d_last_seen = None, d_created_at = now, d_peers_direct = None,
        d_peers_relayed = None, d_peers_reported_at = None, d_peer_state = None, d_agent_version = None,
        d_client_type = None, d_routes = None\<rparr> t)"

definition GetNodeByID :: "go_error option \<Rightarrow> string \<Rightarrow> nodes \<Rightarrow> NodeRow res" where
  "GetNodeByID fault ident t = query_one fault (\<lambda>r. d_id r = ident) t"

definition GetNodeByEnrollmentToken :: "go_error option \<Rightarrow> string \<Rightarrow> int \<Rightarrow> nodes \<Rightarrow> NodeRow res" where
  "GetNodeByEnrollmentToken fault h now t =
     query_one fault (\<lambda>r. d_enroll_token r = Some h
       \<and> (case d_enroll_expires r of None \<Rightarrow> True | Some x \<Rightarrow> x > now)) t"

definition ConsumeEnrollmentToken :: "go_error option \<Rightarrow> string \<Rightarrow> string \<Rightarrow> nodes \<Rightarrow> nat res \<times> nodes" where
  "ConsumeEnrollmentToken fault ident h t =
     execresult fault (\<lambda>r. d_id r = ident \<and> d_enroll_token r = Some h)
       (\<lambda>r. r\<lparr>d_enroll_token := None, d_enroll_expires := None\<rparr>) t"

definition CompleteEnrollment_query ::
  "go_error option \<Rightarrow> string \<Rightarrow> string \<Rightarrow> string \<Rightarrow> string \<Rightarrow> string \<Rightarrow> string \<Rightarrow> nodes \<Rightarrow> go_error option \<times> nodes" where
  "CompleteEnrollment_query fault cert key hostname os arch ident t =
     exec fault t (Inr (update_where (\<lambda>r. d_id r = ident)
       (\<lambda>r. r\<lparr>d_cert := cert, d_key := key, d_hostname := hostname, d_os := os, d_arch := arch,
             d_status := ''enrolled''\<rparr>) t))"

definition UpdateNodeCert :: "go_error option \<Rightarrow> string \<Rightarrow> string \<Rightarrow> string \<Rightarrow> nodes \<Rightarrow> go_error option \<times> nodes" where
  "UpdateNodeCert fault cert key ident t =
     exec fault t (Inr (update_where (\<lambda>r. d_id r = ident) (\<lambda>r. r\<lparr>d_cert := cert, d_key := key\<rparr>) t))"

definition UpdateNodeStatus :: "go_error option \<Rightarrow> string \<Rightarrow> string \<Rightarrow> nodes \<Rightarrow> go_error option \<times> nodes" where
  "UpdateNodeStatus fault status ident t =
     exec fault t (Inr (update_where (\<lambda>r. d_id r = ident) (\<lambda>r. r\<lparr>d_status := status\<rparr>) t))"

definition UpdateNodeLastSeen :: "go_error option \<Rightarrow> int \<Rightarrow> string \<Rightarrow> nodes \<Rightarrow> go_error option \<times> nodes" where
  "UpdateNodeLastSeen fault now ident t =
     exec fault t (Inr (update_where (\<lambda>r. d_id r = ident)
       (\<lambda>r. r\<lparr>d_last_seen := Some now, d_status := ''online''\<rparr>) t))"

definition UpdateNodeAgentRealIP :: "go_error option \<Rightarrow> string option \<Rightarrow> string \<Rightarrow> nodes \<Rightarrow> go_error option \<times> nodes" where
  "UpdateNodeAgentRealIP fault ip ident t =
     exec fault t (Inr (update_where (\<lambda>r. d_id r = ident) (\<lambda>r. r\<lparr>d_real_ip := ip\<rparr>) t))"

definition UpdateNodeDNSName :: "go_error option \<Rightarrow> string option \<Rightarrow> string \<Rightarrow> nodes \<Rightarrow> go_error option \<times> nodes" where
  "UpdateNodeDNSName fault dnsName ident t =
     exec fault t (Inr (update_where (\<lambda>r. d_id r = ident) (\<lambda>r. r\<lparr>d_dns_name := dnsName\<rparr>) t))"

definition RenameNode :: "go_error option \<Rightarrow> string option \<Rightarrow> string \<Rightarrow> string \<Rightarrow> nodes \<Rightarrow> go_error option \<times> nodes" where
  "RenameNode fault dnsName hostname ident t =
     exec fault t (Inr (update_where (\<lambda>r. d_id r = ident) (\<lambda>r. r\<lparr>d_dns_name := dnsName, d_hostname := hostname\<rparr>) t))"

definition ListNodesForNetwork :: "go_error option \<Rightarrow> string \<Rightarrow> nodes \<Rightarrow> NodeRow list res" where
  "ListNodesForNetwork fault networkID t =
     query_many fault (order_by d_created_at (select_many (\<lambda>r. d_network_id r = networkID) t))"

definition ListNodeIPsForNetwork :: "go_error option \<Rightarrow> string \<Rightarrow> nodes \<Rightarrow> string option list res" where
  "ListNodeIPsForNetwork fault networkID t =
     (case fault of Some e \<Rightarrow> Inl e
      | None \<Rightarrow> Inr (map d_ip (select_many (\<lambda>r. d_network_id r = networkID \<and> d_ip r \<noteq> None) t)))"

definition CountNodesForNetwork :: "go_error option \<Rightarrow> string \<Rightarrow> nodes \<Rightarrow> int res" where
  "CountNodesForNetwork fault networkID t =
     (case fault of Some e \<Rightarrow> Inl e | None \<Rightarrow> Inr (int (affected (\<lambda>r. d_network_id r = networkID) t)))"

definition CountNonPendingNodesForNetwork :: "go_error option \<Rightarrow> string \<Rightarrow> nodes \<Rightarrow> int res" where
  "CountNonPendingNodesForNetwork fault networkID t =
     (case fault of Some e \<Rightarrow> Inl e
      | None \<Rightarrow> Inr (int (affected (\<lambda>r. d_network_id r = networkID \<and> d_status r \<noteq> ''pending'') t)))"

definition MaxLastSeenForNetwork_query :: "go_error option \<Rightarrow> string \<Rightarrow> nodes \<Rightarrow> int option res" where
  "MaxLastSeenForNetwork_query fault networkID t =
     (case fault of Some e \<Rightarrow> Inl e
      | None \<Rightarrow> Inr (sql_max (List.map_filter d_last_seen
                  (select_many (\<lambda>r. d_network_id r = networkID \<and> d_status r \<noteq> ''pending'') t))))"

definition DeleteNode :: "go_error option \<Rightarrow> string \<Rightarrow> nodes \<Rightarrow> go_error option \<times> nodes" where
  "DeleteNode fault ident t = exec fault t (Inr (delete_where (\<lambda>r. d_id r = ident) t))"

definition DeleteNodesForNetwork :: "go_error option \<Rightarrow> string \<Rightarrow> nodes \<Rightarrow> go_error option \<times> nodes" where
  "DeleteNodesForNetwork fault networkID t = exec fault t (Inr (delete_where (\<lambda>r. d_network_id r = networkID) t))"

section \<open>The store\<close>

definition hashToken :: "(string \<Rightarrow> string) \<Rightarrow> string \<Rightarrow> string" where
  "hashToken sha token = EncodeToString (sha token)"

definition NodeStore_Create ::
  "(string \<Rightarrow> string) \<Rightarrow> gcm \<Rightarrow> Encryptor \<Rightarrow> string res \<Rightarrow> string res \<Rightarrow> go_error option \<Rightarrow> int \<Rightarrow> Node \<Rightarrow> nodes
     \<Rightarrow> go_error option \<times> nodes" where
  "NodeStore_Create sha g enc nonce1 nonce2 fault now n t =
     (case (if 0 < length (nd_key n) then EncryptBytes g enc nonce1 (nd_key n) else Inr []) of
        Inl e \<Rightarrow> (Some (ErrWrap ''encrypt node key'' e), t)
      | Inr encKey \<Rightarrow>
          (case Encrypt g enc nonce2 (nd_agent_token n) of
             Inl e \<Rightarrow> (Some (ErrWrap ''encrypt agent token'' e), t)
           | Inr encToken \<Rightarrow>
               InsertNode fault now (nd_id n) (nd_network_id n) (nd_hostname n) (nd_os n) (nd_arch n)
                 (nd_cert n) encKey (if nd_ip n = [] then None else Some (nd_ip n)) encToken
                 (map_option (hashToken sha) (nd_enroll_token n)) (nd_enroll_expires n)
                 (if nd_type n = [] then ''agent'' else nd_type n) (nd_dns_name n) (nd_status n) t))"

definition mapNodeRow :: "gcm \<Rightarrow> Encryptor \<Rightarrow> NodeRow \<Rightarrow> Node res" where
  "mapNodeRow g enc row =
     (case decrypt_key g enc ''decrypt node key'' (d_key row) of
        Inl e \<Rightarrow> Inl e
      | Inr key \<Rightarrow>
          (case (if d_agent_token row \<noteq> []
                 then (case Decrypt g enc (d_agent_token row) of
                         Inl e \<Rightarrow> Inl (ErrWrap ''decrypt agent token'' e) | Inr tok \<Rightarrow> Inr tok)
                 else Inr []) of
             Inl e \<Rightarrow> Inl e
           | Inr tok \<Rightarrow>
               Inr (zero_node\<lparr>nd_id := d_id row, nd_network_id := d_network_id row, nd_hostname := d_hostname row,
                 nd_os := d_os row, nd_arch := d_arch row, nd_cert := d_cert row, nd_key := key,
                 nd_ip := (case d_ip row of None \<Rightarrow> [] | Some ip \<Rightarrow> ip), nd_agent_token := tok,
                 nd_enroll_token := d_enroll_token row, nd_real_ip := d_real_ip row, nd_type := d_type row,
                 nd_exposed_ports := d_exposed_ports row, nd_dns_name := d_dns_name row,
                 nd_capabilities := d_capabilities row, nd_status := d_status row,
                 nd_last_seen := d_last_seen row, nd_created_at := d_created_at row,
                 nd_agent_version := d_agent_version row\<rparr>)))"

definition NodeStore_Get ::
  "gcm \<Rightarrow> Encryptor \<Rightarrow> (nat \<Rightarrow> go_error option) \<Rightarrow> string \<Rightarrow> nodes \<Rightarrow> Node option res" where
  "NodeStore_Get g enc fault ident t =
     (let first = GetNodeByID (fault 0) ident t;
          result = (case first of
                      Inl e \<Rightarrow> if isLockError (Some e) then GetNodeByID (fault 1) ident t else first
                    | Inr r \<Rightarrow> first)
      in case result of
           Inl e \<Rightarrow> if is_no_rows e then Inr None else Inl (ErrWrap ''get node'' e)
         | Inr row \<Rightarrow> (case mapNodeRow g enc row of Inl e \<Rightarrow> Inl e | Inr n \<Rightarrow> Inr (Some n)))"

text \<open>
  The claim of an enrollment token, one transaction on the single write connection. The agent token
  is decrypted after the commit: when that fails the token is spent and the caller gets an error.
\<close>

definition ClaimEnrollmentToken ::
  "(string \<Rightarrow> string) \<Rightarrow> gcm \<Rightarrow> Encryptor \<Rightarrow> (string \<Rightarrow> go_error option) \<Rightarrow> int \<Rightarrow> string \<Rightarrow> nodes
     \<Rightarrow> Node option res \<times> nodes" where
  "ClaimEnrollmentToken sha g enc fault now token t =
     (let h = hashToken sha token in
      case fault ''begin'' of
        Some e \<Rightarrow> (Inl (ErrWrap ''begin tx'' e), t)
      | None \<Rightarrow>
          (case GetNodeByEnrollmentToken (fault ''query'') h now t of
             Inl e \<Rightarrow> (if is_no_rows e then (Inr None, t) else (Inl (ErrWrap ''get node by enrollment token'' e), t))
           | Inr row \<Rightarrow>
               (case ConsumeEnrollmentToken (fault ''exec'') (d_id row) h t of
                  (Inl e, t') \<Rightarrow> (Inl (ErrWrap ''consume enrollment token'' e), t)
                | (Inr rows, t') \<Rightarrow>
                    if rows = 0 then (Inr None, t)
                    else case fault ''commit'' of
                      Some e \<Rightarrow> (Inl (ErrWrap ''commit'' e), t)
                    | None \<Rightarrow>
                        let n = zero_node\<lparr>nd_id := d_id row, nd_network_id := d_network_id row,
                                  nd_hostname := d_hostname row, nd_os := d_os row, nd_arch := d_arch row,
                                  nd_status := d_status row,
                                  nd_ip := (case d_ip row of None \<Rightarrow> [] | Some ip \<Rightarrow> ip)\<rparr>
                        in if d_agent_token row = [] then (Inr (Some n), t')
                           else case Decrypt g enc (d_agent_token row) of
                             Inl e \<Rightarrow> (Inl (ErrWrap ''decrypt agent token'' e), t')
                           | Inr tok \<Rightarrow> (Inr (Some (n\<lparr>nd_agent_token := tok\<rparr>)), t'))))"

definition NodeStore_ListForNetwork :: "go_error option \<Rightarrow> string \<Rightarrow> nodes \<Rightarrow> Node list res" where
  "NodeStore_ListForNetwork fault networkID t =
     (case ListNodesForNetwork fault networkID t of
        Inl e \<Rightarrow> Inl e
      | Inr rows \<Rightarrow> Inr (map (\<lambda>r. zero_node\<lparr>nd_id := d_id r, nd_network_id := d_network_id r,
          nd_hostname := d_hostname r, nd_os := d_os r, nd_arch := d_arch r, nd_real_ip := d_real_ip r,
          nd_type := d_type r, nd_exposed_ports := d_exposed_ports r, nd_dns_name := d_dns_name r,
          nd_capabilities := d_capabilities r, nd_status := d_status r, nd_last_seen := d_last_seen r,
          nd_created_at := d_created_at r, nd_peers_direct := d_peers_direct r,
          nd_peers_relayed := d_peers_relayed r, nd_peers_reported_at := d_peers_reported_at r,
          nd_peer_state := d_peer_state r, nd_agent_version := d_agent_version r,
          nd_ip := (case d_ip r of None \<Rightarrow> [] | Some ip \<Rightarrow> ip)\<rparr>) rows))"

definition CountForNetwork :: "go_error option \<Rightarrow> string \<Rightarrow> nodes \<Rightarrow> int \<times> go_error option" where
  "CountForNetwork fault networkID t =
     (case CountNodesForNetwork fault networkID t of Inl e \<Rightarrow> (0, Some e) | Inr n \<Rightarrow> (n, None))"

definition MaxLastSeenForNetwork :: "go_error option \<Rightarrow> string \<Rightarrow> nodes \<Rightarrow> int option res" where
  "MaxLastSeenForNetwork fault networkID t =
     (case MaxLastSeenForNetwork_query fault networkID t of
        Inl e \<Rightarrow> Inl e | Inr None \<Rightarrow> Inr None | Inr (Some v) \<Rightarrow> Inr (Some v))"

definition CountNonPendingForNetwork :: "go_error option \<Rightarrow> string \<Rightarrow> nodes \<Rightarrow> int \<times> go_error option" where
  "CountNonPendingForNetwork fault networkID t =
     (case CountNonPendingNodesForNetwork fault networkID t of Inl e \<Rightarrow> (0, Some e) | Inr n \<Rightarrow> (n, None))"

definition parseLastOctet :: "string \<Rightarrow> int" where
  "parseLastOctet cidr =
     (let parts = Split CHR ''.'' (before CHR ''/'' cidr) in
      if length parts \<noteq> 4 then 0 else fst (Atoi (parts ! 3)))"

definition NextNodeIndex :: "go_error option \<Rightarrow> string \<Rightarrow> nodes \<Rightarrow> int res" where
  "NextNodeIndex fault networkID t =
     (case ListNodeIPsForNetwork fault networkID t of
        Inl e \<Rightarrow> Inl e
      | Inr rows \<Rightarrow>
          if rows = [] then Inr 0
          else
            let maxOctet = foldl (\<lambda>m ip. case ip of None \<Rightarrow> m
                                    | Some s \<Rightarrow> if parseLastOctet s > m then parseLastOctet s else m) 1 rows
            in Inr (maxOctet - 1))"

definition NodeStore_CompleteEnrollment ::
  "gcm \<Rightarrow> Encryptor \<Rightarrow> string res \<Rightarrow> go_error option \<Rightarrow> string \<Rightarrow> string \<Rightarrow> string \<Rightarrow> string \<Rightarrow> string \<Rightarrow> string \<Rightarrow> nodes
     \<Rightarrow> go_error option \<times> nodes" where
  "NodeStore_CompleteEnrollment g enc nonce fault ident cert key hostname os arch t =
     (case EncryptBytes g enc nonce key of
        Inl e \<Rightarrow> (Some (ErrWrap ''encrypt node key'' e), t)
      | Inr encKey \<Rightarrow> CompleteEnrollment_query fault cert encKey hostname os arch ident t)"

definition UpdateCert ::
  "gcm \<Rightarrow> Encryptor \<Rightarrow> string res \<Rightarrow> go_error option \<Rightarrow> string \<Rightarrow> string \<Rightarrow> string \<Rightarrow> nodes \<Rightarrow> go_error option \<times> nodes" where
  "UpdateCert g enc nonce fault ident cert key t =
     (case EncryptBytes g enc nonce key of
        Inl e \<Rightarrow> (Some (ErrWrap ''encrypt node key'' e), t)
      | Inr encKey \<Rightarrow> UpdateNodeCert fault cert encKey ident t)"

definition UpdateStatus :: "go_error option \<Rightarrow> string \<Rightarrow> string \<Rightarrow> nodes \<Rightarrow> go_error option \<times> nodes" where
  "UpdateStatus fault ident status t = UpdateNodeStatus fault status ident t"

definition UpdateLastSeen :: "go_error option \<Rightarrow> int \<Rightarrow> string \<Rightarrow> nodes \<Rightarrow> go_error option \<times> nodes" where
  "UpdateLastSeen fault now ident t = UpdateNodeLastSeen fault now ident t"

definition UpdateAgentRealIP :: "go_error option \<Rightarrow> string \<Rightarrow> string \<Rightarrow> nodes \<Rightarrow> go_error option \<times> nodes" where
  "UpdateAgentRealIP fault ident ip t = UpdateNodeAgentRealIP fault (Some ip) ident t"

definition UpdateDNSName :: "go_error option \<Rightarrow> string \<Rightarrow> string \<Rightarrow> nodes \<Rightarrow> go_error option \<times> nodes" where
  "UpdateDNSName fault ident dnsName t = UpdateNodeDNSName fault (Some dnsName) ident t"

definition NodeStore_Rename :: "go_error option \<Rightarrow> string \<Rightarrow> string \<Rightarrow> string \<Rightarrow> nodes \<Rightarrow> go_error option \<times> nodes" where
  "NodeStore_Rename fault ident hostname dnsName t = RenameNode fault (Some dnsName) hostname ident t"

definition ClientTypesForNetwork :: "go_error option \<Rightarrow> string \<Rightarrow> nodes \<Rightarrow> string \<rightharpoonup> string" where
  "ClientTypesForNetwork fault networkID t =
     (case fault of Some e \<Rightarrow> Map.empty
      | None \<Rightarrow> map_of (rev (map (\<lambda>r. (d_id r, the (d_client_type r)))
          (select_many (\<lambda>r. d_network_id r = networkID \<and> d_client_type r \<noteq> None \<and> d_client_type r \<noteq> Some []) t))))"

definition SetClientType :: "go_error option \<Rightarrow> string \<Rightarrow> string \<Rightarrow> nodes \<Rightarrow> go_error option \<times> nodes" where
  "SetClientType fault nodeID clientType t =
     (if clientType = [] then (None, t)
      else exec fault t (Inr (update_where (\<lambda>r. d_id r = nodeID) (\<lambda>r. r\<lparr>d_client_type := Some clientType\<rparr>) t)))"

definition NodeStore_Delete :: "go_error option \<Rightarrow> string \<Rightarrow> nodes \<Rightarrow> go_error option \<times> nodes" where
  "NodeStore_Delete fault ident t = DeleteNode fault ident t"

text \<open>\<open>last_seen_at < cutoff\<close> is not true of a \<open>NULL\<close>.\<close>

definition prunable :: "int \<Rightarrow> NodeRow \<Rightarrow> bool" where
  "prunable cutoff r \<longleftrightarrow> d_status r = ''offline'' \<and> (case d_last_seen r of None \<Rightarrow> False | Some x \<Rightarrow> x < cutoff)"

definition PruneOfflineSince :: "go_error option \<Rightarrow> string \<Rightarrow> int \<Rightarrow> nodes \<Rightarrow> nat res \<times> nodes" where
  "PruneOfflineSince fault networkID cutoff t =
     (case fault of Some e \<Rightarrow> (Inl (ErrWrap ''prune offline nodes'' e), t)
      | None \<Rightarrow> (Inr (affected (\<lambda>r. d_network_id r = networkID \<and> prunable cutoff r) t),
                 delete_where (\<lambda>r. d_network_id r = networkID \<and> prunable cutoff r) t))"

definition PruneOfflineSinceAllNetworks :: "go_error option \<Rightarrow> int \<Rightarrow> nodes \<Rightarrow> nat res \<times> nodes" where
  "PruneOfflineSinceAllNetworks fault cutoff t =
     (case fault of Some e \<Rightarrow> (Inl (ErrWrap ''prune offline nodes (all)'' e), t)
      | None \<Rightarrow> (Inr (affected (prunable cutoff) t), delete_where (prunable cutoff) t))"

definition DeleteForNetwork :: "go_error option \<Rightarrow> string \<Rightarrow> nodes \<Rightarrow> go_error option \<times> nodes" where
  "DeleteForNetwork fault networkID t = DeleteNodesForNetwork fault networkID t"

section \<open>Address allocation\<close>

interpretation nodet: keyed_table node_clash d_id
  by unfold_locales (unfold node_clash_def, metis+)

definition octet_of :: "string option \<Rightarrow> int \<Rightarrow> int" where
  "octet_of ip m = (case ip of None \<Rightarrow> m | Some s \<Rightarrow> if parseLastOctet s > m then parseLastOctet s else m)"

lemma fold_octets:
  "m \<le> foldl (\<lambda>m ip. octet_of ip m) m rows
   \<and> (\<forall>s. Some s \<in> set rows \<longrightarrow> parseLastOctet s \<le> foldl (\<lambda>m ip. octet_of ip m) m rows)
   \<and> (foldl (\<lambda>m ip. octet_of ip m) m rows = m
      \<or> (\<exists>s. Some s \<in> set rows \<and> foldl (\<lambda>m ip. octet_of ip m) m rows = parseLastOctet s))"
proof (induction rows arbitrary: m)
  case (Cons ip rows)
  have step: "m \<le> octet_of ip m" "\<And>s. ip = Some s \<Longrightarrow> parseLastOctet s \<le> octet_of ip m"
      "octet_of ip m = m \<or> (\<exists>s. ip = Some s \<and> octet_of ip m = parseLastOctet s)"
    by (auto simp: octet_of_def split: option.splits)
  have "m \<le> foldl (\<lambda>m ip. octet_of ip m) (octet_of ip m) rows"
    using Cons [of "octet_of ip m"] step(1) by linarith
  moreover have "parseLastOctet s \<le> foldl (\<lambda>m ip. octet_of ip m) (octet_of ip m) rows"
    if "Some s \<in> set (ip # rows)" for s
    using that Cons [of "octet_of ip m"] step(2) [of s] by (auto intro: order_trans)
  moreover have "foldl (\<lambda>m ip. octet_of ip m) (octet_of ip m) rows = m
      \<or> (\<exists>s. Some s \<in> set (ip # rows) \<and> foldl (\<lambda>m ip. octet_of ip m) (octet_of ip m) rows = parseLastOctet s)"
    using conjunct2 [OF conjunct2 [OF Cons [of "octet_of ip m"]]] step(3) by auto
  ultimately show ?case by simp
qed simp

text \<open>The highest host octet in use in a network, at least 1: node \<open>i\<close> is host \<open>i + 2\<close>.\<close>

lemma NextNodeIndex_max:
  assumes "NextNodeIndex None networkID t = Inr i"
  shows "0 \<le> i"
    and "\<And>r ip. r \<in> set t \<Longrightarrow> d_network_id r = networkID \<Longrightarrow> d_ip r = Some ip \<Longrightarrow> parseLastOctet ip \<le> i + 1"
    and "i = 0 \<or> (\<exists>r ip. r \<in> set t \<and> d_network_id r = networkID \<and> d_ip r = Some ip \<and> parseLastOctet ip = i + 1)"
proof -
  let ?rows = "map d_ip (select_many (\<lambda>r. d_network_id r = networkID \<and> d_ip r \<noteq> None) t)"
  have mem: "Some ip \<in> set ?rows \<longleftrightarrow> (\<exists>r \<in> set t. d_network_id r = networkID \<and> d_ip r = Some ip)" for ip
    by (auto simp: select_many_def image_iff)
  have i: "i = foldl (\<lambda>m ip. octet_of ip m) 1 ?rows - 1"
    using assms by (auto simp: NextNodeIndex_def ListNodeIPsForNetwork_def octet_of_def Let_def split: if_splits)
  note F = fold_octets [of 1 ?rows]
  show "0 \<le> i" using F i by linarith
  show "parseLastOctet ip \<le> i + 1" if "r \<in> set t" "d_network_id r = networkID" "d_ip r = Some ip" for r ip
    using F i mem [of ip] that by auto
  show "i = 0 \<or> (\<exists>r ip. r \<in> set t \<and> d_network_id r = networkID \<and> d_ip r = Some ip \<and> parseLastOctet ip = i + 1)"
    using conjunct2 [OF conjunct2 [OF F]] i mem by auto
qed

lemma parseLastOctet_prefix: "parseLastOctet (prefix_string p) = int (unat (snd (snd (snd (Addr p)))))"
proof -
  obtain a b c d where A: "Addr p = (a, b, c, d)" by (cases "Addr p") auto
  have "int (unat d) \<le> int 255" using unat_octet_le [of d] by (simp only: of_nat_le_iff)
  also have "\<dots> < 2 ^ 63" by simp
  finally have "int (unat d) < 2 ^ 63" .
  then have "Atoi (octet_string d) = (int (unat d), True)" unfolding octet_string_def by (rule Atoi_itoa)
  then show ?thesis by (simp add: parseLastOctet_def prefix_string_def A Split_addr_string Let_def)
qed

lemma NodeAddress_octet:
  assumes "NodeAddress subnet i = Inr p" "0 \<le> i"
  shows "parseLastOctet (prefix_string p) = i + 2" "i + 2 \<le> 254"
proof -
  have r: "i + 2 \<le> 254" "snd (snd (snd (Addr p))) = of_int (i + 2)"
    using assms(1) by (auto simp: NodeAddress_def SubnetIP_Inr)
  have "int (unat (of_int (i + 2) :: 8 word)) = (i + 2) mod 256" 
    using uint_word_of_int [of "i + 2", where ?'a = 8] by (simp only: uint_nat [symmetric]) simp
  then show "parseLastOctet (prefix_string p) = i + 2" "i + 2 \<le> 254"
    using r assms(2) by (simp_all add: parseLastOctet_prefix)
qed

text \<open>
  Property C7. A new node gets an address of its own. The address computed from \<open>NextNodeIndex\<close> is in
  use by no node of the network, whatever rows the table holds, and its host octet is between 2 and
  254. When there is no address, the subnet does not parse or some node already has an octet of 254
  or more.
\<close>

theorem node_address_fresh:
  assumes "NextNodeIndex None networkID t = Inr i"
  shows "case NodeAddress subnet i of
           Inr p \<Rightarrow> (\<forall>r \<in> set t. d_network_id r = networkID \<longrightarrow> d_ip r \<noteq> Some (prefix_string p))
             \<and> parseLastOctet (prefix_string p) \<in> {2..254}
         | Inl e \<Rightarrow> (\<exists>e'. ParsePrefix subnet = Inl e')
             \<or> (\<exists>r \<in> set t. d_network_id r = networkID \<and> (\<exists>ip. d_ip r = Some ip \<and> 254 \<le> parseLastOctet ip))"
proof (cases "NodeAddress subnet i")
  case (Inr p)
  note N = NextNodeIndex_max [OF assms] and P = NodeAddress_octet [OF Inr NextNodeIndex_max(1) [OF assms]]
  have "d_ip r \<noteq> Some (prefix_string p)" if "r \<in> set t" "d_network_id r = networkID" for r
    using N(2) [OF that] P(1) by fastforce
  then show ?thesis using Inr P N(1) by auto
next
  case (Inl e)
  note N = NextNodeIndex_max [OF assms]
  show ?thesis
  proof (cases "ParsePrefix subnet")
    case (Inr q)
    then have "254 < i + 2"
      using \<open>NodeAddress subnet i = Inl e\<close> N(1)
      by (auto simp: NodeAddress_def SubnetIP_def split: if_splits prod.splits)
    then have "i \<noteq> 0" "254 \<le> i + 1" by auto
    then show ?thesis using N(3) Inl by fastforce
  qed (use Inl in auto)
qed

section \<open>Enrollment tokens\<close>

datatype node_op =
    NdCreate gcm Encryptor "string res" "string res" "go_error option" int Node
  | NdClaim gcm Encryptor "string \<Rightarrow> go_error option" int string
  | NdComplete gcm Encryptor "string res" "go_error option" string string string string string string
  | NdCert gcm Encryptor "string res" "go_error option" string string string
  | NdStatus "go_error option" string string
  | NdSeen "go_error option" int string
  | NdRename "go_error option" string string string
  | NdDelete "go_error option" string
  | NdDeleteNetwork "go_error option" string
  | NdPrune "go_error option" string int
  | NdPruneAll "go_error option" int

primrec node_step :: "(string \<Rightarrow> string) \<Rightarrow> node_op \<Rightarrow> nodes \<Rightarrow> nodes" where
  "node_step sha (NdCreate g enc n1 n2 fault now n) t = snd (NodeStore_Create sha g enc n1 n2 fault now n t)"
| "node_step sha (NdClaim g enc fault now token) t = snd (ClaimEnrollmentToken sha g enc fault now token t)"
| "node_step sha (NdComplete g enc nonce fault ident cert key hostname os arch) t =
     snd (NodeStore_CompleteEnrollment g enc nonce fault ident cert key hostname os arch t)"
| "node_step sha (NdCert g enc nonce fault ident cert key) t = snd (UpdateCert g enc nonce fault ident cert key t)"
| "node_step sha (NdStatus fault ident status) t = snd (UpdateStatus fault ident status t)"
| "node_step sha (NdSeen fault now ident) t = snd (UpdateLastSeen fault now ident t)"
| "node_step sha (NdRename fault ident hostname dnsName) t = snd (NodeStore_Rename fault ident hostname dnsName t)"
| "node_step sha (NdDelete fault ident) t = snd (NodeStore_Delete fault ident t)"
| "node_step sha (NdDeleteNetwork fault networkID) t = snd (DeleteForNetwork fault networkID t)"
| "node_step sha (NdPrune fault networkID cutoff) t = snd (PruneOfflineSince fault networkID cutoff t)"
| "node_step sha (NdPruneAll fault cutoff) t = snd (PruneOfflineSinceAllNetworks fault cutoff t)"

text \<open>The operation handed the node of the enrollment token stored as \<open>h\<close> to its caller.\<close>

fun token_claimed :: "(string \<Rightarrow> string) \<Rightarrow> node_op \<Rightarrow> nodes \<Rightarrow> string \<Rightarrow> bool" where
  "token_claimed sha (NdClaim g enc fault now token) t h =
     (hashToken sha token = h
      \<and> (case fst (ClaimEnrollmentToken sha g enc fault now token t) of Inr (Some n) \<Rightarrow> True | _ \<Rightarrow> False))"
| "token_claimed sha x t h = False"

fun token_issued :: "(string \<Rightarrow> string) \<Rightarrow> node_op \<Rightarrow> nodes \<Rightarrow> string \<Rightarrow> bool" where
  "token_issued sha (NdCreate g enc n1 n2 fault now n) t h =
     (map_option (hashToken sha) (nd_enroll_token n) = Some h
      \<and> fst (NodeStore_Create sha g enc n1 n2 fault now n t) = None)"
| "token_issued sha x t h = False"

lemma NodeStore_Create_cases:
  assumes "NodeStore_Create sha g enc n1 n2 fault now n t = (err, t')"
  shows "(err \<noteq> None \<and> t' = t)
       \<or> (err = None \<and> (\<exists>r. t' = t @ [r] \<and> (\<forall>x \<in> set t. \<not> node_clash r x) \<and> d_id r = nd_id n
            \<and> d_network_id r = nd_network_id n \<and> d_ip r = (if nd_ip n = [] then None else Some (nd_ip n))
            \<and> d_enroll_token r = map_option (hashToken sha) (nd_enroll_token n)
            \<and> d_enroll_expires r = nd_enroll_expires n \<and> d_status r = nd_status n
            \<and> d_last_seen r = None \<and> d_type r = (if nd_type n = [] then ''agent'' else nd_type n)
            \<and> d_hostname r = nd_hostname n))"
proof -
  have "(err \<noteq> None \<and> t' = t) \<or> (\<exists>encKey encToken.
      InsertNode fault now (nd_id n) (nd_network_id n) (nd_hostname n) (nd_os n) (nd_arch n)
        (nd_cert n) encKey (if nd_ip n = [] then None else Some (nd_ip n)) encToken
        (map_option (hashToken sha) (nd_enroll_token n)) (nd_enroll_expires n)
        (if nd_type n = [] then ''agent'' else nd_type n) (nd_dns_name n) (nd_status n) t = (err, t'))"
    using assms by (auto simp only: NodeStore_Create_def split: sum.splits)
  then show ?thesis
    by (auto simp: InsertNode_def exec_def insert_row_Inr split: option.splits sum.splits)
qed

definition consume :: "string \<Rightarrow> string \<Rightarrow> nodes \<Rightarrow> nodes" where
  "consume ident h t =
     update_where (\<lambda>r. d_id r = ident \<and> d_enroll_token r = Some h)
       (\<lambda>r. r\<lparr>d_enroll_token := None, d_enroll_expires := None\<rparr>) t"

lemma ClaimEnrollmentToken_outcome:
  assumes "ClaimEnrollmentToken sha g enc fault now token t = (res, t')"
  shows "(t' = t \<and> (\<forall>n. res \<noteq> Inr (Some n)))
       \<or> (\<exists>row \<in> set t. d_enroll_token row = Some (hashToken sha token)
            \<and> (case d_enroll_expires row of None \<Rightarrow> True | Some x \<Rightarrow> x > now)
            \<and> t' = consume (d_id row) (hashToken sha token) t
            \<and> (\<forall>n. res = Inr (Some n) \<longrightarrow> nd_id n = d_id row \<and> nd_network_id n = d_network_id row
                 \<and> nd_ip n = (case d_ip row of None \<Rightarrow> [] | Some ip \<Rightarrow> ip)))"
proof (cases "GetNodeByEnrollmentToken (fault ''query'') (hashToken sha token) now t")
  case (Inl e)
  then show ?thesis using assms
    by (auto simp: ClaimEnrollmentToken_def Let_def split: option.splits if_splits)
next
  case (Inr row)
  then have row: "row \<in> set t" "d_enroll_token row = Some (hashToken sha token)"
      "case d_enroll_expires row of None \<Rightarrow> True | Some x \<Rightarrow> x > now"
    by (auto simp: GetNodeByEnrollmentToken_def dest!: query_one_Inr select_one_Inr)
  have "(t' = t \<and> (\<forall>n. res \<noteq> Inr (Some n)))
      \<or> (t' = consume (d_id row) (hashToken sha token) t
         \<and> (\<forall>n. res = Inr (Some n) \<longrightarrow> nd_id n = d_id row \<and> nd_network_id n = d_network_id row
              \<and> nd_ip n = (case d_ip row of None \<Rightarrow> [] | Some ip \<Rightarrow> ip)))"
    using assms Inr
    by (auto simp: ClaimEnrollmentToken_def ConsumeEnrollmentToken_def execresult_def consume_def Let_def
        split: option.splits if_splits sum.splits)
  then show ?thesis using row by blast
qed

text \<open>
  Every operation other than an insertion and a claim either deletes rows or updates rows without
  touching their identity, their address and their enrollment token.
\<close>

definition same_token :: "NodeRow \<Rightarrow> NodeRow \<Rightarrow> bool" where
  "same_token x y \<longleftrightarrow> d_id x = d_id y \<and> d_network_id x = d_network_id y \<and> d_ip x = d_ip y
     \<and> d_enroll_token x = d_enroll_token y"

definition keeps :: "nodes \<Rightarrow> nodes \<Rightarrow> bool" where
  "keeps t t' \<longleftrightarrow> (\<exists>P. t' = delete_where P t) \<or> (\<exists>P f. t' = update_where P f t \<and> (\<forall>r. same_token (f r) r))"

lemma keeps_delete: "keeps t (delete_where P t)"
  unfolding keeps_def by blast

lemma keeps_update: "(\<And>r. same_token (f r) r) \<Longrightarrow> keeps t (update_where P f t)"
  unfolding keeps_def by blast

lemma keeps_refl: "keeps t t"
  using keeps_delete [of t "\<lambda>_. False"] by (simp add: delete_where_def)

lemma keeps_exec: "keeps t t' \<Longrightarrow> keeps t (snd (exec fault t (Inr t')))"
  by (simp add: keeps_refl)

lemmas node_updates = NodeStore_CompleteEnrollment_def CompleteEnrollment_query_def UpdateCert_def UpdateNodeCert_def
  UpdateStatus_def UpdateNodeStatus_def UpdateLastSeen_def UpdateNodeLastSeen_def NodeStore_Rename_def RenameNode_def
  NodeStore_Delete_def DeleteNode_def DeleteForNetwork_def DeleteNodesForNetwork_def PruneOfflineSince_def
  PruneOfflineSinceAllNetworks_def

lemma node_step_keeps:
  assumes "\<And>g enc n1 n2 fault now n. x \<noteq> NdCreate g enc n1 n2 fault now n"
    and "\<And>g enc fault now token. x \<noteq> NdClaim g enc fault now token"
  shows "keeps t (node_step sha x t)"
proof (cases x)
  case (NdCreate g enc n1 n2 fault now n)
  then show ?thesis using assms(1) by blast
next
  case (NdClaim g enc fault now token)
  then show ?thesis using assms(2) by blast
qed (auto simp: node_updates same_token_def split: sum.splits option.splits
      simp del: exec_Inr intro!: keeps_refl keeps_exec keeps_update keeps_delete)

lemma keeps_clash_free: "keeps t t' \<Longrightarrow> clash_free node_clash t \<Longrightarrow> clash_free node_clash t'"
  unfolding keeps_def
  by (auto simp: same_token_def node_clash_def split: if_splits
      intro!: nodet.clash_free_delete nodet.clash_free_update)

lemma keeps_tokens:
  "keeps t t' \<Longrightarrow> affected (\<lambda>r. d_enroll_token r = Some h) t' \<le> affected (\<lambda>r. d_enroll_token r = Some h) t"
  unfolding keeps_def
  by (elim disjE exE conjE)
    (simp add: affected_delete_le, simp add: affected_update_same same_token_def)

definition holds_token :: "string \<Rightarrow> NodeRow \<Rightarrow> bool" where
  "holds_token h r \<longleftrightarrow> d_enroll_token r = Some h"

lemma consume_tokens:
  assumes "row \<in> set t" "d_enroll_token row = Some h"
  shows "affected (holds_token h) (consume (d_id row) h t) + 1 \<le> affected (holds_token h) t"
    and "affected (holds_token k) (consume (d_id row) h t) \<le> affected (holds_token k) t"
proof -
  let ?P = "\<lambda>r. d_id r = d_id row \<and> d_enroll_token r = Some h"
  have kill: "affected (holds_token k) (consume (d_id row) h t) = affected (\<lambda>r. holds_token k r \<and> \<not> ?P r) t" for k
    unfolding consume_def by (rule affected_update_kill) (simp add: holds_token_def)
  have "1 \<le> affected (\<lambda>r. holds_token h r \<and> ?P r) t"
    by (rule affected_pos [OF assms(1)]) (use assms in \<open>simp add: holds_token_def\<close>)
  then show "affected (holds_token h) (consume (d_id row) h t) + 1 \<le> affected (holds_token h) t"
    using affected_split [of "holds_token h" t ?P] kill [of h] by simp
  show "affected (holds_token k) (consume (d_id row) h t) \<le> affected (holds_token k) t"
    using affected_split [of "holds_token k" t ?P] kill [of k] by simp
qed

lemma consume_clash_free: "clash_free node_clash t \<Longrightarrow> clash_free node_clash (consume ident h t)"
  unfolding consume_def by (rule nodet.clash_free_update) (auto simp: node_clash_def split: if_splits)

lemma node_step_clash_free:
  assumes "clash_free node_clash t"
  shows "clash_free node_clash (node_step sha x t)"
proof (cases x)
  case (NdCreate g enc n1 n2 fault now n)
  obtain err t' where c: "NodeStore_Create sha g enc n1 n2 fault now n t = (err, t')" by fastforce
  show ?thesis
    using NodeStore_Create_cases [OF c] assms c NdCreate nodet.clash_free_insert [of t "''''"]
    by (auto simp: insert_row_Inr)
next
  case (NdClaim g enc fault now token)
  obtain res t' where c: "ClaimEnrollmentToken sha g enc fault now token t = (res, t')" by fastforce
  show ?thesis using ClaimEnrollmentToken_outcome [OF c] assms c NdClaim consume_clash_free by auto
qed (rule keeps_clash_free [OF node_step_keeps assms]; simp)+

interpretation ndm: metered "node_step sha" "clash_free node_clash" "token_claimed sha"
  "\<lambda>x t h. if token_issued sha x t h then 1 else 0" "\<lambda>h t. enat (affected (holds_token h) t)"
proof
  fix t x h
  show "clash_free node_clash t \<Longrightarrow> clash_free node_clash (node_step sha x t)" by (rule node_step_clash_free)
  show "enat (affected (holds_token h) (node_step sha x t)) + 1 \<le> enat (affected (holds_token h) t)"
    if "token_claimed sha x t h"
  proof (cases x)
    case (NdClaim g enc fault now token)
    obtain res t' where c: "ClaimEnrollmentToken sha g enc fault now token t = (res, t')" by fastforce
    from that NdClaim c have "hashToken sha token = h" "\<exists>n. res = Inr (Some n)"
      by (auto split: sum.splits option.splits)
    then show ?thesis
      using ClaimEnrollmentToken_outcome [OF c] c NdClaim consume_tokens(1) by (auto simp: one_enat_def)
  qed (use that in auto)
  show "enat (affected (holds_token h) (node_step sha x t))
          \<le> enat (affected (holds_token h) t) + (if token_issued sha x t h then 1 else 0)"
    if "\<not> token_claimed sha x t h"
  proof -
    have unchanged: ?thesis if "keeps t (node_step sha x t)"
      using keeps_tokens [OF that, of h] by (auto simp: holds_token_def [abs_def] one_enat_def intro: le_SucI)
    show ?thesis
  proof (cases x)
    case (NdCreate g enc n1 n2 fault now n)
    obtain err t' where c: "NodeStore_Create sha g enc n1 n2 fault now n t = (err, t')" by fastforce
    show ?thesis
      using NodeStore_Create_cases [OF c] c NdCreate by (auto simp: one_enat_def holds_token_def)
  next
    case (NdClaim g enc fault now token)
    obtain res t' where c: "ClaimEnrollmentToken sha g enc fault now token t = (res, t')" by fastforce
    show ?thesis
      using ClaimEnrollmentToken_outcome [OF c] c NdClaim consume_tokens(2) by auto
  qed (rule unchanged, rule node_step_keeps; simp)+
  qed
qed


text \<open>
  A claim answers with the node of the token and only before its expiry: the row it came
  from carried the hash of the presented token and had not expired, and after the claim no row
  carries it any more, so that repeating the claim gives nothing.
\<close>

theorem enrollment_claim_exact:
  assumes "clash_free node_clash t"
    and "ClaimEnrollmentToken sha g enc fault now token t = (Inr (Some n), t')"
  shows "(\<exists>r \<in> set t. d_enroll_token r = Some (hashToken sha token) \<and> d_id r = nd_id n
            \<and> d_network_id r = nd_network_id n \<and> (case d_enroll_expires r of None \<Rightarrow> True | Some x \<Rightarrow> now < x))
       \<and> (\<forall>r \<in> set t'. d_enroll_token r \<noteq> Some (hashToken sha token))
       \<and> fst (ClaimEnrollmentToken sha g enc (\<lambda>_. None) later token t') = Inr None"
proof -
  let ?h = "hashToken sha token"
  from ClaimEnrollmentToken_outcome [OF assms(2)] obtain row where
    row: "row \<in> set t" "d_enroll_token row = Some ?h" "d_id row = nd_id n" "d_network_id row = nd_network_id n"
      "case d_enroll_expires row of None \<Rightarrow> True | Some x \<Rightarrow> now < x"
    and t': "t' = consume (d_id row) ?h t" by auto
  have uniq: "q = row" if "q \<in> set t" "d_enroll_token q = Some ?h" for q
    using nodet.clash_free_pair [OF assms(1) that(1) row(1)] that(2) row(2) by (simp add: node_clash_def)
  have gone: "\<forall>r \<in> set t'. d_enroll_token r \<noteq> Some ?h"
    using uniq row(2) by (auto simp: t' consume_def set_update_where)
  then have "select_one (\<lambda>r. d_enroll_token r = Some ?h \<and> (case d_enroll_expires r of None \<Rightarrow> True | Some x \<Rightarrow> later < x)) t' = Inl ErrNoRows"
    by (auto simp: select_one_Inl)
  then have "fst (ClaimEnrollmentToken sha g enc (\<lambda>_. None) later token t') = Inr None"
    by (simp add: ClaimEnrollmentToken_def GetNodeByEnrollmentToken_def query_one_def Let_def)
  then show ?thesis using row gone by blast
qed

definition sample_node :: Node where
  "sample_node = zero_node\<lparr>nd_id := ''d1'', nd_network_id := ''n1'', nd_ip := ''10.42.1.2/24'',
     nd_agent_token := ''agent'', nd_enroll_token := Some ''once'', nd_enroll_expires := Some 600, nd_status := ''pending''\<rparr>"

definition sample_nodes :: nodes where
  "sample_nodes = snd (NodeStore_Create (\<lambda>s. s) plain_gcm \<lparr>enc_key = replicate 32 CHR ''k''\<rparr> (Inr ''abcdefghijkl'')
     (Inr ''abcdefghijkl'') None 5 sample_node [])"

lemma sample_nodes_clash_free: "clash_free node_clash sample_nodes"
  by (simp add: sample_nodes_def clash_free_def NodeStore_Create_def sample_node_def zero_node_def InsertNode_def
      exec_def insert_row_def Encrypt_def cipher_error_def)

theorem node_address_fresh_witness:
  "NextNodeIndex None ''n1'' sample_nodes = Inr 1
   \<and> NodeAddress ''10.42.1.0/24'' 1 = Inr \<lparr>Addr = (10, 42, 1, 3), Bits = 24\<rparr>
   \<and> (\<nexists>r. r \<in> set sample_nodes \<and> d_network_id r = ''n1'' \<and> d_ip r = Some (prefix_string \<lparr>Addr = (10, 42, 1, 3), Bits = 24\<rparr>))"
proof -
  have i: "NextNodeIndex None ''n1'' sample_nodes = Inr 1" by code_simp
  have a: "NodeAddress ''10.42.1.0/24'' 1 = Inr \<lparr>Addr = (10, 42, 1, 3), Bits = 24\<rparr>" by code_simp
  show ?thesis using i a node_address_fresh [OF i, of "''10.42.1.0/24''"] by auto
qed

theorem enrollment_claim_exact_witness:
  "fst (ClaimEnrollmentToken (\<lambda>s. s) plain_gcm \<lparr>enc_key = replicate 32 CHR ''k''\<rparr> (\<lambda>_. None) 100 ''once'' sample_nodes)
     = Inr (Some (zero_node\<lparr>nd_id := ''d1'', nd_network_id := ''n1'', nd_ip := ''10.42.1.2/24'',
         nd_agent_token := ''agent'', nd_status := ''pending''\<rparr>))
   \<and> fst (ClaimEnrollmentToken (\<lambda>s. s) plain_gcm \<lparr>enc_key = replicate 32 CHR ''k''\<rparr> (\<lambda>_. None) 101 ''once''
       (snd (ClaimEnrollmentToken (\<lambda>s. s) plain_gcm \<lparr>enc_key = replicate 32 CHR ''k''\<rparr> (\<lambda>_. None) 100 ''once'' sample_nodes)))
     = Inr None"
proof -
  let ?e = "\<lparr>enc_key = replicate 32 CHR ''k''\<rparr>"
  let ?n = "zero_node\<lparr>nd_id := ''d1'', nd_network_id := ''n1'', nd_ip := ''10.42.1.2/24'',
         nd_agent_token := ''agent'', nd_status := ''pending''\<rparr>"
  have c: "ClaimEnrollmentToken (\<lambda>s. s) plain_gcm ?e (\<lambda>_. None) 100 ''once'' sample_nodes = (Inr (Some ?n),
      snd (ClaimEnrollmentToken (\<lambda>s. s) plain_gcm ?e (\<lambda>_. None) 100 ''once'' sample_nodes))"
    by code_simp
  show ?thesis using c enrollment_claim_exact [OF sample_nodes_clash_free c, of 101] by (metis fst_conv)
qed

end
