(* ===== verification/NodeStatus.thy ===== *)
theory NodeStatus
  imports GoText
begin

text \<open>
  What the API shows of a node (src/internal/api/types.go): its effective status, the degraded flag,
  the summary of its peer counters, and the DNS label derived from its host name. The clock is the
  argument \<open>now\<close>, in Unix seconds.
\<close>

section \<open>Status\<close>

definition nodeStaleThreshold :: int where
  "nodeStaleThreshold = 3 * 60"

definition nodeDegradedGraceSeconds :: int where
  "nodeDegradedGraceSeconds = 5 * 60"

definition nodeDegradedPeersStaleSeconds :: int where
  "nodeDegradedPeersStaleSeconds = 2 * 60"

definition effectiveStatus :: "int \<Rightarrow> string \<Rightarrow> int option \<Rightarrow> string" where
  "effectiveStatus now status lastSeenAt =
     (case lastSeenAt of
        None \<Rightarrow> status
      | Some x \<Rightarrow>
          if status \<noteq> ''online'' then status
          else if now - x > nodeStaleThreshold then ''offline'' else status)"

definition counter :: "int option \<Rightarrow> int" where
  "counter c = (case c of None \<Rightarrow> 0 | Some v \<Rightarrow> v)"

definition isDegraded ::
  "int \<Rightarrow> string \<Rightarrow> string \<Rightarrow> int \<Rightarrow> int option \<Rightarrow> int option \<Rightarrow> int option \<Rightarrow> int \<Rightarrow> bool" where
  "isDegraded now status nodeType createdAt peersReportedAt peersDirect peersRelayed peersInNetwork =
     (if status \<noteq> ''online'' then False
      else if nodeType = ''lighthouse'' then False
      else if peersInNetwork < 1 then False
      else if now - createdAt < nodeDegradedGraceSeconds then False
      else case peersReportedAt of
        None \<Rightarrow> False
      | Some x \<Rightarrow>
          if now - x > nodeDegradedPeersStaleSeconds then False
          else counter peersDirect = 0 \<and> counter peersRelayed = 0)"

text \<open>The accessor of Go's generic function is applied by the caller: a node is its four components.\<close>

fun countPotentialPeers :: "int \<Rightarrow> (string \<times> string \<times> string \<times> int option) list \<Rightarrow> string \<Rightarrow> int" where
  "countPotentialPeers now [] excludeID = 0"
| "countPotentialPeers now ((ident, nodeType, status, lastSeenAt) # rest) excludeID =
     (if ident = excludeID then countPotentialPeers now rest excludeID
      else if nodeType = ''lighthouse'' then countPotentialPeers now rest excludeID
      else if effectiveStatus now status lastSeenAt = ''online''
      then 1 + countPotentialPeers now rest excludeID
      else countPotentialPeers now rest excludeID)"

definition deriveConnectivity :: "int option \<Rightarrow> int option \<Rightarrow> string \<Rightarrow> string" where
  "deriveConnectivity peersDirect peersRelayed nodeType =
     (if nodeType = ''lighthouse'' then []
      else if peersDirect = None \<and> peersRelayed = None then []
      else let d = counter peersDirect; r = counter peersRelayed in
        if d = 0 \<and> r = 0 then ''idle''
        else if r = 0 then ''direct''
        else if d = 0 then ''relayed''
        else ''mixed'')"

text \<open>
  The client address of a request: \<open>xff\<close> is its \<open>X-Forwarded-For\<close> header (empty when absent) and
  \<open>remoteAddr\<close> the peer of the TCP connection.
\<close>

definition captureAgentIP :: "bool \<Rightarrow> string \<Rightarrow> string \<Rightarrow> string" where
  "captureAgentIP trustedProxy xff remoteAddr =
     (if trustedProxy \<and> xff \<noteq> [] then TrimSpace (before CHR '','' xff)
      else case SplitHostPort remoteAddr of None \<Rightarrow> [] | Some (ip, port) \<Rightarrow> ip)"

section \<open>DNS labels\<close>

definition dns_safe :: "char \<Rightarrow> bool" where
  "dns_safe c \<longleftrightarrow> (97 \<le> (of_char c :: nat) \<and> (of_char c :: nat) \<le> 122) \<or> is_digit c \<or> c = CHR ''-''"

text \<open>One pass of \<open>strings.ReplaceAll(name, "--", "-")\<close>, and the loop around it.\<close>

fun replace_dashes :: "string \<Rightarrow> string" where
  "replace_dashes (a # b # s) =
     (if a = CHR ''-'' \<and> b = CHR ''-'' then CHR ''-'' # replace_dashes s else a # replace_dashes (b # s))"
| "replace_dashes s = s"

lemma Contains_Cons2:
  "Contains (a # b # s) ''--'' \<longleftrightarrow> (a = CHR ''-'' \<and> b = CHR ''-'') \<or> Contains (b # s) ''--''"
  by (auto simp: HasPrefix_def)

lemma replace_dashes_le: "length (replace_dashes s) \<le> length s"
  by (induction s rule: replace_dashes.induct) auto

lemma replace_dashes_less: "Contains s ''--'' \<Longrightarrow> length (replace_dashes s) < length s"
proof (induction s rule: replace_dashes.induct)
  case (1 a b s)
  show ?case
  proof (cases "a = CHR ''-'' \<and> b = CHR ''-''")
    case True
    then show ?thesis using replace_dashes_le [of s] by simp
  next
    case False
    then show ?thesis using 1 Contains_Cons2 by auto
  qed
qed (auto simp: HasPrefix_def)

function collapse_dashes :: "string \<Rightarrow> string" where
  "collapse_dashes s = (if Contains s ''--'' then collapse_dashes (replace_dashes s) else s)"
  by auto
termination
  by (relation "measure length") (auto simp: replace_dashes_less)

declare collapse_dashes.simps [simp del]

definition sanitizeDNSName :: "string \<Rightarrow> string" where
  "sanitizeDNSName hostname =
     (let name = before CHR ''.'' (ToLower hostname);
          name = map (\<lambda>c. if dns_safe c then c else CHR ''-'') name;
          name = trim_by (\<lambda>c. c = CHR ''-'') name;
          name = collapse_dashes name
      in if name = [] then ''node'' else name)"

section \<open>Facts about the status\<close>

lemma countPotentialPeers_filter:
  "countPotentialPeers now nodes x =
     int (length (filter (\<lambda>(ident, nodeType, status, seen). ident \<noteq> x \<and> nodeType \<noteq> ''lighthouse''
                            \<and> effectiveStatus now status seen = ''online'') nodes))"
  by (induction now nodes x rule: countPotentialPeers.induct) auto

text \<open>
  A node is shown as degraded only when that can be its own fault: with the status the
  API computes from the last heartbeat, a degraded node has sent a heartbeat within the last three
  minutes or has none on record, is not a lighthouse, is at least five minutes old, has reported its
  peers within two minutes, has no peer at all, and some other node of the network is online.
\<close>

theorem degraded_sound:
  assumes "isDegraded now (effectiveStatus now status seen) nodeType created reported direct relayed
             (countPotentialPeers now nodes ident)"
  shows "status = ''online'' \<and> (case seen of None \<Rightarrow> True | Some x \<Rightarrow> now - x \<le> 180) \<and> nodeType \<noteq> ''lighthouse''
       \<and> now - created \<ge> 300 \<and> (\<exists>x. reported = Some x \<and> now - x \<le> 120)
       \<and> deriveConnectivity direct relayed nodeType \<in> {[], ''idle''}
       \<and> (\<exists>(i, ty, st, sn) \<in> set nodes. i \<noteq> ident \<and> ty \<noteq> ''lighthouse'' \<and> effectiveStatus now st sn = ''online'')"
proof -
  have st: "effectiveStatus now status seen = ''online''"
    and "1 \<le> countPotentialPeers now nodes ident"
    and rest: "nodeType \<noteq> ''lighthouse''" "now - created \<ge> 300" "\<exists>x. reported = Some x \<and> now - x \<le> 120"
      "counter direct = 0" "counter relayed = 0"
    using assms
    by (auto simp: isDegraded_def nodeDegradedGraceSeconds_def nodeDegradedPeersStaleSeconds_def
        split: if_splits option.splits)
  then have "filter (\<lambda>(i, ty, st, sn). i \<noteq> ident \<and> ty \<noteq> ''lighthouse''
                       \<and> effectiveStatus now st sn = ''online'') nodes \<noteq> []"
    unfolding countPotentialPeers_filter by auto
  then have "\<exists>(i, ty, st, sn) \<in> set nodes. i \<noteq> ident \<and> ty \<noteq> ''lighthouse'' \<and> effectiveStatus now st sn = ''online''"
    by (auto simp: filter_empty_conv)
  moreover have "status = ''online'' \<and> (case seen of None \<Rightarrow> True | Some x \<Rightarrow> now - x \<le> 180)"
    using st by (auto simp: effectiveStatus_def nodeStaleThreshold_def split: option.splits if_splits)
  ultimately show ?thesis using rest by (simp add: deriveConnectivity_def Let_def)
qed

theorem degraded_sound_witness:
  "isDegraded 1000 (effectiveStatus 1000 ''online'' (Some 990)) ''node'' 100 (Some 950) (Some 0) None
     (countPotentialPeers 1000 [(''b'', ''node'', ''online'', Some 995)] ''a'')
   \<and> (\<exists>(i, ty, st, sn) \<in> set [(''b'', ''node'', ''online'', Some (995::int))].
        i \<noteq> ''a'' \<and> ty \<noteq> ''lighthouse'' \<and> effectiveStatus 1000 st sn = ''online'')"
proof -
  have d: "isDegraded 1000 (effectiveStatus 1000 ''online'' (Some 990)) ''node'' 100 (Some 950) (Some 0) None
     (countPotentialPeers 1000 [(''b'', ''node'', ''online'', Some 995)] ''a'')"
    by code_simp
  show ?thesis using d degraded_sound [OF d] by blast
qed

section \<open>Facts about DNS labels\<close>

lemma replace_dashes_set: "set (replace_dashes s) \<subseteq> set s"
  by (induction s rule: replace_dashes.induct) auto

lemma replace_dashes_ends:
  "s \<noteq> [] \<Longrightarrow> replace_dashes s \<noteq> [] \<and> hd (replace_dashes s) = hd s
     \<and> (last (replace_dashes s) = CHR ''-'' \<longrightarrow> last s = CHR ''-'')"
proof (induction s rule: replace_dashes.induct)
  case (1 a b s)
  then show ?case by (cases "s = []") auto
qed auto

lemma collapse_dashes_facts:
  "set (collapse_dashes s) \<subseteq> set s \<and> \<not> Contains (collapse_dashes s) ''--''
   \<and> (s \<noteq> [] \<longrightarrow> collapse_dashes s \<noteq> [] \<and> hd (collapse_dashes s) = hd s
        \<and> (last (collapse_dashes s) = CHR ''-'' \<longrightarrow> last s = CHR ''-''))"
proof (induction s rule: collapse_dashes.induct)
  case (1 s)
  show ?case
  proof (cases "Contains s ''--''")
    case True
    then have "s \<noteq> []" by auto
    then show ?thesis
      using 1 [OF True] replace_dashes_set [of s] replace_dashes_ends [of s] True
      by (simp add: collapse_dashes.simps [of s]) blast
  qed (simp add: collapse_dashes.simps [of s])
qed

lemma trim_by_ends:
  assumes "trim_by P s \<noteq> []"
  shows "\<not> P (hd (trim_by P s))" "\<not> P (last (trim_by P s))"
proof -
  define u where "u = dropWhile P (rev (dropWhile P s))"
  have u: "u \<noteq> []" "trim_by P s = rev u" using assms by (auto simp: trim_by_def u_def)
  then show "\<not> P (last (trim_by P s))" using hd_dropWhile [of P "rev (dropWhile P s)"] by (simp add: u_def last_rev)
  obtain v where v: "rev (dropWhile P s) = v @ u"
    unfolding u_def by (metis takeWhile_dropWhile_id)
  then have "last (rev (dropWhile P s)) = last u" using u(1) by simp
  moreover have "dropWhile P s \<noteq> []" using u(1) unfolding u_def by (metis dropWhile.simps(1) rev.simps(1))
  ultimately show "\<not> P (hd (trim_by P s))"
    using u hd_dropWhile [of P s] by (simp add: hd_rev last_rev)
qed

lemma trim_by_set: "set (trim_by P s) \<subseteq> set s"
  unfolding trim_by_def by (metis set_dropWhileD set_rev subsetI)

text \<open>
  Property C15. The DNS label of a host name is always a legal one: not empty, only lower-case letters,
  digits and hyphens, no hyphen at either end and no two in a row.
\<close>

theorem sanitizeDNSName_label:
  "sanitizeDNSName h \<noteq> [] \<and> list_all dns_safe (sanitizeDNSName h) \<and> hd (sanitizeDNSName h) \<noteq> CHR ''-''
   \<and> last (sanitizeDNSName h) \<noteq> CHR ''-'' \<and> \<not> Contains (sanitizeDNSName h) ''--''"
proof -
  define m where "m = map (\<lambda>c. if dns_safe c then c else CHR ''-'') (before CHR ''.'' (ToLower h))"
  define n where "n = trim_by (\<lambda>c. c = CHR ''-'') m"
  have safe: "\<forall>c \<in> set n. dns_safe c"
    using trim_by_set [of "\<lambda>c. c = CHR ''-''" m] by (auto simp: n_def m_def dns_safe_def split: if_splits)
  have eq: "sanitizeDNSName h = (if collapse_dashes n = [] then ''node'' else collapse_dashes n)"
    by (simp add: sanitizeDNSName_def n_def m_def Let_def)
  show ?thesis
  proof (cases "n = []")
    case True
    then have "sanitizeDNSName h = ''node''" by (simp add: eq collapse_dashes.simps)
    then show ?thesis by (simp add: dns_safe_def HasPrefix_def)
  next
    case False
    note C = collapse_dashes_facts [of n] and T = trim_by_ends [of "\<lambda>c. c = CHR ''-''" m, folded n_def, OF False]
    then have "sanitizeDNSName h = collapse_dashes n" using False by (simp add: eq)
    then show ?thesis using C T safe False by (auto simp: list_all_iff)
  qed
qed

end
