(* ===== verification/Heartbeats.thy ===== *)
theory Heartbeats
  imports Nodes NodeStatus "HOL-Library.AList" "HOL-Library.Multiset"
begin

text \<open>
  The liveness side of the node store (src/internal/db/nodes.go from \<open>RecordHeartbeat\<close> on, the
  status tracker, and src/internal/db/status_sweeper.go). Heartbeats are buffered in a
  \<open>sync.Map\<close> and written by a periodic flush in one transaction; a sweeper turns nodes whose
  heartbeat is overdue to \<open>offline\<close> and records the transition. A \<open>sync.Map\<close> is an association list
  without repeated keys; \<open>Range\<close> visits it in the order of the list, and the theorems show that this
  order does not matter.
\<close>

record heartbeatEntry =
  hb_ip :: string
  hb_peers_direct :: "int option"
  hb_peers_relayed :: "int option"
  hb_peer_state :: "string option"
  hb_agent_version :: "string option"

record NodeStore =
  ns_nodes :: nodes
  ns_heartbeats :: "(string \<times> heartbeatEntry) list"
  ns_last_proxy :: "(string \<times> int) list"
  ns_last_logged :: "(string \<times> string) list"

section \<open>Heartbeats\<close>

definition coalesce :: "'a option \<Rightarrow> 'a option \<Rightarrow> 'a option" where
  "coalesce new old = (case new of None \<Rightarrow> old | Some v \<Rightarrow> Some v)"

text \<open>The assignments of the \<open>UPDATE\<close> for one heartbeat.\<close>

definition beat :: "int \<Rightarrow> heartbeatEntry \<Rightarrow> NodeRow \<Rightarrow> NodeRow" where
  "beat now e r =
     r\<lparr>d_last_seen := Some now, d_status := ''online'',
       d_real_ip := coalesce (if hb_ip e = [] then None else Some (hb_ip e)) (d_real_ip r),
       d_peers_direct := coalesce (hb_peers_direct e) (d_peers_direct r),
       d_peers_relayed := coalesce (hb_peers_relayed e) (d_peers_relayed r),
       d_peer_state := coalesce (hb_peer_state e) (d_peer_state r),
       d_agent_version := coalesce (hb_agent_version e) (d_agent_version r),
       d_peers_reported_at :=
         (if hb_peers_direct e \<noteq> None \<or> hb_peers_relayed e \<noteq> None \<or> hb_peer_state e \<noteq> None
          then Some now else d_peers_reported_at r)\<rparr>"

definition HeartbeatNode ::
  "go_error option \<Rightarrow> int \<Rightarrow> heartbeatEntry \<Rightarrow> string \<Rightarrow> nodes \<Rightarrow> go_error option \<times> nodes" where
  "HeartbeatNode fault now e ident t = exec fault t (Inr (update_where (\<lambda>r. d_id r = ident) (beat now e) t))"

definition RecordHeartbeat ::
  "string \<Rightarrow> string \<Rightarrow> int option \<Rightarrow> int option \<Rightarrow> string option \<Rightarrow> string option \<Rightarrow> NodeStore \<Rightarrow> NodeStore" where
  "RecordHeartbeat nodeID ip peersDirect peersRelayed peerState agentVersion s =
     s\<lparr>ns_heartbeats := AList.update nodeID
         \<lparr>hb_ip = ip, hb_peers_direct = peersDirect, hb_peers_relayed = peersRelayed,
          hb_peer_state = peerState, hb_agent_version = agentVersion\<rparr> (ns_heartbeats s)\<rparr>"

text \<open>In nanoseconds, like the readings \<open>now\<close> of \<open>RecordProxyActivity\<close>.\<close>

definition proxyHeartbeatThrottle :: int where
  "proxyHeartbeatThrottle = 30 * 1000000000"

definition RecordProxyActivity :: "int \<Rightarrow> string \<Rightarrow> NodeStore \<Rightarrow> NodeStore" where
  "RecordProxyActivity now nodeID s =
     (if (case map_of (ns_last_proxy s) nodeID of
            Some prev \<Rightarrow> now - prev < proxyHeartbeatThrottle | None \<Rightarrow> False)
      then s
      else RecordHeartbeat nodeID [] None None None None
             (s\<lparr>ns_last_proxy := AList.update nodeID now (ns_last_proxy s)\<rparr>))"

text \<open>
  The statements of the flush inside the transaction; \<open>fault id\<close> is the failure of the statement for
  that node and \<open>now id\<close> its clock. An error rolls the transaction back.
\<close>

fun flush_batch ::
  "(string \<Rightarrow> go_error option) \<Rightarrow> (string \<Rightarrow> int) \<Rightarrow> (string \<times> heartbeatEntry) list \<Rightarrow> nodes \<Rightarrow> nodes res" where
  "flush_batch fault now [] t = Inr t"
| "flush_batch fault now ((ident, e) # batch) t =
     (case HeartbeatNode (fault ident) (now ident) e ident t of
        (Some err, t') \<Rightarrow> Inl err
      | (None, t') \<Rightarrow> flush_batch fault now batch t')"

definition FlushHeartbeats ::
  "go_error option \<Rightarrow> (string \<Rightarrow> go_error option) \<Rightarrow> go_error option \<Rightarrow> (string \<Rightarrow> int) \<Rightarrow> NodeStore \<Rightarrow> NodeStore" where
  "FlushHeartbeats faultBegin fault faultCommit now s =
     (let batch = ns_heartbeats s; s' = s\<lparr>ns_heartbeats := []\<rparr> in
      if batch = [] then s'
      else case faultBegin of
        Some e \<Rightarrow> s'
      | None \<Rightarrow>
          (case flush_batch fault now batch (ns_nodes s) of
             Inl e \<Rightarrow> s'
           | Inr t \<Rightarrow> (case faultCommit of Some e \<Rightarrow> s' | None \<Rightarrow> s'\<lparr>ns_nodes := t\<rparr>)))"

section \<open>Status transitions\<close>

definition StatusTransition :: "string \<Rightarrow> string \<Rightarrow> NodeStore \<Rightarrow> bool \<times> NodeStore" where
  "StatusTransition nodeID newStatus s =
     (case map_of (ns_last_logged s) nodeID of
        None \<Rightarrow> (True, s\<lparr>ns_last_logged := AList.update nodeID newStatus (ns_last_logged s)\<rparr>)
      | Some prev \<Rightarrow>
          if prev = newStatus then (False, s)
          else (True, s\<lparr>ns_last_logged := AList.update nodeID newStatus (ns_last_logged s)\<rparr>))"

definition MarkOfflineOnStale :: "go_error option \<Rightarrow> string \<Rightarrow> NodeStore \<Rightarrow> bool \<times> NodeStore" where
  "MarkOfflineOnStale fault nodeID s =
     (case UpdateNodeStatus fault ''offline'' nodeID (ns_nodes s) of
        (Some e, t) \<Rightarrow> (False, s\<lparr>ns_nodes := t\<rparr>)
      | (None, t) \<Rightarrow> StatusTransition nodeID ''offline'' (s\<lparr>ns_nodes := t\<rparr>))"

definition stale :: "int \<Rightarrow> NodeRow \<Rightarrow> bool" where
  "stale cutoff r \<longleftrightarrow> d_status r = ''online'' \<and> d_type r \<noteq> ''lighthouse''
     \<and> (case d_last_seen r of None \<Rightarrow> True | Some x \<Rightarrow> x < cutoff)"

definition ScanStaleOnlineNodes :: "go_error option \<Rightarrow> int \<Rightarrow> nodes \<Rightarrow> NodeRow list res" where
  "ScanStaleOnlineNodes fault cutoff t = query_many fault (select_many (stale cutoff) t)"

record StaleNode =
  st_id :: string
  st_network_id :: string
  st_hostname :: string
  st_last_seen :: "int option"

definition StaleOnlineNodes :: "go_error option \<Rightarrow> int \<Rightarrow> NodeStore \<Rightarrow> StaleNode list res" where
  "StaleOnlineNodes fault cutoff s =
     (case ScanStaleOnlineNodes fault cutoff (ns_nodes s) of
        Inl e \<Rightarrow> Inl e
      | Inr rows \<Rightarrow> Inr (map (\<lambda>r. \<lparr>st_id = d_id r, st_network_id = d_network_id r, st_hostname = d_hostname r,
                                 st_last_seen = d_last_seen r\<rparr>) rows))"

section \<open>The sweepers\<close>

text \<open>The calls of \<open>emitter.Record\<close>: network, event type, target, status. \<open>emitter\<close> tells whether one is set.\<close>

type_synonym status_event = "string \<times> string \<times> string \<times> string"

fun sweep_nodes ::
  "bool \<Rightarrow> (string \<Rightarrow> go_error option) \<Rightarrow> StaleNode list \<Rightarrow> NodeStore \<Rightarrow> status_event list \<times> NodeStore" where
  "sweep_nodes emitter fault [] s = ([], s)"
| "sweep_nodes emitter fault (n # ns) s =
     (case MarkOfflineOnStale (fault (st_id n)) (st_id n) s of (transitioned, s') \<Rightarrow>
        case sweep_nodes emitter fault ns s' of (events, s'') \<Rightarrow>
          (if \<not> transitioned \<or> \<not> emitter then events
           else (st_network_id n, ''node.status'', st_id n, ''offline'') # events, s''))"

definition runStatusSweep ::
  "bool \<Rightarrow> go_error option \<Rightarrow> (string \<Rightarrow> go_error option) \<Rightarrow> int \<Rightarrow> int \<Rightarrow> NodeStore \<Rightarrow> status_event list \<times> NodeStore" where
  "runStatusSweep emitter faultScan fault now staleSeconds s =
     (case StaleOnlineNodes faultScan (now - staleSeconds) s of
        Inl e \<Rightarrow> ([], s)
      | Inr stales \<Rightarrow> sweep_nodes emitter fault stales s)"

definition pruneAgeDefaultHours :: int where
  "pruneAgeDefaultHours = 24 * 7"

text \<open>
  \<open>env\<close> is the value of \<open>HOPSSH_NODE_PRUNE_AGE_HOURS\<close>, empty when unset; the result is in
  nanoseconds, with the wrap-around of the 64-bit product.
\<close>

definition wrap64 :: "int \<Rightarrow> int" where
  "wrap64 n = (n + 2 ^ 63) mod 2 ^ 64 - 2 ^ 63"

definition pruneAgeDuration :: "string \<Rightarrow> int" where
  "pruneAgeDuration env =
     (if env \<noteq> [] \<and> snd (Atoi env) then wrap64 (fst (Atoi env) * 3600000000000)
      else pruneAgeDefaultHours * 3600000000000)"

text \<open>\<open>nowNs\<close> is the clock in nanoseconds; \<open>Unix()\<close> rounds down to seconds.\<close>

definition runPruneSweep :: "go_error option \<Rightarrow> int \<Rightarrow> int \<Rightarrow> NodeStore \<Rightarrow> NodeStore" where
  "runPruneSweep fault nowNs age s =
     s\<lparr>ns_nodes := snd (PruneOfflineSinceAllNetworks fault ((nowNs - age) div 1000000000) (ns_nodes s))\<rparr>"

section \<open>The flush writes each buffered heartbeat once\<close>

definition flushed :: "(string \<Rightarrow> int) \<Rightarrow> (string \<times> heartbeatEntry) list \<Rightarrow> NodeRow \<Rightarrow> NodeRow" where
  "flushed now hb r = (case map_of hb (d_id r) of None \<Rightarrow> r | Some e \<Rightarrow> beat (now (d_id r)) e r)"

lemma beat_id [simp]: "d_id (beat now e r) = d_id r"
  by (simp add: beat_def)

lemma flush_batch_Inr:
  "distinct (map fst hb) \<Longrightarrow> flush_batch fault now hb t = Inr t' \<Longrightarrow> t' = map (flushed now hb) t"
proof (induction hb arbitrary: t)
  case Nil
  then show ?case by (simp add: flushed_def map_idI)
next
  case (Cons x hb)
  obtain ident e where x: "x = (ident, e)" by fastforce
  have no: "map_of hb ident = None" using Cons.prems(1) x by (simp add: map_of_eq_None_iff)
  have rest: "flush_batch fault now hb (update_where (\<lambda>r. d_id r = ident) (beat (now ident) e) t) = Inr t'"
    using Cons.prems(2) x by (auto simp: HeartbeatNode_def exec_def split: option.splits)
  have "t' = map (flushed now hb) (update_where (\<lambda>r. d_id r = ident) (beat (now ident) e) t)"
    using Cons.IH [OF _ rest] Cons.prems(1) by simp
  also have "\<dots> = map (flushed now (x # hb)) t"
    using no by (auto simp: update_where_def flushed_def x)
  finally show ?case .
qed

lemma flush_batch_no_fault:
  "\<forall>(i, e) \<in> set hb. fault i = None \<Longrightarrow> \<exists>t'. flush_batch fault now hb t = Inr t'"
  by (induction hb arbitrary: t) (auto simp: HeartbeatNode_def exec_def)

lemma flush_batch_fault:
  "(i, e) \<in> set hb \<Longrightarrow> fault i \<noteq> None \<Longrightarrow> \<exists>err. flush_batch fault now hb t = Inl err"
  by (induction hb arbitrary: t) (auto simp: HeartbeatNode_def exec_def split: option.splits)

lemma FlushHeartbeats_spec:
  assumes "distinct (map fst (ns_heartbeats s))"
  shows "FlushHeartbeats faultBegin fault faultCommit now s =
           s\<lparr>ns_heartbeats := [],
             ns_nodes := (if faultBegin = None \<and> (\<forall>(i, e) \<in> set (ns_heartbeats s). fault i = None) \<and> faultCommit = None
                          then map (flushed now (ns_heartbeats s)) (ns_nodes s) else ns_nodes s)\<rparr>"
proof (cases "\<forall>(i, e) \<in> set (ns_heartbeats s). fault i = None")
  case True
  then obtain t' where "flush_batch fault now (ns_heartbeats s) (ns_nodes s) = Inr t'"
    using flush_batch_no_fault by blast
  with flush_batch_Inr [OF assms this] True show ?thesis
    by (auto simp: FlushHeartbeats_def Let_def flushed_def map_idI split: option.splits)
next
  case False
  then obtain i e err where "(i, e) \<in> set (ns_heartbeats s)"
      "flush_batch fault now (ns_heartbeats s) (ns_nodes s) = Inl err"
    using flush_batch_fault by blast
  then show ?thesis using False by (auto simp: FlushHeartbeats_def Let_def split: option.splits)
qed

text \<open>
  Property C13. A flush is all or nothing and independent of the order in which the buffer is visited.
  If the database answers every call, each node with a buffered heartbeat gets exactly the fields
  that heartbeat carries (absent ones keep their stored value), every other row is untouched and the
  buffer is empty; if any call fails, no row changes. The same holds for every permutation of the buffer.
\<close>

theorem FlushHeartbeats_atomic:
  assumes "distinct (map fst (ns_heartbeats s))" "mset hb' = mset (ns_heartbeats s)"
  shows "FlushHeartbeats faultBegin fault faultCommit now s =
           s\<lparr>ns_heartbeats := [],
             ns_nodes := (if faultBegin = None \<and> (\<forall>(i, e) \<in> set (ns_heartbeats s). fault i = None) \<and> faultCommit = None
                          then map (flushed now (ns_heartbeats s)) (ns_nodes s) else ns_nodes s)\<rparr>
       \<and> FlushHeartbeats faultBegin fault faultCommit now (s\<lparr>ns_heartbeats := hb'\<rparr>)
           = FlushHeartbeats faultBegin fault faultCommit now s"
proof -
  have d': "distinct (map fst hb')" using assms(1,2) by (metis mset_eq_imp_distinct_iff mset_map)
  have same: "flushed now hb' = flushed now (ns_heartbeats s)"
    using map_of_inject_set [OF d' assms(1)] mset_eq_setD [OF assms(2)] by (simp add: flushed_def fun_eq_iff)
  note F = FlushHeartbeats_spec [OF assms(1), of faultBegin fault faultCommit now]
  note F' = FlushHeartbeats_spec [of "s\<lparr>ns_heartbeats := hb'\<rparr>" faultBegin fault faultCommit now]
  show ?thesis using F F' d' same mset_eq_setD [OF assms(2)] by simp
qed

text \<open>A store with one node and one buffered heartbeat that carries an address and two direct peers.\<close>

definition sample_store :: NodeStore where
  "sample_store =
     \<lparr>ns_nodes = sample_nodes,
      ns_heartbeats = [(''d1'', \<lparr>hb_ip = ''203.0.113.9'', hb_peers_direct = Some 2, hb_peers_relayed = None,
                                hb_peer_state = None, hb_agent_version = None\<rparr>)],
      ns_last_proxy = [], ns_last_logged = []\<rparr>"

theorem FlushHeartbeats_atomic_witness:
  "FlushHeartbeats None (\<lambda>_. None) None (\<lambda>_. 77) sample_store =
     sample_store\<lparr>ns_heartbeats := [], ns_nodes := map (flushed (\<lambda>_. 77) (ns_heartbeats sample_store)) sample_nodes\<rparr>
   \<and> map d_real_ip (map (flushed (\<lambda>_. 77) (ns_heartbeats sample_store)) sample_nodes) = [Some ''203.0.113.9'']"
proof
  have "distinct (map fst (ns_heartbeats sample_store))" by (simp add: sample_store_def)
  from FlushHeartbeats_atomic [OF this refl, of None "\<lambda>_. None" None "\<lambda>_. 77"]
  show "FlushHeartbeats None (\<lambda>_. None) None (\<lambda>_. 77) sample_store =
     sample_store\<lparr>ns_heartbeats := [], ns_nodes := map (flushed (\<lambda>_. 77) (ns_heartbeats sample_store)) sample_nodes\<rparr>"
    by (simp add: sample_store_def)
  show "map d_real_ip (map (flushed (\<lambda>_. 77) (ns_heartbeats sample_store)) sample_nodes) = [Some ''203.0.113.9'']"
    by code_simp
qed

section \<open>The buffer\<close>

lemma RecordHeartbeat_keys:
  "distinct (map fst (ns_heartbeats s)) \<Longrightarrow> distinct (map fst (ns_heartbeats (RecordHeartbeat i ip pd pr ps av s)))"
  by (simp add: RecordHeartbeat_def distinct_update)

lemma RecordHeartbeat_lookup:
  "map_of (ns_heartbeats (RecordHeartbeat i ip pd pr ps av s)) =
     (map_of (ns_heartbeats s))(i \<mapsto> \<lparr>hb_ip = ip, hb_peers_direct = pd, hb_peers_relayed = pr,
                                      hb_peer_state = ps, hb_agent_version = av\<rparr>)"
  by (simp add: RecordHeartbeat_def update_conv')

text \<open>
  Traffic through the proxy erases a buffered report. When a node's heartbeat with an
  address and peer counters is still in the buffer and a proxied connection to the node records
  activity (at least 30 s after the previous such record), the next successful flush marks the
  node online but stores none of what the heartbeat reported: its address, peer counters, peer state
  and version stay those of before.
\<close>

theorem proxy_activity_discards_report:
  assumes "distinct (map fst (ns_heartbeats s))"
    and "case map_of (ns_last_proxy s) i of None \<Rightarrow> True | Some prev \<Rightarrow> at_ns - prev \<ge> proxyHeartbeatThrottle"
  shows "\<forall>r \<in> set (ns_nodes s). d_id r = i \<longrightarrow>
           r\<lparr>d_last_seen := Some (now i), d_status := ''online''\<rparr> \<in>
             set (ns_nodes (FlushHeartbeats None (\<lambda>_. None) None now
                    (RecordProxyActivity at_ns i (RecordHeartbeat i ip pd pr ps av s))))"
proof -
  let ?b = "RecordProxyActivity at_ns i (RecordHeartbeat i ip pd pr ps av s)"
  let ?empty = "\<lparr>hb_ip = [], hb_peers_direct = None, hb_peers_relayed = None, hb_peer_state = None, hb_agent_version = None\<rparr>"
  have b: "?b = RecordHeartbeat i [] None None None None
      ((RecordHeartbeat i ip pd pr ps av s)\<lparr>ns_last_proxy := AList.update i at_ns (ns_last_proxy s)\<rparr>)"
    using assms(2) by (auto simp: RecordProxyActivity_def RecordHeartbeat_def split: option.splits)
  have d: "distinct (map fst (ns_heartbeats ?b))"
    unfolding b by (rule RecordHeartbeat_keys) (use RecordHeartbeat_keys [OF assms(1)] in simp)
  have l: "map_of (ns_heartbeats ?b) i = Some ?empty" unfolding b RecordHeartbeat_lookup by simp
  have n: "ns_nodes ?b = ns_nodes s" unfolding b by (simp add: RecordHeartbeat_def)
  have "flushed now (ns_heartbeats ?b) r = r\<lparr>d_last_seen := Some (now i), d_status := ''online''\<rparr>" if "d_id r = i" for r
    using that l by (simp add: flushed_def beat_def coalesce_def)
  then show ?thesis
    unfolding FlushHeartbeats_spec [OF d] n by (auto simp: image_iff) metis
qed

theorem proxy_activity_discards_report_witness:
  "map d_real_ip (ns_nodes (FlushHeartbeats None (\<lambda>_. None) None (\<lambda>_. 77) (RecordProxyActivity 5 ''d1''
     (RecordHeartbeat ''d1'' ''203.0.113.9'' (Some 2) None None None (sample_store\<lparr>ns_heartbeats := []\<rparr>))))) = [None]
   \<and> (\<exists>r. sample_nodes = [r] \<and> r\<lparr>d_last_seen := Some 77, d_status := ''online''\<rparr> \<in>
        set (ns_nodes (FlushHeartbeats None (\<lambda>_. None) None (\<lambda>_. 77) (RecordProxyActivity 5 ''d1''
     (RecordHeartbeat ''d1'' ''203.0.113.9'' (Some 2) None None None (sample_store\<lparr>ns_heartbeats := []\<rparr>))))))"
proof
  show "map d_real_ip (ns_nodes (FlushHeartbeats None (\<lambda>_. None) None (\<lambda>_. 77) (RecordProxyActivity 5 ''d1''
     (RecordHeartbeat ''d1'' ''203.0.113.9'' (Some 2) None None None (sample_store\<lparr>ns_heartbeats := []\<rparr>))))) = [None]"
    by code_simp
  have n: "ns_nodes sample_store = sample_nodes" by (simp add: sample_store_def)
  have "map d_id sample_nodes = [''d1'']" by code_simp
  then obtain r where r: "sample_nodes = [r]" "d_id r = ''d1''" by auto
  have "ns_last_proxy (sample_store\<lparr>ns_heartbeats := []\<rparr>) = []" by (simp add: sample_store_def)
  then have "r\<lparr>d_last_seen := Some 77, d_status := ''online''\<rparr> \<in>
        set (ns_nodes (FlushHeartbeats None (\<lambda>_. None) None (\<lambda>_. 77) (RecordProxyActivity 5 ''d1''
     (RecordHeartbeat ''d1'' ''203.0.113.9'' (Some 2) None None None (sample_store\<lparr>ns_heartbeats := []\<rparr>)))))"
    using proxy_activity_discards_report [where s = "sample_store\<lparr>ns_heartbeats := []\<rparr>" and i = "''d1''"
        and at_ns = 5 and now = "\<lambda>_. 77" and ip = "''203.0.113.9''" and pd = "Some 2" and pr = None and ps = None and av = None]
    by (simp add: n r)
  then show "\<exists>r. sample_nodes = [r] \<and> r\<lparr>d_last_seen := Some 77, d_status := ''online''\<rparr> \<in>
        set (ns_nodes (FlushHeartbeats None (\<lambda>_. None) None (\<lambda>_. 77) (RecordProxyActivity 5 ''d1''
     (RecordHeartbeat ''d1'' ''203.0.113.9'' (Some 2) None None None (sample_store\<lparr>ns_heartbeats := []\<rparr>)))))"
    using r by blast
qed

section \<open>The sweep\<close>

lemma StatusTransition_spec:
  "StatusTransition i st s =
     (map_of (ns_last_logged s) i \<noteq> Some st,
      s\<lparr>ns_last_logged := (if map_of (ns_last_logged s) i = Some st then ns_last_logged s
                           else AList.update i st (ns_last_logged s))\<rparr>)"
  by (auto simp: StatusTransition_def split: option.splits)

lemma MarkOffline_spec:
  "MarkOfflineOnStale None i s =
     (map_of (ns_last_logged s) i \<noteq> Some ''offline'',
      s\<lparr>ns_nodes := update_where (\<lambda>r. d_id r = i) (\<lambda>r. r\<lparr>d_status := ''offline''\<rparr>) (ns_nodes s),
        ns_last_logged := (if map_of (ns_last_logged s) i = Some ''offline'' then ns_last_logged s
                           else AList.update i ''offline'' (ns_last_logged s))\<rparr>)"
  by (simp add: MarkOfflineOnStale_def UpdateNodeStatus_def exec_def StatusTransition_spec)

lemma sweep_nodes_spec:
  "distinct (map st_id ns) \<Longrightarrow> sweep_nodes True (\<lambda>_. None) ns s = (events, s') \<Longrightarrow>
     ns_nodes s' = map (\<lambda>r. if d_id r \<in> st_id ` set ns then r\<lparr>d_status := ''offline''\<rparr> else r) (ns_nodes s)
     \<and> events = map (\<lambda>n. (st_network_id n, ''node.status'', st_id n, ''offline''))
                  (filter (\<lambda>n. map_of (ns_last_logged s) (st_id n) \<noteq> Some ''offline'') ns)"
proof (induction ns arbitrary: s events s')
  case (Cons n ns)
  let ?s1 = "snd (MarkOfflineOnStale None (st_id n) s)"
  obtain ev s1 where s1: "sweep_nodes True (\<lambda>_. None) ns ?s1 = (ev, s1)" by fastforce
  have IH: "ns_nodes s1 = map (\<lambda>r. if d_id r \<in> st_id ` set ns then r\<lparr>d_status := ''offline''\<rparr> else r) (ns_nodes ?s1)"
      "ev = map (\<lambda>n. (st_network_id n, ''node.status'', st_id n, ''offline''))
              (filter (\<lambda>n. map_of (ns_last_logged ?s1) (st_id n) \<noteq> Some ''offline'') ns)"
    using Cons.IH [OF _ s1] Cons.prems(1) by auto
  have res: "s' = s1" "events = (if map_of (ns_last_logged s) (st_id n) \<noteq> Some ''offline''
      then (st_network_id n, ''node.status'', st_id n, ''offline'') # ev else ev)"
    using Cons.prems(2) s1 by (auto simp: MarkOffline_spec split: if_splits)
  have "map_of (ns_last_logged ?s1) (st_id m) = map_of (ns_last_logged s) (st_id m)" if "m \<in> set ns" for m
    using that Cons.prems(1) by (auto simp: MarkOffline_spec update_conv' image_iff)
  then have "filter (\<lambda>m. map_of (ns_last_logged ?s1) (st_id m) \<noteq> Some ''offline'') ns
      = filter (\<lambda>m. map_of (ns_last_logged s) (st_id m) \<noteq> Some ''offline'') ns"
    by (intro filter_cong) auto
  moreover have "ns_nodes ?s1 = update_where (\<lambda>r. d_id r = st_id n) (\<lambda>r. r\<lparr>d_status := ''offline''\<rparr>) (ns_nodes s)"
    by (simp add: MarkOffline_spec)
  ultimately show ?case unfolding res IH by (auto simp: update_where_def)
qed auto



end
