(* ===== verification/RateLimit.thy ===== *)
theory RateLimit
  imports GoText
begin

text \<open>
  The per-address token bucket in front of the public endpoints (src/internal/auth/ratelimit.go).
  Times are nanoseconds of the monotonic clock; the limiter's mutex makes every \<open>allow\<close> and every
  round of the cleanup one step.
\<close>

record bucket =
  tokens :: int
  lastSeen :: int

record RateLimiter =
  visitors :: "string \<rightharpoonup> bucket"
  rate :: int
  burst :: int
  interval :: int
  trustedProxy :: bool

definition NewRateLimiter :: "int \<Rightarrow> int \<Rightarrow> int \<Rightarrow> bool \<Rightarrow> RateLimiter" where
  "NewRateLimiter r b i tp =
     \<lparr>visitors = Map.empty, rate = r, burst = b, interval = i, trustedProxy = tp\<rparr>"

text \<open>
  The refill of a bucket: \<open>now\<close> is the reading of the clock behind \<open>time.Since\<close> and \<open>now'\<close> the later
  one that is stored.
\<close>

definition refilled :: "int \<Rightarrow> int \<Rightarrow> RateLimiter \<Rightarrow> bucket \<Rightarrow> bucket" where
  "refilled now now' rl b =
     (let refill = ((now - lastSeen b) div interval rl) * rate rl in
      if refill > 0
      then \<lparr>tokens = (if tokens b + refill > burst rl then burst rl else tokens b + refill), lastSeen = now'\<rparr>
      else b)"

definition allow :: "int \<Rightarrow> int \<Rightarrow> string \<Rightarrow> RateLimiter \<Rightarrow> bool \<times> RateLimiter" where
  "allow now now' ip rl =
     (case visitors rl ip of
        None \<Rightarrow> (True, rl\<lparr>visitors := (visitors rl)(ip \<mapsto> \<lparr>tokens = burst rl - 1, lastSeen = now\<rparr>)\<rparr>)
      | Some b \<Rightarrow>
          let b = refilled now now' rl b in
          if tokens b \<le> 0 then (False, rl\<lparr>visitors := (visitors rl)(ip \<mapsto> b)\<rparr>)
          else (True, rl\<lparr>visitors := (visitors rl)(ip \<mapsto> b\<lparr>tokens := tokens b - 1\<rparr>)\<rparr>))"

definition ten_minutes :: int where
  "ten_minutes = 10 * 60 * 1000000000"

text \<open>One round of the cleanup goroutine.\<close>

definition cleanup :: "int \<Rightarrow> RateLimiter \<Rightarrow> RateLimiter" where
  "cleanup now rl =
     rl\<lparr>visitors := (\<lambda>ip. case visitors rl ip of
          None \<Rightarrow> None | Some b \<Rightarrow> if now - lastSeen b > ten_minutes then None else Some b)\<rparr>"

definition clientIP :: "string \<Rightarrow> string \<Rightarrow> bool \<Rightarrow> string" where
  "clientIP xff remoteAddr tp =
     (if tp \<and> xff \<noteq> [] then TrimSpace (before CHR '','' xff)
      else case SplitHostPort remoteAddr of None \<Rightarrow> [] | Some (ip, port) \<Rightarrow> ip)"

text \<open>The middleware; \<open>handled\<close> is the answer of the next handler, which is not called on 429.\<close>

definition Limit :: "int \<Rightarrow> int \<Rightarrow> string \<Rightarrow> string \<Rightarrow> 'b http \<Rightarrow> RateLimiter \<Rightarrow> 'b http \<times> RateLimiter" where
  "Limit now now' xff remoteAddr handled rl =
     (case allow now now' (clientIP xff remoteAddr (trustedProxy rl)) rl of
        (False, rl') \<Rightarrow> (Reject 429 ''rate limit exceeded'', rl')
      | (True, rl') \<Rightarrow> (handled, rl'))"

section \<open>Bounds\<close>

definition bucket_ok :: "RateLimiter \<Rightarrow> bool" where
  "bucket_ok rl \<longleftrightarrow> 1 \<le> burst rl \<and> 0 \<le> rate rl \<and> 0 < interval rl
     \<and> (\<forall>ip b. visitors rl ip = Some b \<longrightarrow> 0 \<le> tokens b \<and> tokens b \<le> burst rl)"

datatype limiter_op =
    Arrive int int string
  | Cleanup int

primrec limiter_step :: "limiter_op \<Rightarrow> RateLimiter \<Rightarrow> RateLimiter" where
  "limiter_step (Arrive now now' ip) rl = snd (allow now now' ip rl)"
| "limiter_step (Cleanup now) rl = cleanup now rl"

primrec admitted :: "string \<Rightarrow> limiter_op \<Rightarrow> RateLimiter \<Rightarrow> int" where
  "admitted ip (Arrive now now' ip') rl = (if ip' = ip \<and> fst (allow now now' ip' rl) then 1 else 0)"
| "admitted ip (Cleanup now) rl = 0"

primrec op_times :: "limiter_op \<Rightarrow> int list" where
  "op_times (Arrive now now' ip) = [now, now']"
| "op_times (Cleanup now) = [now]"

lemma params_step [simp]:
  "rate (limiter_step x rl) = rate rl" "burst (limiter_step x rl) = burst rl" "interval (limiter_step x rl) = interval rl"
  by (cases x; auto simp: allow_def cleanup_def Let_def split: option.splits)+

lemma refilled_tokens:
  "0 \<le> tokens b \<Longrightarrow> tokens b \<le> burst rl \<Longrightarrow> 0 \<le> tokens (refilled now now' rl b) \<and> tokens (refilled now now' rl b) \<le> burst rl"
  by (auto simp: refilled_def Let_def)

lemma limiter_step_ok: "bucket_ok rl \<Longrightarrow> bucket_ok (limiter_step x rl)"
proof (cases x)
  case (Arrive now now' ip)
  assume ok: "bucket_ok rl"
  show ?thesis
  proof (cases "visitors rl ip")
    case None
    then show ?thesis using ok Arrive by (auto simp: bucket_ok_def allow_def)
  next
    case (Some b)
    then have "0 \<le> tokens (refilled now now' rl b) \<and> tokens (refilled now now' rl b) \<le> burst rl"
      using ok by (intro refilled_tokens) (auto simp: bucket_ok_def)
    then show ?thesis using ok Arrive Some by (auto simp: bucket_ok_def allow_def Let_def)
  qed
qed (auto simp: bucket_ok_def cleanup_def split: option.splits if_splits)

interpretation limiter: stable_invariant limiter_step bucket_ok
  by unfold_locales (rule limiter_step_ok)

text \<open>
  What an address may still get admitted until time \<open>T\<close>, given that the clock has reached \<open>t\<close>: the
  tokens of its bucket and what the bucket earns, or a full burst when it has none.
\<close>

definition allowance :: "string \<Rightarrow> int \<Rightarrow> int \<Rightarrow> RateLimiter \<Rightarrow> int" where
  "allowance ip t T rl =
     (case visitors rl ip of
        None \<Rightarrow> burst rl + rate rl * ((T - t) div interval rl)
      | Some b \<Rightarrow> tokens b + rate rl * ((T - lastSeen b) div interval rl))"

definition seen_before :: "int \<Rightarrow> RateLimiter \<Rightarrow> bool" where
  "seen_before t rl \<longleftrightarrow> (\<forall>ip b. visitors rl ip = Some b \<longrightarrow> lastSeen b \<le> t)"

lemma div_super_add: "0 < (i::int) \<Longrightarrow> a div i + b div i \<le> (a + b) div i"
  by (simp add: div_add1_eq [of a b i] pos_imp_zdiv_nonneg_iff)

lemma refilled_allowance:
  assumes "0 < interval rl" "0 \<le> rate rl" "lastSeen b \<le> now" "now \<le> now'" "now' \<le> T"
  shows "tokens (refilled now now' rl b) + rate rl * ((T - lastSeen (refilled now now' rl b)) div interval rl)
       \<le> tokens b + rate rl * ((T - lastSeen b) div interval rl)"
proof (cases "(now - lastSeen b) div interval rl * rate rl > 0")
  case True
  let ?i = "interval rl"
  have "(T - now') div ?i \<le> (T - now) div ?i" using assms by (intro zdiv_mono1) auto
  then have "(now - lastSeen b) div ?i + (T - now') div ?i \<le> (T - lastSeen b) div ?i"
    using div_super_add [OF assms(1), of "now - lastSeen b" "T - now"] by simp
  then have "rate rl * ((now - lastSeen b) div ?i + (T - now') div ?i) \<le> rate rl * ((T - lastSeen b) div ?i)"
    using assms(2) by (rule mult_left_mono)
  then show ?thesis using True by (auto simp: refilled_def Let_def algebra_simps)
qed (simp add: refilled_def Let_def)

lemma refilled_seen: "lastSeen b \<le> now' \<Longrightarrow> lastSeen (refilled now now' rl b) \<le> now'"
  by (simp add: refilled_def Let_def)

lemma arrive_allowance:
  assumes "bucket_ok rl" "seen_before t rl" "t \<le> now" "now \<le> now'" "now' \<le> T"
  shows "admitted ip (Arrive now now' ip') rl + allowance ip now' T (limiter_step (Arrive now now' ip') rl)
       \<le> allowance ip t T rl"
    and "seen_before now' (limiter_step (Arrive now now' ip') rl)"
proof -
  have p: "0 < interval rl" "0 \<le> rate rl" using assms(1) by (auto simp: bucket_ok_def)
  have le: "rate rl * ((T - u) div interval rl) \<le> rate rl * ((T - t) div interval rl)" if "t \<le> u" for u
    using p that by (intro mult_left_mono zdiv_mono1) auto
  show "admitted ip (Arrive now now' ip') rl + allowance ip now' T (limiter_step (Arrive now now' ip') rl)
       \<le> allowance ip t T rl"
  proof (cases "ip' = ip")
    case False
    then show ?thesis using le [of now'] assms(3,4)
      by (auto simp: allow_def allowance_def Let_def split: option.splits)
  next
    case True
    show ?thesis
    proof (cases "visitors rl ip")
      case None
      then show ?thesis using True le [of now] assms(3) by (simp add: allow_def allowance_def)
    next
      case (Some b)
      then have "lastSeen b \<le> now" using assms(2,3) by (fastforce simp: seen_before_def)
      from refilled_allowance [OF p this assms(4,5)] show ?thesis
        using True Some by (auto simp: allow_def allowance_def Let_def)
    qed
  qed
  have "lastSeen b \<le> now'" if "visitors rl i = Some b" for i b
    using assms(2-4) that by (fastforce simp: seen_before_def)
  then show "seen_before now' (limiter_step (Arrive now now' ip') rl)"
    using assms(4) refilled_seen
    by (auto simp: seen_before_def allow_def Let_def split: option.splits if_splits)
qed

lemma cleanup_allowance:
  assumes "bucket_ok rl" "seen_before t rl" "t \<le> now" "now \<le> T"
    and enough: "burst rl \<le> rate rl * (ten_minutes div interval rl)"
  shows "allowance ip now T (cleanup now rl) \<le> allowance ip t T rl" "seen_before now (cleanup now rl)"
proof -
  have p: "0 < interval rl" "0 \<le> rate rl" using assms(1) by (auto simp: bucket_ok_def)
  show "seen_before now (cleanup now rl)"
    using assms(2,3) by (fastforce simp: seen_before_def cleanup_def split: option.splits if_splits)
  show "allowance ip now T (cleanup now rl) \<le> allowance ip t T rl"
  proof (cases "visitors rl ip")
    case None
    then show ?thesis using p assms(3)
      by (simp add: allowance_def cleanup_def mult_left_mono zdiv_mono1)
  next
    case (Some b)
    show ?thesis
    proof (cases "now - lastSeen b > ten_minutes")
      case True
      have "ten_minutes div interval rl + (T - now) div interval rl
          \<le> (now - lastSeen b) div interval rl + (T - now) div interval rl"
        using True p by (simp add: zdiv_mono1)
      also have "\<dots> \<le> (T - lastSeen b) div interval rl"
        using div_super_add [OF p(1), of "now - lastSeen b" "T - now"] by simp
      finally have "rate rl * (ten_minutes div interval rl + (T - now) div interval rl)
          \<le> rate rl * ((T - lastSeen b) div interval rl)"
        using p(2) by (rule mult_left_mono)
      moreover have "0 \<le> tokens b" using assms(1) Some by (auto simp: bucket_ok_def)
      ultimately show ?thesis using True Some enough
        by (simp add: allowance_def cleanup_def algebra_simps)
    next
      case False
      then show ?thesis using Some by (simp add: allowance_def cleanup_def)
    qed
  qed
qed

lemma tally_allowance:
  "bucket_ok rl \<Longrightarrow> seen_before t rl \<Longrightarrow> burst rl \<le> rate rl * (ten_minutes div interval rl) \<Longrightarrow>
   sorted (t # concat (map op_times ops) @ [T]) \<Longrightarrow>
   tally limiter_step (admitted ip) ops rl \<le> allowance ip t T rl"
proof (induction ops arbitrary: rl t)
  case Nil
  then have "0 \<le> T - t" "0 < interval rl" "0 \<le> rate rl" by (auto simp: bucket_ok_def)
  moreover have "0 \<le> (T - lastSeen b) div interval rl" if "visitors rl ip = Some b" for b
    using Nil that \<open>0 \<le> T - t\<close> \<open>0 < interval rl\<close> by (fastforce simp: seen_before_def pos_imp_zdiv_nonneg_iff)
  ultimately show ?case using Nil
    by (auto simp: allowance_def bucket_ok_def pos_imp_zdiv_nonneg_iff split: option.splits)
next
  case (Cons x ops)
  show ?case
  proof (cases x)
    case (Arrive now now' ip')
    note A = arrive_allowance [OF Cons.prems(1,2), of now now' T]
    have "tally limiter_step (admitted ip) ops (limiter_step x rl) \<le> allowance ip now' T (limiter_step x rl)"
      using Cons.prems Arrive A(2) by (intro Cons.IH) (auto simp: limiter_step_ok simp del: limiter_step.simps)
    then show ?thesis using A(1) [of ip ip'] Cons.prems(4) Arrive by (simp del: limiter_step.simps)
  next
    case (Cleanup now)
    note C = cleanup_allowance [OF Cons.prems(1,2), of now T, folded limiter_step.simps(2)]
    have "tally limiter_step (admitted ip) ops (limiter_step x rl) \<le> allowance ip now T (limiter_step x rl)"
      using Cons.prems Cleanup C(2) by (intro Cons.IH) (auto simp: limiter_step_ok simp del: limiter_step.simps)
    then show ?thesis using C(1) [of ip] Cons.prems Cleanup by (simp del: limiter_step.simps)
  qed
qed

text \<open>
  Property C10. The limiter holds its rate. For any history of arrivals and cleanup rounds from a fresh
  limiter, with a clock that never goes back, one address is admitted at most \<open>burst\<close> times plus
  \<open>rate\<close> for every full interval that has passed; the cleanup gives nothing away as long as ten minutes
  earn at least a burst, which the limits in use (10 and 20, 60 and 120 a minute) satisfy.
\<close>

theorem limiter_admission_bound:
  assumes "1 \<le> b" "0 \<le> r" "0 < i" "b \<le> r * (ten_minutes div i)"
    and "sorted (t # concat (map op_times ops) @ [T])"
  shows "tally limiter_step (admitted ip) ops (NewRateLimiter r b i tp) \<le> b + r * ((T - t) div i)"
proof -
  have "tally limiter_step (admitted ip) ops (NewRateLimiter r b i tp) \<le> allowance ip t T (NewRateLimiter r b i tp)"
    using assms by (intro tally_allowance) (auto simp: NewRateLimiter_def bucket_ok_def seen_before_def)
  then show ?thesis by (simp add: allowance_def NewRateLimiter_def)
qed

theorem limiter_admission_bound_witness:
  "tally limiter_step (admitted ''a'') (replicate 30 (Arrive 5 5 ''a'')) (NewRateLimiter 10 20 60000000000 False) \<le> 20"
proof -
  have e: "sorted (5 # concat (map op_times (replicate 30 (Arrive 5 5 ''a''))) @ [5])" by code_simp
  show ?thesis
    using limiter_admission_bound [of 20 10 60000000000 5 _ 5 "''a''" False, OF _ _ _ _ e] by (simp add: ten_minutes_def)
qed

end
