(* ===== verification/EventLog.thy ===== *)
theory EventLog
  imports Nodes Membership "HOL-Library.Sublist"
begin

text \<open>
  The two buffered logs: network events (src/internal/db/network_events.go) and the audit log
  (src/internal/db/audit.go). Both have a channel of capacity 1000 that drops on overflow and a flush
  that drains the channel in batches of 100, each batch one transaction. The flush is a step that
  drains what the channel holds. The locale \<open>batched_log\<close> states what such a log promises, and
  both stores are interpreted in it.
\<close>

section \<open>The contract\<close>

datatype ('e, 'f) log_op = Rec 'e | Flush 'f

primrec log_step :: "('e \<Rightarrow> 's \<Rightarrow> 's) \<Rightarrow> ('f \<Rightarrow> 's \<Rightarrow> 's) \<Rightarrow> ('e, 'f) log_op \<Rightarrow> 's \<Rightarrow> 's" where
  "log_step enq fl (Rec e) s = enq e s"
| "log_step enq fl (Flush f) s = fl f s"

fun recorded :: "('e, 'f) log_op list \<Rightarrow> 'e list" where
  "recorded [] = []"
| "recorded (Rec e # ops) = e # recorded ops"
| "recorded (Flush f # ops) = recorded ops"

text \<open>
  In the contract \<open>pending\<close> and \<open>stored\<close> are the entries in the channel and in the table, oldest
  first; \<open>clean f s\<close> says that a flush of \<open>s\<close> under the failures \<open>f\<close> meets none.
\<close>

locale batched_log =
  fixes enqueue :: "'e \<Rightarrow> 's \<Rightarrow> 's" and flush :: "'f \<Rightarrow> 's \<Rightarrow> 's"
    and pending :: "'s \<Rightarrow> 'e list" and stored :: "'s \<Rightarrow> 'e list"
    and cap :: nat and sz :: nat and clean :: "'f \<Rightarrow> 's \<Rightarrow> bool"
  assumes enqueue_stored: "stored (enqueue e s) = stored s"
    and enqueue_pending: "pending (enqueue e s) = (if length (pending s) < cap then pending s @ [e] else pending s)"
    and flush_pending: "pending (flush f s) = []"
    and flush_stored: "\<exists>bs kept. concat bs = pending s \<and> (\<forall>b \<in> set bs. length b \<le> sz) \<and> subseq kept bs
                        \<and> stored (flush f s) = stored s @ concat kept"
    and flush_clean: "clean f s \<Longrightarrow> stored (flush f s) = stored s @ pending s"
begin

lemma concat_subseq: "subseq kept bs \<Longrightarrow> subseq (concat kept) (concat bs)"
proof (induction rule: list_emb.induct)
  case (list_emb_Cons xs ys y)
  then show ?case by (simp add: list_emb_append2)
next
  case (list_emb_Cons2 x y xs ys)
  then show ?case by (simp add: list_emb_append_mono)
qed simp

lemma step_subseq:
  "subseq (stored (log_step enqueue flush x s) @ pending (log_step enqueue flush x s))
     ((stored s @ pending s) @ recorded [x])"
proof (cases x)
  case (Rec e)
  have "subseq (stored s @ pending s) ((stored s @ pending s) @ [e])" by (rule list_emb_prefix) simp
  then show ?thesis using Rec by (simp add: enqueue_stored enqueue_pending)
next
  case (Flush f)
  obtain bs kept where b: "concat bs = pending s" "subseq kept bs" "stored (flush f s) = stored s @ concat kept"
    using flush_stored by metis
  then have "subseq (concat kept) (pending s)" using concat_subseq by metis
  then show ?thesis using Flush b(3) by (simp add: flush_pending list_emb_append_mono)
qed

lemma pending_bound:
  "length (pending s) \<le> cap \<Longrightarrow> length (pending (run (log_step enqueue flush) ops s)) \<le> cap"
proof (induction ops arbitrary: s)
  case (Cons x ops)
  have "length (pending (log_step enqueue flush x s)) \<le> cap"
    using Cons.prems by (cases x) (auto simp: enqueue_pending flush_pending)
  then show ?case using Cons.IH by simp
qed simp

lemma recorded_Cons: "recorded (x # ops) = recorded [x] @ recorded ops"
  by (cases x) auto

lemma nothing_invented:
  "subseq (stored (run (log_step enqueue flush) ops s) @ pending (run (log_step enqueue flush) ops s))
     (stored s @ pending s @ recorded ops)"
proof (induction ops arbitrary: s)
  case (Cons x ops)
  let ?r = "run (log_step enqueue flush)" and ?s = "log_step enqueue flush x s"
  have "subseq (stored (?r (x # ops) s) @ pending (?r (x # ops) s)) ((stored ?s @ pending ?s) @ recorded ops)"
    using Cons [of ?s] by simp
  also have "subseq \<dots> (((stored s @ pending s) @ recorded [x]) @ recorded ops)"
    by (rule list_emb_append_mono [OF step_subseq]) simp
  finally show ?case by (simp add: recorded_Cons [of x ops])
qed simp

lemma flush_complete:
  "length (pending s) + length es \<le> cap \<Longrightarrow>
   clean f (run (log_step enqueue flush) (map Rec es) s) \<Longrightarrow>
   stored (run (log_step enqueue flush) (map Rec es @ [Flush f]) s) = stored s @ pending s @ es"
proof (induction es arbitrary: s)
  case Nil
  then show ?case by (simp add: flush_clean)
next
  case (Cons e es)
  then show ?case by (simp add: enqueue_stored enqueue_pending)
qed

end

section \<open>Draining a channel\<close>

text \<open>
  The loop of \<open>flush\<close>: \<open>batch\<close> has been read, \<open>buf\<close> is still in the channel, \<open>k\<close> numbers the calls of
  \<open>writeBatch\<close>.
\<close>

fun drain :: "nat \<Rightarrow> (nat \<Rightarrow> 'e list \<Rightarrow> 't \<Rightarrow> 't) \<Rightarrow> nat \<Rightarrow> 'e list \<Rightarrow> 'e list \<Rightarrow> 't \<Rightarrow> 't" where
  "drain sz wb k batch [] t = (if 0 < length batch then wb k batch t else t)"
| "drain sz wb k batch (x # buf) t =
     (if sz \<le> length (batch @ [x]) then drain sz wb (Suc k) [] buf (wb k (batch @ [x]) t)
      else drain sz wb k (batch @ [x]) buf t)"

lemma drain_batches:
  "(\<And>k b t. st (wb k b t) = st t \<or> st (wb k b t) = st t @ b) \<Longrightarrow> length batch < sz \<Longrightarrow>
    \<exists>bs kept. concat bs = batch @ buf \<and> (\<forall>b \<in> set bs. length b \<le> sz) \<and> subseq kept bs
      \<and> st (drain sz wb k batch buf t) = st t @ concat kept"
proof (induction sz wb k batch buf t rule: drain.induct)
  case (1 sz wb k batch t)
  show ?case
  proof (cases "batch = [] \<or> st (wb k batch t) = st t")
    case True
    then have "st (drain sz wb k batch [] t) = st t" by auto
    then show ?thesis using 1 by (intro exI [of _ "[batch]"] exI [of _ "[]"]) auto
  next
    case False
    then have "st (drain sz wb k batch [] t) = st t @ batch" using "1.prems"(1) [of k batch t] by auto
    then show ?thesis using 1 by (intro exI [of _ "[batch]"]) auto
  qed
next
  case (2 sz wb k batch x buf t)
  show ?case
  proof (cases "sz \<le> length (batch @ [x])")
    case False
    then have "length (batch @ [x]) < sz" by simp
    then obtain bs kept where "concat bs = (batch @ [x]) @ buf" "\<forall>b \<in> set bs. length b \<le> sz" "subseq kept bs"
        "st (drain sz wb k (batch @ [x]) buf t) = st t @ concat kept"
      using "2.IH"(2) [OF False "2.prems"(1)] by blast
    then show ?thesis using False by (intro exI [of _ bs] exI [of _ kept]) simp
  next
    case True
    then have len: "length (batch @ [x]) \<le> sz" using "2.prems"(2) by simp
    have "length ([] :: 'a list) < sz" using "2.prems"(2) by simp
    from "2.IH"(1) [OF True "2.prems"(1) this] obtain bs kept where
      b: "concat bs = buf" "\<forall>b \<in> set bs. length b \<le> sz" "subseq kept bs"
        "st (drain sz wb (Suc k) [] buf (wb k (batch @ [x]) t)) = st (wb k (batch @ [x]) t) @ concat kept"
      by auto
    consider "st (wb k (batch @ [x]) t) = st t" | "st (wb k (batch @ [x]) t) = st t @ batch @ [x]"
      using "2.prems"(1) by auto
    then show ?thesis
    proof cases
      case 1
      then show ?thesis using b len True
        by (intro exI [of _ "(batch @ [x]) # bs"] exI [of _ kept]) auto
    next
      case 2
      then show ?thesis using b len True
        by (intro exI [of _ "(batch @ [x]) # bs"] exI [of _ "(batch @ [x]) # kept"]) auto
    qed
  qed
qed

lemma drain_all:
  assumes "\<And>k b t rest. ok (st t @ b @ rest) \<Longrightarrow> st (wb k b t) = st t @ b"
  shows "ok (st t @ batch @ buf) \<Longrightarrow> st (drain sz wb k batch buf t) = st t @ batch @ buf"
  using assms
proof (induction sz wb k batch buf t rule: drain.induct)
  case (1 sz wb k batch t)
  then show ?case using "1.prems"(2) [of t batch "[]" k] by simp
next
  case (2 sz wb k batch x buf t)
  show ?case
  proof (cases "sz \<le> length (batch @ [x])")
    case True
    then have w: "st (wb k (batch @ [x]) t) = st t @ batch @ [x]"
      using "2.prems"(1) "2.prems"(2) [of t "batch @ [x]" buf k] by simp
    then show ?thesis using "2.IH"(1) [OF True] "2.prems" True by simp
  next
    case False
    then show ?thesis using "2.IH"(2) "2.prems" by simp
  qed
qed

section \<open>Network events\<close>

record EventParams =
  ev_network_id :: string
  ev_type :: string
  ev_target_id :: "string option"
  ev_status :: "string option"
  ev_details :: "string option"
  ev_created_at :: int

record EventRow = EventParams +
  ev_id :: int

text \<open>The table and the counter of its \<open>AUTOINCREMENT\<close> key.\<close>

type_synonym event_table = "EventRow list \<times> int"

definition InsertNetworkEvent :: "go_error option \<Rightarrow> EventParams \<Rightarrow> event_table \<Rightarrow> go_error option \<times> event_table" where
  "InsertNetworkEvent fault e t =
     (case fault of Some err \<Rightarrow> (Some err, t)
      | None \<Rightarrow> (None, (fst t @ [EventParams.extend e \<lparr>ev_id = snd t + 1\<rparr>], snd t + 1)))"

record NetworkEventStore =
  es_buf :: "EventParams list"
  es_table :: event_table

definition networkEventFlushSize :: nat where
  "networkEventFlushSize = 100"

definition networkEventBufCap :: nat where
  "networkEventBufCap = 1000"

definition NetworkEventStore_Record ::
  "int \<Rightarrow> string \<Rightarrow> string \<Rightarrow> string option \<Rightarrow> string option \<Rightarrow> string option \<Rightarrow> NetworkEventStore \<Rightarrow> NetworkEventStore" where
  "NetworkEventStore_Record now networkID eventType targetID status details s =
     (let entry = \<lparr>ev_network_id = networkID, ev_type = eventType, ev_target_id = targetID, ev_status = status,
                   ev_details = details, ev_created_at = now\<rparr>
      in if length (es_buf s) < networkEventBufCap then s\<lparr>es_buf := es_buf s @ [entry]\<rparr> else s)"

text \<open>The failures of one call of \<open>writeBatch\<close>: at the begin, at the insert of each entry, at the commit.\<close>

record batch_faults =
  bf_begin :: "go_error option"
  bf_insert :: "nat \<Rightarrow> go_error option"
  bf_commit :: "go_error option"

fun insert_events :: "(nat \<Rightarrow> go_error option) \<Rightarrow> nat \<Rightarrow> EventParams list \<Rightarrow> event_table \<Rightarrow> event_table option" where
  "insert_events fault i [] t = Some t"
| "insert_events fault i (e # batch) t =
     (case InsertNetworkEvent (fault i) e t of
        (Some err, t') \<Rightarrow> None | (None, t') \<Rightarrow> insert_events fault (Suc i) batch t')"

definition NetworkEventStore_writeBatch :: "batch_faults \<Rightarrow> EventParams list \<Rightarrow> event_table \<Rightarrow> event_table" where
  "NetworkEventStore_writeBatch f batch t =
     (case bf_begin f of Some e \<Rightarrow> t
      | None \<Rightarrow> (case insert_events (bf_insert f) 0 batch t of
                   None \<Rightarrow> t
                 | Some t' \<Rightarrow> (case bf_commit f of Some e \<Rightarrow> t | None \<Rightarrow> t')))"

definition NetworkEventStore_flush :: "(nat \<Rightarrow> batch_faults) \<Rightarrow> NetworkEventStore \<Rightarrow> NetworkEventStore" where
  "NetworkEventStore_flush f s =
     s\<lparr>es_buf := [], es_table := drain networkEventFlushSize (\<lambda>k. NetworkEventStore_writeBatch (f k)) 0 [] (es_buf s) (es_table s)\<rparr>"

text \<open>A negative \<open>LIMIT\<close> means no limit in SQLite.\<close>

definition limit_rows :: "int \<Rightarrow> 'r list \<Rightarrow> 'r list" where
  "limit_rows n rows = (if n < 0 then rows else take (nat n) rows)"

definition hostname_of :: "string option \<Rightarrow> nodes \<Rightarrow> string option" where
  "hostname_of target t =
     (case target of None \<Rightarrow> None | Some i \<Rightarrow> map_option d_hostname (find (\<lambda>r. d_id r = i) t))"

record NetworkEvent = EventRow +
  ev_target_hostname :: "string option"

definition ListNetworkEvents ::
  "go_error option \<Rightarrow> string \<Rightarrow> int \<Rightarrow> string option \<Rightarrow> int \<Rightarrow> nodes \<Rightarrow> event_table \<Rightarrow> NetworkEvent list res" where
  "ListNetworkEvents fault networkID since eventType lmt nodes t =
     query_many fault (limit_rows lmt
       (map (\<lambda>r. EventRow.extend r \<lparr>ev_target_hostname = hostname_of (ev_target_id r) nodes\<rparr>)
         (order_by (\<lambda>r. - ev_created_at r) (order_by (\<lambda>r. - ev_id r)
           (select_many (\<lambda>r. ev_network_id r = networkID \<and> since \<le> ev_created_at r
              \<and> (case eventType of None \<Rightarrow> True | Some ty \<Rightarrow> ev_type r = ty)) (fst t))))))"

definition NetworkEventStore_ListForNetwork ::
  "go_error option \<Rightarrow> string \<Rightarrow> int \<Rightarrow> string \<Rightarrow> int \<Rightarrow> nodes \<Rightarrow> NetworkEventStore \<Rightarrow> NetworkEvent list res" where
  "NetworkEventStore_ListForNetwork fault networkID since eventType lmt nodes s =
     ListNetworkEvents fault networkID since (if eventType \<noteq> [] then Some eventType else None) lmt nodes (es_table s)"

section \<open>The audit log\<close>

record AuditParams =
  a_id :: string
  a_user_id :: string
  a_node_id :: "string option"
  a_network_id :: "string option"
  a_action :: string
  a_details :: "string option"

record AuditRow = AuditParams +
  a_created_at :: int

definition audit_clash :: "AuditRow \<Rightarrow> AuditRow \<Rightarrow> bool" where
  "audit_clash x y \<longleftrightarrow> a_id x = a_id y"

definition InsertAuditEntry :: "go_error option \<Rightarrow> int \<Rightarrow> AuditParams \<Rightarrow> AuditRow list \<Rightarrow> go_error option \<times> AuditRow list" where
  "InsertAuditEntry fault now e t =
     exec fault t (insert_row audit_clash ''audit_log.id'' (AuditParams.extend e \<lparr>a_created_at = now\<rparr>) t)"

record AuditStore =
  as_buf :: "AuditParams list"
  as_rows :: "AuditRow list"

definition auditFlushSize :: nat where
  "auditFlushSize = 100"

definition auditBufCap :: nat where
  "auditBufCap = 1000"

definition AuditStore_Log ::
  "string \<Rightarrow> string \<Rightarrow> string \<Rightarrow> string option \<Rightarrow> string option \<Rightarrow> string option \<Rightarrow> AuditStore \<Rightarrow> AuditStore" where
  "AuditStore_Log ident userID action networkID nodeID details s =
     (let entry = \<lparr>a_id = ident, a_user_id = userID, a_node_id = nodeID, a_network_id = networkID,
                   a_action = action, a_details = details\<rparr>
      in if length (as_buf s) < auditBufCap then s\<lparr>as_buf := as_buf s @ [entry]\<rparr> else s)"

fun insert_audits ::
  "(nat \<Rightarrow> go_error option) \<Rightarrow> int \<Rightarrow> nat \<Rightarrow> AuditParams list \<Rightarrow> AuditRow list \<Rightarrow> AuditRow list option" where
  "insert_audits fault now i [] t = Some t"
| "insert_audits fault now i (e # batch) t =
     (case InsertAuditEntry (fault i) now e t of
        (Some err, t') \<Rightarrow> None | (None, t') \<Rightarrow> insert_audits fault now (Suc i) batch t')"

definition AuditStore_writeBatch :: "batch_faults \<Rightarrow> int \<Rightarrow> AuditParams list \<Rightarrow> AuditRow list \<Rightarrow> AuditRow list" where
  "AuditStore_writeBatch f now batch t =
     (case bf_begin f of Some e \<Rightarrow> t
      | None \<Rightarrow> (case insert_audits (bf_insert f) now 0 batch t of
                   None \<Rightarrow> t
                 | Some t' \<Rightarrow> (case bf_commit f of Some e \<Rightarrow> t | None \<Rightarrow> t')))"

definition AuditStore_flush :: "(nat \<Rightarrow> batch_faults) \<times> int \<Rightarrow> AuditStore \<Rightarrow> AuditStore" where
  "AuditStore_flush f s =
     s\<lparr>as_buf := [], as_rows := drain auditFlushSize (\<lambda>k. AuditStore_writeBatch (fst f k) (snd f)) 0 [] (as_buf s) (as_rows s)\<rparr>"

record AuditEntry = AuditRow +
  a_user_email :: "string option"
  a_user_name :: "string option"
  a_node_hostname :: "string option"

definition enrich :: "User list \<Rightarrow> nodes \<Rightarrow> AuditRow \<Rightarrow> AuditEntry" where
  "enrich users nodes r =
     (let u = find (\<lambda>u. u_id u = a_user_id r) users in
      AuditRow.extend r \<lparr>a_user_email = map_option u_email u, a_user_name = map_option u_name u,
        a_node_hostname = hostname_of (a_node_id r) nodes\<rparr>)"

definition ListAuditForNetwork ::
  "go_error option \<Rightarrow> string option \<Rightarrow> int \<Rightarrow> string option \<Rightarrow> int \<Rightarrow> User list \<Rightarrow> nodes \<Rightarrow> AuditRow list \<Rightarrow> AuditEntry list res" where
  "ListAuditForNetwork fault networkID since action lmt users nodes t =
     query_many fault (limit_rows lmt (map (enrich users nodes) (order_by (\<lambda>r. - a_created_at r)
       (select_many (\<lambda>r. networkID \<noteq> None \<and> a_network_id r = networkID \<and> since \<le> a_created_at r
          \<and> (case action of None \<Rightarrow> True | Some x \<Rightarrow> a_action r = x)) t))))"

definition ListAuditForUser ::
  "go_error option \<Rightarrow> string \<Rightarrow> int \<Rightarrow> string option \<Rightarrow> int \<Rightarrow> User list \<Rightarrow> nodes \<Rightarrow> AuditRow list \<Rightarrow> AuditEntry list res" where
  "ListAuditForUser fault userID since action lmt users nodes t =
     query_many fault (limit_rows lmt (map (enrich users nodes) (order_by (\<lambda>r. - a_created_at r)
       (select_many (\<lambda>r. a_user_id r = userID \<and> since \<le> a_created_at r
          \<and> (case action of None \<Rightarrow> True | Some x \<Rightarrow> a_action r = x)) t))))"

definition AuditStore_ListForNetwork ::
  "go_error option \<Rightarrow> string \<Rightarrow> int \<Rightarrow> string \<Rightarrow> int \<Rightarrow> User list \<Rightarrow> nodes \<Rightarrow> AuditStore \<Rightarrow> AuditEntry list res" where
  "AuditStore_ListForNetwork fault networkID since action lmt users nodes s =
     ListAuditForNetwork fault (Some networkID) since (if action \<noteq> [] then Some action else None) lmt users nodes (as_rows s)"

definition AuditStore_ListForUser ::
  "go_error option \<Rightarrow> string \<Rightarrow> int \<Rightarrow> string \<Rightarrow> int \<Rightarrow> User list \<Rightarrow> nodes \<Rightarrow> AuditStore \<Rightarrow> AuditEntry list res" where
  "AuditStore_ListForUser fault userID since action lmt users nodes s =
     ListAuditForUser fault userID since (if action \<noteq> [] then Some action else None) lmt users nodes (as_rows s)"

section \<open>Both stores keep the contract\<close>

lemma insert_events_Some:
  "insert_events fault i batch t = Some t' \<Longrightarrow>
     map EventParams.truncate (fst t') = map EventParams.truncate (fst t) @ batch"
proof (induction fault i batch t rule: insert_events.induct)
  case (2 fault i e batch t)
  then show ?case
    by (cases "fault i") (auto simp: InsertNetworkEvent_def EventParams.defs)
qed auto

lemma insert_events_clean: "(\<And>i. fault i = None) \<Longrightarrow> \<exists>t'. insert_events fault i batch t = Some t'"
  by (induction batch arbitrary: i t) (auto simp: InsertNetworkEvent_def)

lemma event_batch:
  "map EventParams.truncate (fst (NetworkEventStore_writeBatch f b t)) = map EventParams.truncate (fst t)
   \<or> map EventParams.truncate (fst (NetworkEventStore_writeBatch f b t)) = map EventParams.truncate (fst t) @ b"
proof (cases "insert_events (bf_insert f) 0 b t")
  case (Some t')
  with insert_events_Some [OF Some] show ?thesis
    by (simp add: NetworkEventStore_writeBatch_def split: option.splits)
qed (simp add: NetworkEventStore_writeBatch_def split: option.splits)

definition no_batch_faults :: "(nat \<Rightarrow> batch_faults) \<Rightarrow> bool" where
  "no_batch_faults f \<longleftrightarrow> (\<forall>k. bf_begin (f k) = None \<and> (\<forall>i. bf_insert (f k) i = None) \<and> bf_commit (f k) = None)"

lemma event_batch_clean:
  assumes "no_batch_faults f"
  shows "map EventParams.truncate (fst (NetworkEventStore_writeBatch (f k) b t)) = map EventParams.truncate (fst t) @ b"
proof -
  obtain t' where t': "insert_events (bf_insert (f k)) 0 b t = Some t'"
    using insert_events_clean [of "bf_insert (f k)" 0 b t] assms by (auto simp: no_batch_faults_def)
  from insert_events_Some [OF t'] show ?thesis
    using assms by (simp add: NetworkEventStore_writeBatch_def no_batch_faults_def t')
qed

text \<open>The call of \<open>Record\<close> that produces a given entry.\<close>

definition enqueue_event :: "EventParams \<Rightarrow> NetworkEventStore \<Rightarrow> NetworkEventStore" where
  "enqueue_event e s =
     NetworkEventStore_Record (ev_created_at e) (ev_network_id e) (ev_type e) (ev_target_id e) (ev_status e) (ev_details e) s"

definition events_stored :: "NetworkEventStore \<Rightarrow> EventParams list" where
  "events_stored s = map EventParams.truncate (fst (es_table s))"

interpretation evlog: batched_log enqueue_event NetworkEventStore_flush es_buf events_stored
  networkEventBufCap networkEventFlushSize "\<lambda>f s. no_batch_faults f"
proof
  fix e s f
  show "events_stored (enqueue_event e s) = events_stored s"
    by (simp add: enqueue_event_def events_stored_def NetworkEventStore_Record_def Let_def)
  show "es_buf (enqueue_event e s) = (if length (es_buf s) < networkEventBufCap then es_buf s @ [e] else es_buf s)"
    by (simp add: enqueue_event_def NetworkEventStore_Record_def Let_def)
  show "es_buf (NetworkEventStore_flush f s) = []" by (simp add: NetworkEventStore_flush_def)
  show "\<exists>bs kept. concat bs = es_buf s \<and> (\<forall>b \<in> set bs. length b \<le> networkEventFlushSize) \<and> subseq kept bs
          \<and> events_stored (NetworkEventStore_flush f s) = events_stored s @ concat kept"
    using drain_batches [of "\<lambda>t. map EventParams.truncate (fst t)" "\<lambda>k. NetworkEventStore_writeBatch (f k)" "[]"
        networkEventFlushSize "es_buf s" 0 "es_table s", OF event_batch]
    by (simp add: NetworkEventStore_flush_def events_stored_def networkEventFlushSize_def)
  show "events_stored (NetworkEventStore_flush f s) = events_stored s @ es_buf s" if "no_batch_faults f"
    using drain_all [of "\<lambda>_. True" "\<lambda>t. map EventParams.truncate (fst t)" "\<lambda>k. NetworkEventStore_writeBatch (f k)"
        "es_table s" "[]" "es_buf s" networkEventFlushSize 0] event_batch_clean [OF that]
    by (simp add: NetworkEventStore_flush_def events_stored_def)
qed

lemma insert_audits_Some:
  "insert_audits fault now i batch t = Some t' \<Longrightarrow>
     map AuditParams.truncate t' = map AuditParams.truncate t @ batch"
proof (induction fault now i batch t rule: insert_audits.induct)
  case (2 fault now i e batch t)
  then show ?case
    by (cases "fault i") (auto simp: InsertAuditEntry_def exec_def insert_row_def AuditParams.defs split: if_splits)
qed auto

lemma audit_record [simp]:
  "a_id (AuditParams.truncate r) = a_id r" "AuditParams.truncate (AuditParams.extend e x) = e"
  "a_id (AuditParams.extend e x) = a_id e"
  by (simp_all add: AuditParams.defs)

lemma insert_audits_clean:
  "(\<And>i. fault i = None) \<Longrightarrow> distinct (map a_id (map AuditParams.truncate t @ batch)) \<Longrightarrow>
     \<exists>t'. insert_audits fault now i batch t = Some t'"
proof (induction batch arbitrary: i t)
  case (Cons e batch)
  let ?r = "AuditParams.extend e \<lparr>a_created_at = now\<rparr>"
  have "\<forall>x \<in> set t. a_id x \<noteq> a_id e" using Cons.prems(2) by (auto simp: image_iff)
  then have "insert_row audit_clash ''audit_log.id'' ?r t = Inr (t @ [?r])"
    by (auto simp: insert_row_Inr audit_clash_def)
  moreover have "distinct (map a_id (map AuditParams.truncate (t @ [?r]) @ batch))" using Cons.prems(2) by simp
  ultimately show ?case
    using Cons.IH [OF Cons.prems(1), of "t @ [?r]"] Cons.prems(1) by (simp add: InsertAuditEntry_def exec_def)
qed simp

definition enqueue_audit :: "AuditParams \<Rightarrow> AuditStore \<Rightarrow> AuditStore" where
  "enqueue_audit e s =
     AuditStore_Log (a_id e) (a_user_id e) (a_action e) (a_network_id e) (a_node_id e) (a_details e) s"

definition audits_stored :: "AuditStore \<Rightarrow> AuditParams list" where
  "audits_stored s = map AuditParams.truncate (as_rows s)"

definition audit_clean :: "(nat \<Rightarrow> batch_faults) \<times> int \<Rightarrow> AuditStore \<Rightarrow> bool" where
  "audit_clean f s \<longleftrightarrow> no_batch_faults (fst f) \<and> distinct (map a_id (audits_stored s @ as_buf s))"

lemma audit_batch_clean:
  assumes "no_batch_faults f" "distinct (map a_id (map AuditParams.truncate t @ b @ rest))"
  shows "map AuditParams.truncate (AuditStore_writeBatch (f k) now b t) = map AuditParams.truncate t @ b"
proof -
  have "distinct (map a_id (map AuditParams.truncate t @ b))" using assms(2) by auto
  then obtain t' where "insert_audits (bf_insert (f k)) now 0 b t = Some t'"
    using insert_audits_clean [of "bf_insert (f k)" t b now 0] assms(1) by (auto simp: no_batch_faults_def)
  then show ?thesis
    using assms(1) insert_audits_Some by (simp add: AuditStore_writeBatch_def no_batch_faults_def)
qed

interpretation aulog: batched_log enqueue_audit AuditStore_flush as_buf audits_stored
  auditBufCap auditFlushSize audit_clean
proof
  fix e s f
  show "audits_stored (enqueue_audit e s) = audits_stored s"
    by (simp add: enqueue_audit_def audits_stored_def AuditStore_Log_def Let_def)
  show "as_buf (enqueue_audit e s) = (if length (as_buf s) < auditBufCap then as_buf s @ [e] else as_buf s)"
    by (simp add: enqueue_audit_def AuditStore_Log_def Let_def)
  show "as_buf (AuditStore_flush f s) = []" by (simp add: AuditStore_flush_def)
  have "map AuditParams.truncate (AuditStore_writeBatch g now b t) = map AuditParams.truncate t
      \<or> map AuditParams.truncate (AuditStore_writeBatch g now b t) = map AuditParams.truncate t @ b" for g now b t
    by (auto simp: AuditStore_writeBatch_def insert_audits_Some split: option.splits)
  from drain_batches [of "map AuditParams.truncate" "\<lambda>k. AuditStore_writeBatch (fst f k) (snd f)" "[]"
        auditFlushSize "as_buf s" 0 "as_rows s", OF this]
  show "\<exists>bs kept. concat bs = as_buf s \<and> (\<forall>b \<in> set bs. length b \<le> auditFlushSize) \<and> subseq kept bs
          \<and> audits_stored (AuditStore_flush f s) = audits_stored s @ concat kept"
    by (simp add: AuditStore_flush_def audits_stored_def auditFlushSize_def)
  show "audits_stored (AuditStore_flush f s) = audits_stored s @ as_buf s" if "audit_clean f s"
  proof -
    have "map AuditParams.truncate (drain auditFlushSize (\<lambda>k. AuditStore_writeBatch (fst f k) (snd f)) 0 [] (as_buf s) (as_rows s))
        = map AuditParams.truncate (as_rows s) @ [] @ as_buf s"
    proof (rule drain_all [where ok = "\<lambda>es. distinct (map a_id es)"])
      show "map AuditParams.truncate (AuditStore_writeBatch (fst f k) (snd f) b t) = map AuditParams.truncate t @ b"
        if "distinct (map a_id (map AuditParams.truncate t @ b @ rest))" for k b t rest
        using audit_batch_clean [OF _ that] \<open>audit_clean f s\<close> by (simp add: audit_clean_def)
      show "distinct (map a_id (map AuditParams.truncate (as_rows s) @ [] @ as_buf s))"
        using that by (simp add: audit_clean_def audits_stored_def)
    qed
    then show ?thesis by (simp add: AuditStore_flush_def audits_stored_def)
  qed
qed

section \<open>Properties\<close>

text \<open>
  The event log invents nothing. After any sequence of \<open>Record\<close> calls and flushes, with
  any failures in between, the stored events followed by the buffered ones are the earlier ones followed
  by the recorded ones with possibly some left out: no event appears twice, none appears that was not
  recorded, and their order is kept. The channel never holds more than its capacity.
\<close>

theorem event_log_faithful:
  fixes ops :: "(EventParams, nat \<Rightarrow> batch_faults) log_op list"
  assumes "length (es_buf s) \<le> networkEventBufCap"
  shows "subseq (events_stored (run (log_step enqueue_event NetworkEventStore_flush) ops s)
                 @ es_buf (run (log_step enqueue_event NetworkEventStore_flush) ops s))
           (events_stored s @ es_buf s @ recorded ops)
       \<and> length (es_buf (run (log_step enqueue_event NetworkEventStore_flush) ops s)) \<le> networkEventBufCap"
  using evlog.nothing_invented [of ops s] evlog.pending_bound [OF assms, of ops] by blast

definition sample_event :: EventParams where
  "sample_event = \<lparr>ev_network_id = ''n1'', ev_type = ''node.status'', ev_target_id = Some ''d1'',
     ev_status = Some ''online'', ev_details = None, ev_created_at = 7\<rparr>"

definition clean_batch :: batch_faults where
  "clean_batch = \<lparr>bf_begin = None, bf_insert = (\<lambda>_. None), bf_commit = None\<rparr>"

theorem event_log_faithful_witness:
  "length (es_buf (run (log_step enqueue_event NetworkEventStore_flush)
       [Rec sample_event, Flush (\<lambda>_. clean_batch), Rec sample_event] \<lparr>es_buf = [], es_table = ([], 0)\<rparr>)) = 1
   \<and> subseq (events_stored (run (log_step enqueue_event NetworkEventStore_flush)
         [Rec sample_event, Flush (\<lambda>_. clean_batch), Rec sample_event] \<lparr>es_buf = [], es_table = ([], 0)\<rparr>)
       @ es_buf (run (log_step enqueue_event NetworkEventStore_flush)
         [Rec sample_event, Flush (\<lambda>_. clean_batch), Rec sample_event] \<lparr>es_buf = [], es_table = ([], 0)\<rparr>))
       (events_stored \<lparr>es_buf = [], es_table = ([], 0)\<rparr> @ [] @ [sample_event, sample_event])"
proof
  show "length (es_buf (run (log_step enqueue_event NetworkEventStore_flush)
       [Rec sample_event, Flush (\<lambda>_. clean_batch), Rec sample_event] \<lparr>es_buf = [], es_table = ([], 0)\<rparr>)) = 1"
    by code_simp
  show "subseq (events_stored (run (log_step enqueue_event NetworkEventStore_flush)
         [Rec sample_event, Flush (\<lambda>_. clean_batch), Rec sample_event] \<lparr>es_buf = [], es_table = ([], 0)\<rparr>)
       @ es_buf (run (log_step enqueue_event NetworkEventStore_flush)
         [Rec sample_event, Flush (\<lambda>_. clean_batch), Rec sample_event] \<lparr>es_buf = [], es_table = ([], 0)\<rparr>))
       (events_stored \<lparr>es_buf = [], es_table = ([], 0)\<rparr> @ [] @ [sample_event, sample_event])"
    using event_log_faithful [of "\<lparr>es_buf = [], es_table = ([], 0)\<rparr>"
        "[Rec sample_event, Flush (\<lambda>_. clean_batch), Rec sample_event]"] by simp
qed

text \<open>
  Nothing recorded in the audit log is lost in normal operation. When the channel has room
  for the calls of \<open>Log\<close>, their identifiers are fresh and the database answers, the flush appends exactly
  those entries to the table, in order, whatever their number and thus the number of batches.
\<close>

theorem audit_flush_complete:
  assumes "length (as_buf s) + length es \<le> auditBufCap" "no_batch_faults f"
    and "distinct (map a_id (audits_stored s @ as_buf s @ es))"
  shows "audits_stored (run (log_step enqueue_audit AuditStore_flush) (map Rec es @ [Flush (f, now)]) s)
           = audits_stored s @ as_buf s @ es"
proof (rule aulog.flush_complete [OF assms(1)])
  have "audits_stored (run (log_step enqueue_audit AuditStore_flush) (map Rec es) s) = audits_stored s
      \<and> as_buf (run (log_step enqueue_audit AuditStore_flush) (map Rec es) s) = as_buf s @ es"
    using assms(1)
    by (induction es arbitrary: s) (auto simp: aulog.enqueue_stored aulog.enqueue_pending)
  then show "audit_clean (f, now) (run (log_step enqueue_audit AuditStore_flush) (map Rec es) s)"
    using assms(2,3) by (simp add: audit_clean_def)
qed

definition sample_audit :: "nat \<Rightarrow> AuditParams" where
  "sample_audit n = \<lparr>a_id = itoa n, a_user_id = ''u1'', a_node_id = None, a_network_id = Some ''n1'',
     a_action = ''network.create'', a_details = None\<rparr>"

theorem audit_flush_complete_witness:
  "audits_stored (run (log_step enqueue_audit AuditStore_flush)
     (map Rec (map sample_audit [0..<250]) @ [Flush ((\<lambda>_. clean_batch), 9)]) \<lparr>as_buf = [], as_rows = []\<rparr>)
   = map sample_audit [0..<250]"
proof -
  have "distinct (map a_id (map sample_audit [0..<250]))"
    by (simp add: sample_audit_def comp_def distinct_map inj_on_def)
  then show ?thesis
    using audit_flush_complete [of "\<lparr>as_buf = [], as_rows = []\<rparr>" "map sample_audit [0..<250]" "\<lambda>_. clean_batch" 9]
    by (simp add: auditBufCap_def no_batch_faults_def clean_batch_def audits_stored_def)
qed

end
