(* ===== verification/NetIP.thy ===== *)
theory NetIP
  imports Subnet Crypto
begin

text \<open>
  \<open>net.ParseIP\<close> of the Go library, which the handlers use to check an address: a dotted quad, or an
  IPv6 address in any of its forms (with \<open>::\<close>, with a trailing dotted quad) without a zone. The first
  \<open>.\<close> or \<open>:\<close> decides between the two.
\<close>

text \<open>A \<open>net.IP\<close>: an IPv4 address, or an address without a four-byte form.\<close>

datatype net_ip = IP4 ipv4 | IP6 string

fun To4 :: "net_ip \<Rightarrow> ipv4 option" where
  "To4 (IP4 a) = Some a"
| "To4 (IP6 b) = None"

definition is_hex :: "char \<Rightarrow> bool" where
  "is_hex c \<longleftrightarrow> hex_value c \<noteq> None"

definition hex_val :: "string \<Rightarrow> nat" where
  "hex_val s = foldl (\<lambda>acc c. 16 * acc + (case hex_value c of None \<Rightarrow> 0 | Some v \<Rightarrow> v)) 0 s"

definition quad_bytes :: "ipv4 \<Rightarrow> string" where
  "quad_bytes a = (case a of (p, q, r, s) \<Rightarrow> map (\<lambda>w. char_of (unat w)) [p, q, r, s])"

text \<open>
  The loop over the groups: \<open>n\<close> bounds the iterations, \<open>ip\<close> are the bytes so far, \<open>ell\<close> the position of
  \<open>::\<close>. The result is the bytes, the position and the unread rest.
\<close>

fun v6_groups :: "nat \<Rightarrow> string \<Rightarrow> nat option \<Rightarrow> string \<Rightarrow> (string \<times> nat option \<times> string) option" where
  "v6_groups 0 ip ell s = Some (ip, ell, s)"
| "v6_groups (Suc n) ip ell s =
     (let ds = takeWhile is_hex s; rest = dropWhile is_hex s in
      if ds = [] \<or> 4 < length ds then None
      else if rest \<noteq> [] \<and> hd rest = CHR ''.'' then
        (if ell = None \<and> length ip \<noteq> 12 then None
         else if 12 < length ip then None
         else case ParseAddr s of None \<Rightarrow> None | Some a \<Rightarrow> Some (ip @ quad_bytes a, ell, []))
      else
        let ip = ip @ [char_of (hex_val ds div 256), char_of (hex_val ds mod 256)] in
        case rest of
          [] \<Rightarrow> Some (ip, ell, [])
        | c # r \<Rightarrow>
            if c \<noteq> CHR '':'' \<or> r = [] then None
            else if hd r = CHR '':'' then
              (if ell \<noteq> None then None
               else if tl r = [] then Some (ip, Some (length ip), [])
               else v6_groups n ip (Some (length ip)) (tl r))
            else v6_groups n ip ell r)"

definition parseIPv6 :: "string \<Rightarrow> string option" where
  "parseIPv6 s =
     (if HasPrefix s ''::'' \<and> length s = 2 then Some (replicate 16 (CHR 0x00))
      else case (if HasPrefix s ''::'' then v6_groups 8 [] (Some 0) (drop 2 s) else v6_groups 8 [] None s) of
        None \<Rightarrow> None
      | Some (ip, ell, rest) \<Rightarrow>
          if rest \<noteq> [] then None
          else if length ip < 16 then
            (case ell of None \<Rightarrow> None
             | Some k \<Rightarrow> Some (take k ip @ replicate (16 - length ip) (CHR 0x00) @ drop k ip))
          else if ell \<noteq> None then None else Some ip)"

text \<open>An IPv4-mapped address has a four-byte form.\<close>

definition from16 :: "string \<Rightarrow> net_ip" where
  "from16 b =
     (if take 12 b = replicate 10 (CHR 0x00) @ [CHR 0xFF, CHR 0xFF]
      then (case map (\<lambda>c. of_nat (of_char c) :: 8 word) (drop 12 b) of
              [p, q, r, s] \<Rightarrow> IP4 (p, q, r, s) | _ \<Rightarrow> IP6 b)
      else IP6 b)"

definition ParseIP :: "string \<Rightarrow> net_ip option" where
  "ParseIP s =
     (case dropWhile (\<lambda>c. c \<notin> {CHR ''.'', CHR '':'', CHR ''%''}) s of
        [] \<Rightarrow> None
      | c # r \<Rightarrow>
          if c = CHR ''.'' then map_option IP4 (ParseAddr s)
          else if c = CHR '':'' \<and> CHR ''%'' \<notin> set s then map_option from16 (parseIPv6 s)
          else None)"

text \<open>The address of \<open>net.ParseCIDR\<close>; \<open>None\<close> for its error.\<close>

definition ParseCIDR :: "string \<Rightarrow> net_ip option" where
  "ParseCIDR s =
     (if CHR ''/'' \<notin> set s then None
      else
        let addr = before CHR ''/'' s; mask = drop (length addr + 1) s in
        case ParseIP addr of
          None \<Rightarrow> None
        | Some ip \<Rightarrow>
            if mask \<noteq> [] \<and> list_all is_digit mask \<and> dec_val mask \<le> (if CHR '':'' \<in> set addr then 128 else 32)
            then Some ip else None)"

text \<open>\<open>net.IP.String\<close>: IPv6 without leading zeros, the first longest run of at least two zero groups as \<open>::\<close>.\<close>

fun hex_text :: "nat \<Rightarrow> string" where
  "hex_text n = (if n < 16 then [hex_digit n] else hex_text (n div 16) @ [hex_digit (n mod 16)])"

fun groups_of :: "string \<Rightarrow> nat list" where
  "groups_of (a # b # s) = (256 * of_char a + of_char b) # groups_of s"
| "groups_of s = []"

definition zero_run :: "nat list \<Rightarrow> nat \<times> nat" where
  "zero_run gs =
     foldl (\<lambda>(z0, z1) i. let l = length (takeWhile ((=) 0) (drop i gs)) in if l \<ge> 2 \<and> l > z1 - z0 then (i, i + l) else (z0, z1))
       (255, 255) [0..<length gs]"

fun join_colon :: "string list \<Rightarrow> string" where
  "join_colon [] = []"
| "join_colon [x] = x"
| "join_colon (x # y # ys) = x @ '':'' @ join_colon (y # ys)"

definition ip_string :: "net_ip \<Rightarrow> string" where
  "ip_string ip =
     (case ip of
        IP4 a \<Rightarrow> addr_string a
      | IP6 b \<Rightarrow>
          let gs = groups_of b in
          case zero_run gs of (z0, z1) \<Rightarrow>
            if z0 = 255 then join_colon (map hex_text gs)
            else join_colon (map hex_text (take z0 gs)) @ ''::'' @ join_colon (map hex_text (drop z1 gs)))"

section \<open>Facts\<close>

lemma v6_groups_length:
  "v6_groups n ip ell s = Some (ip', ell', r) \<Longrightarrow> length ip + 2 * n = 16 \<Longrightarrow> length ip' \<le> 16"
proof (induction n ip ell s rule: v6_groups.induct)
  case (2 n ip ell s)
  then show ?case
    by (auto simp: Let_def quad_bytes_def split: if_splits option.splits list.splits prod.splits)
qed simp

lemma parseIPv6_length: "parseIPv6 s = Some b \<Longrightarrow> length b = 16"
proof -
  assume b: "parseIPv6 s = Some b"
  have "length ip \<le> 16" if "v6_groups 8 [] e t = Some (ip, ell, r)" for e t ip ell r
    using v6_groups_length [OF that] by simp
  then show "length b = 16"
    using b by (fastforce simp: parseIPv6_def split: if_splits option.splits)
qed

lemma addr_string_dot:
  "dropWhile (\<lambda>c. c \<notin> {CHR ''.'', CHR '':'', CHR ''%''}) (itoa n @ CHR ''.'' # s) = CHR ''.'' # s"
  by (rule dropWhile_append2 [THEN trans])
    (auto dest!: itoa_digits [unfolded list_all_iff, rule_format] simp: is_digit_def)

end
