(* ===== verification/Resources.thy ===== *)
theory Resources
  imports Tables NetIP
begin

text \<open>
  Enrollment bundles and custom DNS records (src/internal/db/bundles.go, dns_records.go and their
  generated queries), and the per-network DNS responder that serves the records
  (src/internal/mesh/dns.go).
\<close>

section \<open>Enrollment bundles\<close>

record EnrollmentBundle =
  b_id :: string
  b_node_id :: string
  b_token :: string
  b_downloaded :: int
  b_expires_at :: int
  b_created_at :: int

type_synonym bundles = "EnrollmentBundle list"

definition bundle_clash :: "EnrollmentBundle \<Rightarrow> EnrollmentBundle \<Rightarrow> bool" where
  "bundle_clash x y \<longleftrightarrow> b_id x = b_id y \<or> b_token x = b_token y"

definition InsertBundle ::
  "go_error option \<Rightarrow> int \<Rightarrow> string \<Rightarrow> string \<Rightarrow> string \<Rightarrow> int \<Rightarrow> bundles \<Rightarrow> go_error option \<times> bundles" where
  "InsertBundle fault now ident nodeID token expiresAt t =
     exec fault t (insert_row bundle_clash ''enrollment_bundles''
       \<lparr>b_id = ident, b_node_id = nodeID, b_token = token, b_downloaded = 0, b_expires_at = expiresAt,
        b_created_at = now\<rparr> t)"

definition GetBundleByToken :: "go_error option \<Rightarrow> string \<Rightarrow> int \<Rightarrow> bundles \<Rightarrow> EnrollmentBundle res" where
  "GetBundleByToken fault token now t =
     query_one fault (\<lambda>r. b_token r = token \<and> b_downloaded r = 0 \<and> b_expires_at r > now) t"

definition MarkBundleDownloaded :: "go_error option \<Rightarrow> string \<Rightarrow> bundles \<Rightarrow> go_error option \<times> bundles" where
  "MarkBundleDownloaded fault ident t =
     exec fault t (Inr (update_where (\<lambda>r. b_id r = ident) (\<lambda>r. r\<lparr>b_downloaded := 1\<rparr>) t))"

definition DeleteExpiredBundles :: "go_error option \<Rightarrow> int \<Rightarrow> bundles \<Rightarrow> go_error option \<times> bundles" where
  "DeleteExpiredBundles fault now t = exec fault t (Inr (delete_where (\<lambda>r. b_expires_at r < now) t))"

definition hashBundleToken :: "(string \<Rightarrow> string) \<Rightarrow> string \<Rightarrow> string" where
  "hashBundleToken sha token = EncodeToString (sha token)"

definition bundleTTL :: int where
  "bundleTTL = 15 * 60"

text \<open>\<open>random\<close> is what \<open>rand.Read\<close> returned for the 32 bytes of the token.\<close>

definition BundleStore_Create ::
  "(string \<Rightarrow> string) \<Rightarrow> string res \<Rightarrow> go_error option \<Rightarrow> int \<Rightarrow> string \<Rightarrow> string \<Rightarrow> bundles
     \<Rightarrow> EnrollmentBundle res \<times> bundles" where
  "BundleStore_Create sha random fault now ident nodeID t =
     (case random of
        Inl e \<Rightarrow> (Inl (ErrWrap ''generate download token'' e), t)
      | Inr tokenBytes \<Rightarrow>
          let token = EncodeToString tokenBytes;
              b = \<lparr>b_id = ident, b_node_id = nodeID, b_token = token, b_downloaded = 0,
                   b_expires_at = now + bundleTTL, b_created_at = 0\<rparr>
          in case InsertBundle fault now (b_id b) (b_node_id b) (hashBundleToken sha token) (b_expires_at b) t of
               (Some e, t') \<Rightarrow> (Inl (ErrWrap ''create bundle'' e), t')
             | (None, t') \<Rightarrow> (Inr b, t'))"

definition ClaimByToken ::
  "(string \<Rightarrow> string) \<Rightarrow> (string \<Rightarrow> go_error option) \<Rightarrow> int \<Rightarrow> string \<Rightarrow> bundles
     \<Rightarrow> EnrollmentBundle option res \<times> bundles" where
  "ClaimByToken sha fault now token t =
     (case fault ''begin'' of
        Some e \<Rightarrow> (Inl e, t)
      | None \<Rightarrow>
          (case GetBundleByToken (fault ''query'') (hashBundleToken sha token) now t of
             Inl e \<Rightarrow> (if is_no_rows e then (Inr None, t) else (Inl (ErrWrap ''get bundle'' e), t))
           | Inr row \<Rightarrow>
               (case MarkBundleDownloaded (fault ''exec'') (b_id row) t of
                  (Some e, t') \<Rightarrow> (Inl (ErrWrap ''mark downloaded'' e), t)
                | (None, t') \<Rightarrow>
                    (case fault ''commit'' of
                       Some e \<Rightarrow> (Inl e, t)
                     | None \<Rightarrow> (Inr (Some row), t')))))"

definition BundleStore_DeleteExpired :: "go_error option \<Rightarrow> int \<Rightarrow> bundles \<Rightarrow> go_error option \<times> bundles" where
  "BundleStore_DeleteExpired fault now t = DeleteExpiredBundles fault now t"

section \<open>DNS records\<close>

record DNSRecord =
  r_id :: string
  r_network_id :: string
  r_name :: string
  r_ip :: string
  r_created_at :: int

type_synonym dns_records = "DNSRecord list"

definition dns_clash :: "DNSRecord \<Rightarrow> DNSRecord \<Rightarrow> bool" where
  "dns_clash x y \<longleftrightarrow> r_id x = r_id y \<or> (r_network_id x = r_network_id y \<and> r_name x = r_name y)"

definition InsertDNSRecord ::
  "go_error option \<Rightarrow> int \<Rightarrow> string \<Rightarrow> string \<Rightarrow> string \<Rightarrow> string \<Rightarrow> dns_records \<Rightarrow> go_error option \<times> dns_records" where
  "InsertDNSRecord fault now ident networkID name ip t =
     exec fault t (insert_row dns_clash ''dns_records''
       \<lparr>r_id = ident, r_network_id = networkID, r_name = name, r_ip = ip, r_created_at = now\<rparr> t)"

text \<open>\<open>ORDER BY name\<close>: bytewise order of the text.\<close>

fun text_le :: "string \<Rightarrow> string \<Rightarrow> bool" where
  "text_le [] t = True"
| "text_le (a # s) [] = False"
| "text_le (a # s) (b # t) =
     ((of_char a :: nat) < of_char b \<or> (a = b \<and> text_le s t))"

fun insert_by_name :: "DNSRecord \<Rightarrow> dns_records \<Rightarrow> dns_records" where
  "insert_by_name r [] = [r]"
| "insert_by_name r (x # xs) = (if text_le (r_name r) (r_name x) then r # x # xs else x # insert_by_name r xs)"

definition ListDNSRecordsForNetwork :: "go_error option \<Rightarrow> string \<Rightarrow> dns_records \<Rightarrow> DNSRecord list res" where
  "ListDNSRecordsForNetwork fault networkID t =
     query_many fault (foldr insert_by_name (select_many (\<lambda>r. r_network_id r = networkID) t) [])"

definition GetDNSRecord :: "go_error option \<Rightarrow> string \<Rightarrow> string \<Rightarrow> dns_records \<Rightarrow> DNSRecord res" where
  "GetDNSRecord fault ident networkID t = query_one fault (\<lambda>r. r_id r = ident \<and> r_network_id r = networkID) t"

definition DeleteDNSRecord :: "go_error option \<Rightarrow> string \<Rightarrow> string \<Rightarrow> dns_records \<Rightarrow> go_error option \<times> dns_records" where
  "DeleteDNSRecord fault ident networkID t =
     exec fault t (Inr (delete_where (\<lambda>r. r_id r = ident \<and> r_network_id r = networkID) t))"

definition DeleteDNSRecordsForNetwork :: "go_error option \<Rightarrow> string \<Rightarrow> dns_records \<Rightarrow> go_error option \<times> dns_records" where
  "DeleteDNSRecordsForNetwork fault networkID t = exec fault t (Inr (delete_where (\<lambda>r. r_network_id r = networkID) t))"

definition DNSRecordNameExists :: "go_error option \<Rightarrow> string \<Rightarrow> string \<Rightarrow> dns_records \<Rightarrow> int res" where
  "DNSRecordNameExists fault networkID name t =
     (case fault of Some e \<Rightarrow> Inl e
      | None \<Rightarrow> Inr (int (affected (\<lambda>r. r_network_id r = networkID \<and> r_name r = name) t)))"

definition DNSRecordStore_Create ::
  "go_error option \<Rightarrow> int \<Rightarrow> string \<Rightarrow> string \<Rightarrow> string \<Rightarrow> string \<Rightarrow> dns_records \<Rightarrow> go_error option \<times> dns_records" where
  "DNSRecordStore_Create fault now ident networkID name ip t = InsertDNSRecord fault now ident networkID name ip t"

definition DNSRecordStore_ListForNetwork :: "go_error option \<Rightarrow> string \<Rightarrow> dns_records \<Rightarrow> DNSRecord list res" where
  "DNSRecordStore_ListForNetwork fault networkID t = ListDNSRecordsForNetwork fault networkID t"

definition DNSRecordStore_Get :: "go_error option \<Rightarrow> string \<Rightarrow> string \<Rightarrow> dns_records \<Rightarrow> DNSRecord option res" where
  "DNSRecordStore_Get fault ident networkID t = or_nil ''get dns record'' id (GetDNSRecord fault ident networkID t)"

definition DNSRecordStore_Delete :: "go_error option \<Rightarrow> string \<Rightarrow> string \<Rightarrow> dns_records \<Rightarrow> go_error option \<times> dns_records" where
  "DNSRecordStore_Delete fault ident networkID t = DeleteDNSRecord fault ident networkID t"

definition DNSRecordStore_DeleteForNetwork :: "go_error option \<Rightarrow> string \<Rightarrow> dns_records \<Rightarrow> go_error option \<times> dns_records" where
  "DNSRecordStore_DeleteForNetwork fault networkID t = DeleteDNSRecordsForNetwork fault networkID t"

definition NameExists :: "go_error option \<Rightarrow> string \<Rightarrow> string \<Rightarrow> dns_records \<Rightarrow> bool" where
  "NameExists fault networkID name t =
     (case DNSRecordNameExists fault networkID name t of Inl e \<Rightarrow> False | Inr n \<Rightarrow> n > 0)"

section \<open>The DNS responder\<close>

record mesh_record =
  mr_name :: string
  mr_ip :: "net_ip option"

record MeshDNS =
  dns_domain :: string
  dns_port :: int
  dns_map :: "string \<rightharpoonup> net_ip option"

definition NewMeshDNS :: "int \<Rightarrow> string \<Rightarrow> MeshDNS" where
  "NewMeshDNS port domain = \<lparr>dns_domain = ToLower domain, dns_port = port, dns_map = Map.empty\<rparr>"

definition SetRecords :: "mesh_record list \<Rightarrow> MeshDNS \<Rightarrow> MeshDNS" where
  "SetRecords records d = d\<lparr>dns_map := foldl (\<lambda>m r. m(ToLower (mr_name r) \<mapsto> mr_ip r)) Map.empty records\<rparr>"

definition AddRecord :: "string \<Rightarrow> net_ip option \<Rightarrow> MeshDNS \<Rightarrow> MeshDNS" where
  "AddRecord name ip d = d\<lparr>dns_map := (dns_map d)(ToLower name \<mapsto> ip)\<rparr>"

definition RemoveRecord :: "string \<Rightarrow> MeshDNS \<Rightarrow> MeshDNS" where
  "RemoveRecord name d = d\<lparr>dns_map := (dns_map d)(ToLower name := None)\<rparr>"

text \<open>A missing key and a nil address are the same nil.\<close>

definition Resolve :: "string \<Rightarrow> MeshDNS \<Rightarrow> net_ip option" where
  "Resolve name d = (case dns_map d (ToLower name) of None \<Rightarrow> None | Some ip \<Rightarrow> ip)"

text \<open>\<open>dns.TypeA\<close> is 1; an answer is the queried name, the address and the TTL.\<close>

fun handleQuery :: "MeshDNS \<Rightarrow> (nat \<times> string) list \<Rightarrow> (string \<times> ipv4 \<times> nat) list" where
  "handleQuery d [] = []"
| "handleQuery d ((qtype, qname) # qs) =
     (if qtype \<noteq> 1 then handleQuery d qs
      else
        let fqdn = ToLower qname; suffix = ''.'' @ dns_domain d @ ''.'' in
        if \<not> HasSuffix fqdn suffix then handleQuery d qs
        else case Resolve (TrimSuffix fqdn suffix) d of
          None \<Rightarrow> handleQuery d qs
        | Some ip \<Rightarrow> (case To4 ip of None \<Rightarrow> handleQuery d qs | Some ip4 \<Rightarrow> (qname, ip4, 60) # handleQuery d qs))"

section \<open>A bundle is downloaded once\<close>

interpretation bundlet: keyed_table bundle_clash b_id
  by unfold_locales (auto simp: bundle_clash_def)

interpretation dnst: keyed_table dns_clash r_id
  by unfold_locales (auto simp: dns_clash_def)

datatype bundle_op =
    BdCreate "string res" "go_error option" int string string
  | BdClaim "string \<Rightarrow> go_error option" int string
  | BdSweep "go_error option" int

primrec bundle_step :: "(string \<Rightarrow> string) \<Rightarrow> bundle_op \<Rightarrow> bundles \<Rightarrow> bundles" where
  "bundle_step sha (BdCreate random fault now ident nodeID) t = snd (BundleStore_Create sha random fault now ident nodeID t)"
| "bundle_step sha (BdClaim fault now token) t = snd (ClaimByToken sha fault now token t)"
| "bundle_step sha (BdSweep fault now) t = snd (BundleStore_DeleteExpired fault now t)"

primrec bundle_claimed :: "(string \<Rightarrow> string) \<Rightarrow> bundle_op \<Rightarrow> bundles \<Rightarrow> string \<Rightarrow> bool" where
  "bundle_claimed sha (BdCreate random fault now ident nodeID) t h = False"
| "bundle_claimed sha (BdClaim fault now token) t h =
     (hashBundleToken sha token = h
      \<and> (case fst (ClaimByToken sha fault now token t) of Inr (Some b) \<Rightarrow> True | _ \<Rightarrow> False))"
| "bundle_claimed sha (BdSweep fault now) t h = False"

primrec bundle_issued :: "(string \<Rightarrow> string) \<Rightarrow> bundle_op \<Rightarrow> bundles \<Rightarrow> string \<Rightarrow> bool" where
  "bundle_issued sha (BdCreate random fault now ident nodeID) t h =
     (case fst (BundleStore_Create sha random fault now ident nodeID t) of
        Inl e \<Rightarrow> False | Inr b \<Rightarrow> hashBundleToken sha (b_token b) = h)"
| "bundle_issued sha (BdClaim fault now token) t h = False"
| "bundle_issued sha (BdSweep fault now) t h = False"

definition fresh_bundle :: "string \<Rightarrow> EnrollmentBundle \<Rightarrow> bool" where
  "fresh_bundle h r \<longleftrightarrow> b_token r = h \<and> b_downloaded r = 0"

definition mark_bundle :: "string \<Rightarrow> bundles \<Rightarrow> bundles" where
  "mark_bundle ident t = update_where (\<lambda>r. b_id r = ident) (\<lambda>r. r\<lparr>b_downloaded := 1\<rparr>) t"

lemma BundleStore_Create_outcome:
  assumes "BundleStore_Create sha random fault now ident nodeID t = (res, t')"
  shows "case res of
           Inl e \<Rightarrow> t' = t
         | Inr b \<Rightarrow> (\<exists>r. t' = t @ [r] \<and> (\<forall>x \<in> set t. \<not> bundle_clash r x) \<and> b_id r = ident \<and> b_node_id r = nodeID
             \<and> b_token r = hashBundleToken sha (b_token b) \<and> b_expires_at r = now + bundleTTL)"
  using assms
  by (auto simp: BundleStore_Create_def InsertBundle_def exec_def insert_row_Inr insert_row_Inl Let_def
      split: sum.splits option.splits prod.splits)

lemma ClaimByToken_outcome:
  assumes "ClaimByToken sha fault now token t = (res, t')"
  shows "case res of
           Inr (Some b) \<Rightarrow> b \<in> set t \<and> b_token b = hashBundleToken sha token \<and> b_downloaded b = 0
             \<and> b_expires_at b > now \<and> t' = mark_bundle (b_id b) t
         | _ \<Rightarrow> t' = t"
  using assms
  by (auto simp: ClaimByToken_def GetBundleByToken_def MarkBundleDownloaded_def exec_def mark_bundle_def
      dest!: query_one_Inr select_one_Inr split: sum.splits option.splits if_splits prod.splits)

lemma bundle_sweep_table:
  "snd (BundleStore_DeleteExpired fault now t) = (if fault = None then delete_where (\<lambda>r. b_expires_at r < now) t else t)"
  by (simp add: BundleStore_DeleteExpired_def DeleteExpiredBundles_def)

lemma bundle_step_clash_free:
  assumes "clash_free bundle_clash t"
  shows "clash_free bundle_clash (bundle_step sha x t)"
proof (cases x)
  case (BdCreate random fault now ident nodeID)
  obtain res t' where c: "BundleStore_Create sha random fault now ident nodeID t = (res, t')" by fastforce
  show ?thesis
    using BundleStore_Create_outcome [OF c] assms c BdCreate bundlet.clash_free_insert [of t "''''"]
    by (auto simp: insert_row_Inr split: sum.splits)
next
  case (BdClaim fault now token)
  obtain res t' where c: "ClaimByToken sha fault now token t = (res, t')" by fastforce
  have "clash_free bundle_clash (mark_bundle i t)" for i
    unfolding mark_bundle_def by (rule bundlet.clash_free_update [OF assms]) (auto simp: bundle_clash_def split: if_splits)
  then show ?thesis using ClaimByToken_outcome [OF c] assms c BdClaim by (auto split: sum.splits option.splits)
qed (use assms in \<open>auto simp: bundle_sweep_table intro: bundlet.clash_free_delete\<close>)

lemma mark_bundle_fresh:
  assumes "b \<in> set t" "b_token b = h" "b_downloaded b = 0"
  shows "affected (fresh_bundle h) (mark_bundle (b_id b) t) + 1 \<le> affected (fresh_bundle h) t"
    and "affected (fresh_bundle k) (mark_bundle (b_id b) t) \<le> affected (fresh_bundle k) t"
proof -
  let ?P = "\<lambda>r. b_id r = b_id b"
  have kill: "affected (fresh_bundle k) (mark_bundle (b_id b) t) = affected (\<lambda>r. fresh_bundle k r \<and> \<not> ?P r) t" for k
    unfolding mark_bundle_def by (rule affected_update_kill) (simp add: fresh_bundle_def)
  have "1 \<le> affected (\<lambda>r. fresh_bundle h r \<and> ?P r) t"
    by (rule affected_pos [OF assms(1)]) (use assms in \<open>simp add: fresh_bundle_def\<close>)
  then show "affected (fresh_bundle h) (mark_bundle (b_id b) t) + 1 \<le> affected (fresh_bundle h) t"
    using affected_split [of "fresh_bundle h" t ?P] kill [of h] by simp
  show "affected (fresh_bundle k) (mark_bundle (b_id b) t) \<le> affected (fresh_bundle k) t"
    using affected_split [of "fresh_bundle k" t ?P] kill [of k] by simp
qed

interpretation bdm: metered "bundle_step sha" "clash_free bundle_clash" "bundle_claimed sha"
  "\<lambda>x t h. if bundle_issued sha x t h then 1 else 0" "\<lambda>h t. enat (affected (fresh_bundle h) t)"
proof
  fix t x h
  show "clash_free bundle_clash t \<Longrightarrow> clash_free bundle_clash (bundle_step sha x t)" by (rule bundle_step_clash_free)
  show "enat (affected (fresh_bundle h) (bundle_step sha x t)) + 1 \<le> enat (affected (fresh_bundle h) t)"
    if "bundle_claimed sha x t h"
  proof (cases x)
    case (BdClaim fault now token)
    obtain res t' where c: "ClaimByToken sha fault now token t = (res, t')" by fastforce
    show ?thesis
      using ClaimByToken_outcome [OF c] c that BdClaim mark_bundle_fresh(1)
      by (auto simp: one_enat_def split: sum.splits option.splits)
  qed (use that in auto)
  show "enat (affected (fresh_bundle h) (bundle_step sha x t))
          \<le> enat (affected (fresh_bundle h) t) + (if bundle_issued sha x t h then 1 else 0)"
    if "\<not> bundle_claimed sha x t h"
  proof (cases x)
    case (BdCreate random fault now ident nodeID)
    obtain res t' where c: "BundleStore_Create sha random fault now ident nodeID t = (res, t')" by fastforce
    show ?thesis
      using BundleStore_Create_outcome [OF c] c BdCreate
      by (auto simp: one_enat_def fresh_bundle_def split: sum.splits)
  next
    case (BdClaim fault now token)
    obtain res t' where c: "ClaimByToken sha fault now token t = (res, t')" by fastforce
    show ?thesis
      using ClaimByToken_outcome [OF c] c BdClaim mark_bundle_fresh(2)
      by (auto split: sum.splits option.splits)
  qed (auto simp: bundle_sweep_table affected_delete_le)
qed

text \<open>
  An enrollment bundle is downloaded at most once: in any history of the bundle store,
  whatever fails, the successful claims of a download token are at most as many as the bundles
  created with it.
\<close>

theorem bundle_downloaded_once:
  "tally (bundle_step sha) (\<lambda>x t. if bundle_claimed sha x t h then 1 else 0) ops []
     \<le> (tally (bundle_step sha) (\<lambda>x t. if bundle_issued sha x t h then 1 else 0) ops [] :: nat)"
  using bdm.claims_bounded [of "[]" sha h ops]
    tally_enat [of "bundle_step sha" "\<lambda>x t. if bundle_issued sha x t h then 1 else 0" ops "[]"]
  by (simp add: if_distrib [of enat] one_enat_def zero_enat_def cong: if_cong)

section \<open>Resolution\<close>

lemma set_records_lookup:
  "foldl (\<lambda>m r. m(ToLower (mr_name r) \<mapsto> mr_ip r)) m rs k =
     (case find (\<lambda>r. ToLower (mr_name r) = k) (rev rs) of None \<Rightarrow> m k | Some r \<Rightarrow> Some (mr_ip r))"
  by (induction rs arbitrary: m) (auto simp: find_append split: option.splits)

lemma handleQuery_records:
  assumes "dns_domain d = ToLower dmn"
  shows "handleQuery (SetRecords rs d) [(1, host @ ''.'' @ dmn @ ''.'')] =
           (case find (\<lambda>r. ToLower (mr_name r) = ToLower host) (rev rs) of
              None \<Rightarrow> []
            | Some r \<Rightarrow> (case mr_ip r of None \<Rightarrow> []
                | Some ip \<Rightarrow> (case To4 ip of None \<Rightarrow> [] | Some a \<Rightarrow> [(host @ ''.'' @ dmn @ ''.'', a, 60)])))
       \<and> (\<not> HasSuffix (ToLower q) (''.'' @ ToLower dmn @ ''.'') \<longrightarrow> handleQuery (SetRecords rs d) [(1, q)] = [])"
proof -
  let ?d = "SetRecords rs d"
  have dot: "ToLower ''.'' = ''.''" by code_simp
  have domain: "dns_domain ?d = ToLower dmn" using assms by (simp add: SetRecords_def)
  have low: "ToLower (host @ ''.'' @ dmn @ ''.'') = ToLower host @ (''.'' @ ToLower dmn @ ''.'')"
    by (simp only: ToLower_append dot)
  have suf: "HasSuffix (ToLower (host @ ''.'' @ dmn @ ''.'')) (''.'' @ ToLower dmn @ ''.'')"
      "TrimSuffix (ToLower (host @ ''.'' @ dmn @ ''.'')) (''.'' @ ToLower dmn @ ''.'') = ToLower host"
    unfolding low by (rule HasSuffix_append, rule TrimSuffix_append)
  have res: "Resolve (ToLower host) ?d =
      (case find (\<lambda>r. ToLower (mr_name r) = ToLower host) (rev rs) of None \<Rightarrow> None | Some r \<Rightarrow> mr_ip r)"
    by (simp add: Resolve_def SetRecords_def set_records_lookup split: option.splits)
  have "handleQuery ?d [(1, host @ ''.'' @ dmn @ ''.'')] =
      (case Resolve (ToLower host) ?d of None \<Rightarrow> []
       | Some ip \<Rightarrow> (case To4 ip of None \<Rightarrow> [] | Some a \<Rightarrow> [(host @ ''.'' @ dmn @ ''.'', a, 60)]))"
    using suf unfolding handleQuery.simps Let_def domain by (simp only: simp_thms if_True if_False)
  moreover have "handleQuery ?d [(1, q)] = []" if "\<not> HasSuffix (ToLower q) (''.'' @ ToLower dmn @ ''.'')"
    using that unfolding handleQuery.simps Let_def domain by simp
  ultimately show ?thesis unfolding res by (auto split: option.splits)
qed

text \<open>
  The responder answers from the last record of a name. After \<open>SetRecords rs\<close>, an address
  query for \<open>host.domain.\<close>, in any letter case, is answered with the IPv4 address of the last
  record of \<open>rs\<close> whose name matches up to case, with a TTL of 60 and the name as it was asked; if
  there is none, or that record has no IPv4 address, the answer is empty, and so is the answer to
  a name outside the domain.
\<close>

theorem handleQuery_last_record:
  assumes "dns_domain d = ToLower dmn"
  shows "handleQuery (SetRecords rs d) [(1, host @ ''.'' @ dmn @ ''.'')] =
           (case find (\<lambda>r. ToLower (mr_name r) = ToLower host) (rev rs) of
              None \<Rightarrow> []
            | Some r \<Rightarrow> (case mr_ip r of None \<Rightarrow> []
                | Some ip \<Rightarrow> (case To4 ip of None \<Rightarrow> [] | Some a \<Rightarrow> [(host @ ''.'' @ dmn @ ''.'', a, 60)])))
       \<and> (\<not> HasSuffix (ToLower q) (''.'' @ ToLower dmn @ ''.'') \<longrightarrow> handleQuery (SetRecords rs d) [(1, q)] = [])"
  using assms by (rule handleQuery_records)

theorem handleQuery_last_record_witness:
  "handleQuery (SetRecords [\<lparr>mr_name = ''Web'', mr_ip = Some (IP4 (10, 42, 1, 2))\<rparr>,
                            \<lparr>mr_name = ''web'', mr_ip = Some (IP4 (10, 42, 1, 9))\<rparr>] (NewMeshDNS 5300 ''Zero''))
     [(1, ''WEB.zero.'')] = [(''WEB.zero.'', (10, 42, 1, 9), 60)]"
proof -
  have d: "dns_domain (NewMeshDNS 5300 ''Zero'') = ToLower ''zero''" by code_simp
  have f: "find (\<lambda>r. ToLower (mr_name r) = ToLower ''WEB'')
      (rev [\<lparr>mr_name = ''Web'', mr_ip = Some (IP4 (10, 42, 1, 2))\<rparr>, \<lparr>mr_name = ''web'', mr_ip = Some (IP4 (10, 42, 1, 9))\<rparr>])
      = Some \<lparr>mr_name = ''web'', mr_ip = Some (IP4 (10, 42, 1, 9))\<rparr>"
    by code_simp
  show ?thesis
    using handleQuery_last_record [OF d, of "[\<lparr>mr_name = ''Web'', mr_ip = Some (IP4 (10, 42, 1, 2))\<rparr>,
       \<lparr>mr_name = ''web'', mr_ip = Some (IP4 (10, 42, 1, 9))\<rparr>]" "''WEB''" "[]"] unfolding f by simp
qed

end
