(* ===== verification/Pki.thy ===== *)
theory Pki
  imports Subnet "HOL-Library.Countable"
begin

text \<open>
  Certificates (src/internal/pki/pki.go). Parsing, signing and printing certificates is Nebula's
  \<open>cert\<close> package and the key pairs are \<open>x/crypto\<close>; both are the record \<open>cert_lib\<close>, an argument of the
  definitions, with certificates and keys as opaque byte strings. \<open>cert_lib_ok\<close> collects what the
  code relies on: parsing undoes printing, and signing under a CA succeeds exactly when the CA's key
  is presented and the new certificate does not outlive the CA.
\<close>

record TBSCertificate =
  tbs_name :: string
  tbs_networks :: "prefix list"
  tbs_groups :: "string list"
  tbs_not_before :: int
  tbs_not_after :: int
  tbs_public_key :: string
  tbs_is_ca :: bool

record cert_lib =
  ed25519 :: "string \<Rightarrow> string \<times> string"
  x25519 :: "string \<Rightarrow> string"
  Sign :: "TBSCertificate \<Rightarrow> string option \<Rightarrow> string \<Rightarrow> string res"
  MarshalPEM :: "string \<Rightarrow> string res"
  UnmarshalCertificateFromPEM :: "string \<Rightarrow> string res"
  MarshalSigningPrivateKeyToPEM :: "string \<Rightarrow> string"
  UnmarshalSigningPrivateKeyFromPEM :: "string \<Rightarrow> string res"
  MarshalPrivateKeyToPEM :: "string \<Rightarrow> string"

record CertBundle =
  CertPEM :: string
  KeyPEM :: string

section \<open>The operations\<close>

text \<open>\<open>seed\<close> is what \<open>rand.Reader\<close> delivered; \<open>now\<close> and \<open>now'\<close> are the two readings of the clock.\<close>

definition GenerateCA :: "cert_lib \<Rightarrow> string res \<Rightarrow> int \<Rightarrow> int \<Rightarrow> string \<Rightarrow> int \<Rightarrow> CertBundle res" where
  "GenerateCA L seed now now' name duration =
     (case seed of
        Inl e \<Rightarrow> Inl (ErrWrap ''generate ed25519 key'' e)
      | Inr sd \<Rightarrow>
          (case ed25519 L sd of (pub, rawPriv) \<Rightarrow>
             let t = \<lparr>tbs_name = name, tbs_networks = [], tbs_groups = [], tbs_not_before = now,
                      tbs_not_after = now' + duration, tbs_public_key = pub, tbs_is_ca = True\<rparr>
             in case Sign L t None rawPriv of
                  Inl e \<Rightarrow> Inl (ErrWrap ''sign CA cert'' e)
                | Inr c \<Rightarrow>
                    (case MarshalPEM L c of
                       Inl e \<Rightarrow> Inl (ErrWrap ''marshal CA cert PEM'' e)
                     | Inr certPEM \<Rightarrow>
                         Inr \<lparr>CertPEM = certPEM, KeyPEM = MarshalSigningPrivateKeyToPEM L rawPriv\<rparr>)))"

definition IssueCert ::
  "cert_lib \<Rightarrow> string \<Rightarrow> int \<Rightarrow> int \<Rightarrow> string \<Rightarrow> string \<Rightarrow> string \<Rightarrow> prefix \<Rightarrow> string list \<Rightarrow> int \<Rightarrow> CertBundle res" where
  "IssueCert L priv now now' caCertPEM caKeyPEM name ip groups duration =
     (case UnmarshalCertificateFromPEM L caCertPEM of
        Inl e \<Rightarrow> Inl (ErrWrap ''parse CA cert'' e)
      | Inr caCert \<Rightarrow>
          (case UnmarshalSigningPrivateKeyFromPEM L caKeyPEM of
             Inl e \<Rightarrow> Inl (ErrWrap ''parse CA key'' e)
           | Inr caKey \<Rightarrow>
               let t = \<lparr>tbs_name = name, tbs_networks = [ip], tbs_groups = groups, tbs_not_before = now,
                        tbs_not_after = now' + duration, tbs_public_key = x25519 L priv, tbs_is_ca = False\<rparr>
               in case Sign L t (Some caCert) caKey of
                    Inl e \<Rightarrow> Inl (ErrWrap ''sign node cert'' e)
                  | Inr c \<Rightarrow>
                      (case MarshalPEM L c of
                         Inl e \<Rightarrow> Inl (ErrWrap ''marshal node cert PEM'' e)
                       | Inr certPEM \<Rightarrow> Inr \<lparr>CertPEM = certPEM, KeyPEM = MarshalPrivateKeyToPEM L priv\<rparr>)))"

section \<open>What the library promises\<close>

text \<open>
  \<open>details\<close> is what a signed certificate carries and \<open>signer\<close> the public key whose signature is on it.
\<close>

record cert_view =
  details :: "string \<Rightarrow> TBSCertificate"
  signed_by :: "string \<Rightarrow> string \<Rightarrow> bool"

definition cert_lib_ok :: "cert_lib \<Rightarrow> cert_view \<Rightarrow> bool" where
  "cert_lib_ok L V \<longleftrightarrow>
     (\<forall>c pem. MarshalPEM L c = Inr pem \<longrightarrow> UnmarshalCertificateFromPEM L pem = Inr c)
     \<and> (\<forall>k. UnmarshalSigningPrivateKeyFromPEM L (MarshalSigningPrivateKeyToPEM L k) = Inr k)
     \<and> (\<forall>t sd c. Sign L t None (snd (ed25519 L sd)) = Inr c \<longrightarrow>
          details V c = t \<and> signed_by V c (fst (ed25519 L sd)))
     \<and> (\<forall>t ca sd c. Sign L t (Some ca) (snd (ed25519 L sd)) = Inr c \<longrightarrow>
          details V c = t \<and> signed_by V c (fst (ed25519 L sd)))
     \<and> (\<forall>t ca sd. tbs_is_ca (details V ca) \<longrightarrow> tbs_public_key (details V ca) = fst (ed25519 L sd) \<longrightarrow>
          tbs_not_before (details V ca) \<le> tbs_not_before t \<longrightarrow> tbs_not_after t \<le> tbs_not_after (details V ca) \<longrightarrow>
          (\<exists>c. Sign L t (Some ca) (snd (ed25519 L sd)) = Inr c))
     \<and> (\<forall>c. \<exists>pem. MarshalPEM L c = Inr pem)"

lemma cert_lib_okD:
  assumes "cert_lib_ok L V"
  shows "MarshalPEM L c = Inr pem \<Longrightarrow> UnmarshalCertificateFromPEM L pem = Inr c"
    and "UnmarshalSigningPrivateKeyFromPEM L (MarshalSigningPrivateKeyToPEM L k) = Inr k"
    and "Sign L t s (snd (ed25519 L sd)) = Inr c \<Longrightarrow> details V c = t \<and> signed_by V c (fst (ed25519 L sd))"
    and "tbs_is_ca (details V ca) \<Longrightarrow> tbs_public_key (details V ca) = fst (ed25519 L sd) \<Longrightarrow>
         tbs_not_before (details V ca) \<le> tbs_not_before t \<Longrightarrow> tbs_not_after t \<le> tbs_not_after (details V ca) \<Longrightarrow>
         \<exists>c. Sign L t (Some ca) (snd (ed25519 L sd)) = Inr c"
    and "\<exists>pem. MarshalPEM L c = Inr pem"
  using assms unfolding cert_lib_ok_def by (blast, blast, (cases s; blast), blast, blast)


section \<open>A library that keeps the promises\<close>

text \<open>
  A certificate is written as a string whose length numbers the signer's key and the contents; a key
  pair is one string. This shows that the promises can be kept together.
\<close>

definition codes :: "string \<Rightarrow> nat list" where
  "codes s = map of_char s"

definition cert_number :: "string \<Rightarrow> TBSCertificate \<Rightarrow> nat" where
  "cert_number key t =
     to_nat (codes key, codes (tbs_name t),
       map (\<lambda>p. case Addr p of (a, b, c, d) \<Rightarrow> (unat a, unat b, unat c, unat d, Bits p)) (tbs_networks t),
       map codes (tbs_groups t), tbs_not_before t, tbs_not_after t, codes (tbs_public_key t), tbs_is_ca t)"

definition plain_certs :: cert_lib where
  "plain_certs = \<lparr>ed25519 = (\<lambda>s. (s, s)), x25519 = (\<lambda>s. s),
     Sign = (\<lambda>t ca key. Inr (replicate (cert_number key t) CHR ''c'')),
     MarshalPEM = Inr, UnmarshalCertificateFromPEM = Inr,
     MarshalSigningPrivateKeyToPEM = (\<lambda>s. s), UnmarshalSigningPrivateKeyFromPEM = Inr,
     MarshalPrivateKeyToPEM = (\<lambda>s. s)\<rparr>"

definition plain_view :: cert_view where
  "plain_view = \<lparr>details = (\<lambda>c. snd (inv (case_prod cert_number) (length c))),
     signed_by = (\<lambda>c key. fst (inv (case_prod cert_number) (length c)) = key)\<rparr>"

lemma inj_codes: "inj codes"
  by (auto simp: inj_def codes_def inj_map_eq_map [OF inj_of_char])

lemma inj_prefix:
  "inj (\<lambda>p :: prefix. case Addr p of (a, b, c, d) \<Rightarrow> (unat a, unat b, unat c, unat d, Bits p))"
  by (auto simp: inj_def split: prod.splits intro!: prefix.equality dest!: unsigned_word_eqI)

lemma inj_cert_number: "inj (case_prod cert_number)"
proof (rule injI, clarsimp simp: cert_number_def)
  fix k k' :: string and t t' :: TBSCertificate
  assume "codes k = codes k'" "codes (tbs_name t) = codes (tbs_name t')"
    and n: "map (\<lambda>p. case Addr p of (a, b, c, d) \<Rightarrow> (unat a, unat b, unat c, unat d, Bits p)) (tbs_networks t) =
         map (\<lambda>p. case Addr p of (a, b, c, d) \<Rightarrow> (unat a, unat b, unat c, unat d, Bits p)) (tbs_networks t')"
    and g: "map codes (tbs_groups t) = map codes (tbs_groups t')"
    and "tbs_not_before t = tbs_not_before t'" "tbs_not_after t = tbs_not_after t'"
      "codes (tbs_public_key t) = codes (tbs_public_key t')" "tbs_is_ca t = tbs_is_ca t'"
  then show "k = k' \<and> t = t'"
    using inj_map_eq_map [OF inj_prefix] inj_map_eq_map [OF inj_codes]
    by (auto dest: injD [OF inj_codes] intro: TBSCertificate.equality)
qed

lemma plain_certs_ok: "cert_lib_ok plain_certs plain_view"
  by (auto simp: cert_lib_ok_def plain_certs_def plain_view_def inv_f_f [OF inj_cert_number, of "(k, t)" for k t, simplified])


end
