(* ===== verification/Authz.thy ===== *)
theory Authz
  imports Accounts Membership Networks
begin

text \<open>
  Who may do what in a network (src/internal/authz/authz.go). A network row has an owner and
  membership rows; \<open>CheckAccess\<close> turns them into a role, and every handler asks for the right to view,
  to administer or to enroll.
\<close>

record Access =
  Role :: string

definition CheckAccess :: "UserProfile option \<Rightarrow> Network option \<Rightarrow> NetworkMember option \<Rightarrow> Access" where
  "CheckAccess user network membership =
     (case user of None \<Rightarrow> \<lparr>Role = []\<rparr>
      | Some u \<Rightarrow>
          (case network of None \<Rightarrow> \<lparr>Role = []\<rparr>
           | Some n \<Rightarrow>
               if n_user_id n = p_id u then \<lparr>Role = ''admin''\<rparr>
               else case membership of Some m \<Rightarrow> \<lparr>Role = m_role m\<rparr> | None \<Rightarrow> \<lparr>Role = []\<rparr>))"

definition CanView :: "Access \<Rightarrow> bool" where
  "CanView a \<longleftrightarrow> Role a \<noteq> []"

definition CanAdmin :: "Access \<Rightarrow> bool" where
  "CanAdmin a \<longleftrightarrow> Role a = ''admin''"

definition CanAccessNetwork :: "UserProfile option \<Rightarrow> Network option \<Rightarrow> bool" where
  "CanAccessNetwork user network =
     (case (user, network) of (Some u, Some n) \<Rightarrow> n_user_id n = p_id u | _ \<Rightarrow> False)"

definition CanEnrollNode :: "UserProfile option \<Rightarrow> Network option \<Rightarrow> NetworkMember option \<Rightarrow> bool" where
  "CanEnrollNode user network membership = CanView (CheckAccess user network membership)"

section \<open>The rights in terms of the stored rows\<close>

text \<open>\<open>membership, _ = h.Members.GetMembership(networkID, user.ID)\<close>: an error leaves a nil membership.\<close>

definition membership_of :: "go_error option \<Rightarrow> string \<Rightarrow> string \<Rightarrow> NetworkMember list \<Rightarrow> NetworkMember option" where
  "membership_of fault networkID userID t =
     (case GetMembership fault networkID userID t of Inl e \<Rightarrow> None | Inr m \<Rightarrow> Some m)"

text \<open>
  The rights a user has by the tables: the owner of the network row is an administrator; another user
  has the role of the membership row.
\<close>

definition owns :: "string \<Rightarrow> string \<Rightarrow> networks \<Rightarrow> bool" where
  "owns userID networkID nets \<longleftrightarrow> (\<exists>r \<in> set nets. nr_id r = networkID \<and> nr_user_id r = userID)"

definition has_role :: "string \<Rightarrow> string \<Rightarrow> string \<Rightarrow> NetworkMember list \<Rightarrow> bool" where
  "has_role userID networkID role members \<longleftrightarrow>
     (\<exists>m \<in> set members. m_network_id m = networkID \<and> m_user_id m = userID \<and> m_role m = role)"

definition may_view :: "string \<Rightarrow> string \<Rightarrow> networks \<Rightarrow> NetworkMember list \<Rightarrow> bool" where
  "may_view userID networkID nets members \<longleftrightarrow>
     (\<exists>r \<in> set nets. nr_id r = networkID)
     \<and> (owns userID networkID nets \<or> (\<exists>role. role \<noteq> [] \<and> has_role userID networkID role members))"

definition may_admin :: "string \<Rightarrow> string \<Rightarrow> networks \<Rightarrow> NetworkMember list \<Rightarrow> bool" where
  "may_admin userID networkID nets members \<longleftrightarrow>
     (\<exists>r \<in> set nets. nr_id r = networkID)
     \<and> (owns userID networkID nets \<or> has_role userID networkID ''admin'' members)"

lemma membership_of_Some:
  "membership_of fault networkID userID t = Some m \<Longrightarrow>
     m \<in> set t \<and> m_network_id m = networkID \<and> m_user_id m = userID"
  by (auto simp: membership_of_def split: sum.splits dest!: GetMembership_Inr)

lemma map_network_row_fields:
  "map_network_row g enc row = Inr n \<Longrightarrow> n_id n = nr_id row \<and> n_user_id n = nr_user_id row
     \<and> n_subnet n = (case nr_subnet row of None \<Rightarrow> [] | Some s \<Rightarrow> s) \<and> n_slug n = nr_slug row"
  by (auto simp: map_network_row_def split: sum.splits)

lemma NetworkStore_Get_Some:
  assumes "NetworkStore_Get g enc fault ident t = Inr (Some n)"
  obtains row where "row \<in> set t" "nr_id row = ident" "map_network_row g enc row = Inr n"
proof -
  obtain f row where "GetNetworkByID f ident t = Inr row" "map_network_row g enc row = Inr n"
    using assms by (auto simp: NetworkStore_Get_def Let_def split: sum.splits if_splits)
  then show thesis
    using that by (auto simp: GetNetworkByID_def dest!: query_one_Inr select_one_Inr)
qed

lemma CanView_iff:
  "CanView (CheckAccess (Some u) (Some n) mb) \<longleftrightarrow>
     n_user_id n = p_id u \<or> (\<exists>m. mb = Some m \<and> m_role m \<noteq> [])"
  by (auto simp: CanView_def CheckAccess_def split: option.splits)

lemma CanAdmin_iff:
  "CanAdmin (CheckAccess (Some u) (Some n) mb) \<longleftrightarrow>
     n_user_id n = p_id u \<or> (\<exists>m. mb = Some m \<and> m_role m = ''admin'')"
  by (auto simp: CanAdmin_def CheckAccess_def split: option.splits)

text \<open>What a guard that passed says of the tables, whatever failed on the way.\<close>

lemma view_guard:
  assumes "NetworkStore_Get g enc fault networkID nets = Inr (Some n)"
    and "CanView (CheckAccess (Some u) (Some n) (membership_of f networkID (p_id u) members))"
  shows "may_view (p_id u) networkID nets members"
proof -
  obtain row where row: "row \<in> set nets" "nr_id row = networkID" "map_network_row g enc row = Inr n"
    by (rule NetworkStore_Get_Some [OF assms(1)])
  show ?thesis
    using assms(2) row map_network_row_fields [OF row(3)]
    by (auto simp: CanView_iff may_view_def owns_def has_role_def dest!: membership_of_Some)
qed

lemma admin_guard:
  assumes "NetworkStore_Get g enc fault networkID nets = Inr (Some n)"
    and "CanAdmin (CheckAccess (Some u) (Some n) (membership_of f networkID (p_id u) members))"
  shows "may_admin (p_id u) networkID nets members"
proof -
  obtain row where row: "row \<in> set nets" "nr_id row = networkID" "map_network_row g enc row = Inr n"
    by (rule NetworkStore_Get_Some [OF assms(1)])
  show ?thesis
    using assms(2) row map_network_row_fields [OF row(3)]
    by (auto simp: CanAdmin_iff may_admin_def owns_def has_role_def dest!: membership_of_Some)
qed

lemma owner_guard:
  assumes "NetworkStore_Get g enc fault networkID nets = Inr (Some n)"
    and "CanAccessNetwork (Some u) (Some n)"
  shows "owns (p_id u) networkID nets"
proof -
  obtain row where row: "row \<in> set nets" "nr_id row = networkID" "map_network_row g enc row = Inr n"
    by (rule NetworkStore_Get_Some [OF assms(1)])
  show ?thesis
    using assms(2) row map_network_row_fields [OF row(3)] by (auto simp: CanAccessNetwork_def owns_def)
qed

lemma owner_may: "owns u n nets \<Longrightarrow> may_view u n nets members \<and> may_admin u n nets members"
  by (auto simp: owns_def may_view_def may_admin_def)

lemma admin_may_view: "may_admin u n nets members \<Longrightarrow> may_view u n nets members"
  by (auto simp: may_admin_def may_view_def)

end
