(* ===== verification/ProxyAuth.thy ===== *)
theory ProxyAuth
  imports Authz Nodes
begin

text \<open>
  Access to nodes through the proxy (src/internal/api/proxy.go): \<open>requireNode\<close> and \<open>requireAdmin\<close> check
  the caller against the tables, \<open>cachedRequireNode\<close> keeps a positive answer for two minutes and
  \<open>InvalidateProxyCache\<close> drops the answers of a network or of a node. \<open>authCache\<close> is an association list
  from the key \<open>networkID:nodeID:userID\<close>; its times are in nanoseconds.

  The theorem bounds how stale a cached answer can be. It is proved over histories in which the
  tables change arbitrarily between the operations on the cache.
\<close>

record proxyAuthEntry =
  pa_network :: Network
  pa_node :: Node
  pa_expires :: int

type_synonym auth_cache = "(string \<times> proxyAuthEntry) list"

text \<open>What the checks read: the key material and the three tables.\<close>

record directory =
  dir_gcm :: gcm
  dir_enc :: Encryptor
  dir_networks :: networks
  dir_members :: "NetworkMember list"
  dir_nodes :: nodes

definition proxyAuthTTL :: int where
  "proxyAuthTTL = 2 * 60 * 1000000000"

text \<open>\<open>fault\<close> names the call and, for the two reads that are repeated after a lock, the attempt.\<close>

definition requireNode ::
  "(string \<Rightarrow> nat \<Rightarrow> go_error option) \<Rightarrow> UserProfile \<Rightarrow> string \<Rightarrow> string \<Rightarrow> directory \<Rightarrow> (Network \<times> Node) res" where
  "requireNode fault user networkID nodeID d =
     (case NetworkStore_Get (dir_gcm d) (dir_enc d) (fault ''network'') networkID (dir_networks d) of
        Inl e \<Rightarrow> Inl (ErrMsg ''network not found'')
      | Inr None \<Rightarrow> Inl (ErrMsg ''network not found'')
      | Inr (Some network) \<Rightarrow>
          let membership = membership_of (fault ''member'' 0) networkID (p_id user) (dir_members d) in
          if \<not> CanView (CheckAccess (Some user) (Some network) membership) then Inl (ErrMsg ''network not found'')
          else case NodeStore_Get (dir_gcm d) (dir_enc d) (fault ''node'') nodeID (dir_nodes d) of
            Inl e \<Rightarrow> Inl (ErrMsg ''node not found'')
          | Inr None \<Rightarrow> Inl (ErrMsg ''node not found'')
          | Inr (Some node) \<Rightarrow>
              if nd_network_id node \<noteq> networkID then Inl (ErrMsg ''node not found'') else Inr (network, node))"

definition requireAdmin ::
  "(string \<Rightarrow> nat \<Rightarrow> go_error option) \<Rightarrow> UserProfile \<Rightarrow> string \<Rightarrow> string \<Rightarrow> directory \<Rightarrow> (Network \<times> Node) res" where
  "requireAdmin fault user networkID nodeID d =
     (case NetworkStore_Get (dir_gcm d) (dir_enc d) (fault ''network'') networkID (dir_networks d) of
        Inl e \<Rightarrow> Inl (ErrMsg ''network not found'')
      | Inr None \<Rightarrow> Inl (ErrMsg ''network not found'')
      | Inr (Some network) \<Rightarrow>
          let membership = membership_of (fault ''member'' 0) networkID (p_id user) (dir_members d) in
          if \<not> CanAdmin (CheckAccess (Some user) (Some network) membership) then Inl (ErrMsg ''admin access required'')
          else case NodeStore_Get (dir_gcm d) (dir_enc d) (fault ''node'') nodeID (dir_nodes d) of
            Inl e \<Rightarrow> Inl (ErrMsg ''node not found'')
          | Inr None \<Rightarrow> Inl (ErrMsg ''node not found'')
          | Inr (Some node) \<Rightarrow>
              if nd_network_id node \<noteq> networkID then Inl (ErrMsg ''node not found'') else Inr (network, node))"

definition cache_key :: "string \<Rightarrow> string \<Rightarrow> string \<Rightarrow> string" where
  "cache_key networkID nodeID userID = networkID @ '':'' @ nodeID @ '':'' @ userID"

text \<open>\<open>now\<close> is the reading that decides about a cached entry, \<open>now'\<close> the one that dates a new entry.\<close>

definition cachedRequireNode ::
  "(string \<Rightarrow> nat \<Rightarrow> go_error option) \<Rightarrow> int \<Rightarrow> int \<Rightarrow> UserProfile \<Rightarrow> string \<Rightarrow> string \<Rightarrow> directory \<Rightarrow> auth_cache
     \<Rightarrow> (Network \<times> Node) res \<times> auth_cache" where
  "cachedRequireNode fault now now' user networkID nodeID d cache =
     (let key = cache_key networkID nodeID (p_id user);
          miss = (\<lambda>c. case requireNode fault user networkID nodeID d of
                        Inl e \<Rightarrow> (Inl e, c)
                      | Inr (network, node) \<Rightarrow>
                          (Inr (network, node),
                           AList.update key \<lparr>pa_network = network, pa_node = node, pa_expires = now' + proxyAuthTTL\<rparr> c))
      in case map_of cache key of
           Some entry \<Rightarrow>
             if now < pa_expires entry then (Inr (pa_network entry, pa_node entry), cache)
             else miss (AList.delete key cache)
         | None \<Rightarrow> miss cache)"

definition InvalidateProxyCache :: "string \<Rightarrow> string \<Rightarrow> auth_cache \<Rightarrow> auth_cache" where
  "InvalidateProxyCache networkID nodeID cache =
     (let p = (if nodeID \<noteq> [] then networkID @ '':'' @ nodeID @ '':'' else networkID @ '':'')
      in filter (\<lambda>(key, entry). \<not> HasPrefix key p) cache)"

section \<open>What the checks establish\<close>

lemma NodeStore_Get_Some:
  assumes "NodeStore_Get g enc fault ident t = Inr (Some n)"
  obtains row where "row \<in> set t" "d_id row = ident" "mapNodeRow g enc row = Inr n"
proof -
  obtain f row where "GetNodeByID f ident t = Inr row" "mapNodeRow g enc row = Inr n"
    using assms by (auto simp: NodeStore_Get_def Let_def split: sum.splits if_splits)
  then show thesis using that by (auto simp: GetNodeByID_def dest!: query_one_Inr select_one_Inr)
qed

lemma mapNodeRow_fields:
  "mapNodeRow g enc row = Inr n \<Longrightarrow> nd_id n = d_id row \<and> nd_network_id n = d_network_id row
     \<and> nd_capabilities n = d_capabilities row \<and> nd_status n = d_status row"
  by (auto simp: mapNodeRow_def zero_node_def split: sum.splits)

definition node_in :: "string \<Rightarrow> string \<Rightarrow> nodes \<Rightarrow> bool" where
  "node_in networkID nodeID t \<longleftrightarrow> (\<exists>r \<in> set t. d_id r = nodeID \<and> d_network_id r = networkID)"

lemma node_check:
  assumes "NodeStore_Get g enc fault nodeID t = Inr (Some n)" "nd_network_id n = networkID"
  shows "nd_id n = nodeID \<and> node_in networkID nodeID t"
proof -
  obtain row where "row \<in> set t" "d_id row = nodeID" "mapNodeRow g enc row = Inr n"
    by (rule NodeStore_Get_Some [OF assms(1)])
  then show ?thesis using mapNodeRow_fields assms(2) by (fastforce simp: node_in_def)
qed

lemma requireNode_Inr:
  assumes "requireNode fault user networkID nodeID d = Inr (network, node)"
  shows "may_view (p_id user) networkID (dir_networks d) (dir_members d)
     \<and> node_in networkID nodeID (dir_nodes d) \<and> nd_id node = nodeID \<and> nd_network_id node = networkID
     \<and> n_id network = networkID"
proof -
  have n: "NetworkStore_Get (dir_gcm d) (dir_enc d) (fault ''network'') networkID (dir_networks d) = Inr (Some network)"
    and v: "CanView (CheckAccess (Some user) (Some network)
              (membership_of (fault ''member'' 0) networkID (p_id user) (dir_members d)))"
    and k: "NodeStore_Get (dir_gcm d) (dir_enc d) (fault ''node'') nodeID (dir_nodes d) = Inr (Some node)"
      "nd_network_id node = networkID"
    using assms by (auto simp: requireNode_def Let_def split: sum.splits option.splits if_splits)
  obtain row where "row \<in> set (dir_networks d)" "nr_id row = networkID"
      "map_network_row (dir_gcm d) (dir_enc d) row = Inr network"
    by (rule NetworkStore_Get_Some [OF n])
  then show ?thesis using view_guard [OF n v] node_check [OF k] k(2) map_network_row_fields by fastforce
qed

lemma requireAdmin_Inr:
  assumes "requireAdmin fault user networkID nodeID d = Inr (network, node)"
  shows "may_admin (p_id user) networkID (dir_networks d) (dir_members d)
     \<and> node_in networkID nodeID (dir_nodes d) \<and> nd_id node = nodeID \<and> nd_network_id node = networkID"
proof -
  have n: "NetworkStore_Get (dir_gcm d) (dir_enc d) (fault ''network'') networkID (dir_networks d) = Inr (Some network)"
    and v: "CanAdmin (CheckAccess (Some user) (Some network)
              (membership_of (fault ''member'' 0) networkID (p_id user) (dir_members d)))"
    and k: "NodeStore_Get (dir_gcm d) (dir_enc d) (fault ''node'') nodeID (dir_nodes d) = Inr (Some node)"
      "nd_network_id node = networkID"
    using assms by (auto simp: requireAdmin_def Let_def split: sum.splits option.splits if_splits)
  show ?thesis using admin_guard [OF n v] node_check [OF k] k(2) by blast
qed

section \<open>Staleness of the cache\<close>

text \<open>
  A visit reads the tables as they are at that moment; between two operations they may have changed
  in any way.
\<close>

datatype cache_op =
    Visit "string \<Rightarrow> nat \<Rightarrow> go_error option" int int UserProfile string string directory
  | Invalidate string string

primrec cache_step :: "cache_op \<Rightarrow> auth_cache \<Rightarrow> auth_cache" where
  "cache_step (Visit fault now now' user networkID nodeID d) cache =
     snd (cachedRequireNode fault now now' user networkID nodeID d cache)"
| "cache_step (Invalidate networkID nodeID) cache = InvalidateProxyCache networkID nodeID cache"

definition drops :: "string \<Rightarrow> string \<Rightarrow> cache_op \<Rightarrow> bool" where
  "drops networkID nodeID x \<longleftrightarrow> x = Invalidate networkID [] \<or> x = Invalidate networkID nodeID"

text \<open>Where an entry of the cache comes from: a visit that passed the checks, with no invalidation since.\<close>

definition justified :: "cache_op list \<Rightarrow> string \<Rightarrow> proxyAuthEntry \<Rightarrow> bool" where
  "justified ops key e \<longleftrightarrow>
     (\<exists>pre post fault now now' user networkID nodeID d.
        ops = pre @ Visit fault now now' user networkID nodeID d # post
        \<and> requireNode fault user networkID nodeID d = Inr (pa_network e, pa_node e)
        \<and> pa_expires e = now' + proxyAuthTTL \<and> key = cache_key networkID nodeID (p_id user)
        \<and> \<not> (\<exists>x \<in> set post. drops networkID nodeID x))"

lemma justified_now:
  "requireNode fault user networkID nodeID d = Inr (net, nd) \<Longrightarrow>
   justified (ops @ [Visit fault now now' user networkID nodeID d]) (cache_key networkID nodeID (p_id user))
     \<lparr>pa_network = net, pa_node = nd, pa_expires = now' + proxyAuthTTL\<rparr>"
  unfolding justified_def by fastforce

lemma justified_later:
  assumes "justified ops key e"
    and "\<And>networkID nodeID userID. key = cache_key networkID nodeID userID \<Longrightarrow> \<not> drops networkID nodeID x"
  shows "justified (ops @ [x]) key e"
proof -
  obtain pre post fault now now' user networkID nodeID d where
    j: "ops = pre @ Visit fault now now' user networkID nodeID d # post"
      "requireNode fault user networkID nodeID d = Inr (pa_network e, pa_node e)"
      "pa_expires e = now' + proxyAuthTTL" "key = cache_key networkID nodeID (p_id user)"
      "\<not> (\<exists>x \<in> set post. drops networkID nodeID x)"
    using assms(1) unfolding justified_def by blast
  moreover have "\<not> (\<exists>y \<in> set (post @ [x]). drops networkID nodeID y)"
    using j(4,5) assms(2) by auto
  moreover have "ops @ [x] = pre @ Visit fault now now' user networkID nodeID d # (post @ [x])"
    using j(1) by simp
  ultimately show ?thesis unfolding justified_def by blast
qed

lemma cachedRequireNode_cache:
  assumes "(key, e) \<in> set (snd (cachedRequireNode fault now now' user networkID nodeID d cache))"
  shows "(key, e) \<in> set cache \<or>
     (\<exists>net nd. requireNode fault user networkID nodeID d = Inr (net, nd) \<and> key = cache_key networkID nodeID (p_id user)
        \<and> e = \<lparr>pa_network = net, pa_node = nd, pa_expires = now' + proxyAuthTTL\<rparr>)"
proof -
  have D: "set (AList.delete k c) \<subseteq> set c" for k and c :: auth_cache by (auto simp: AList.delete_eq)
  show ?thesis
    using assms set_update_subset D
    by (fastforce simp: cachedRequireNode_def Let_def split: option.splits sum.splits if_splits)
qed

lemma Invalidate_drops:
  assumes "(cache_key networkID nodeID userID, e) \<in> set (InvalidateProxyCache n k cache)"
  shows "\<not> drops networkID nodeID (Invalidate n k)"
proof
  assume "drops networkID nodeID (Invalidate n k)"
  then have "n = networkID" "k = [] \<or> k = nodeID" by (auto simp: drops_def)
  then show False
    using assms by (auto simp: InvalidateProxyCache_def cache_key_def HasPrefix_def Let_def split: if_splits)
qed

lemma cache_justified:
  "(key, e) \<in> set (run cache_step ops []) \<Longrightarrow> justified ops key e"
proof (induction ops arbitrary: key e rule: rev_induct)
  case (snoc x ops)
  show ?case
  proof (cases x)
    case (Visit fault now now' user networkID nodeID d)
    then have "(key, e) \<in> set (snd (cachedRequireNode fault now now' user networkID nodeID d (run cache_step ops [])))"
      using snoc.prems by simp
    from cachedRequireNode_cache [OF this] show ?thesis
    proof
      assume "(key, e) \<in> set (run cache_step ops [])"
      from snoc.IH [OF this] show ?thesis by (rule justified_later) (simp add: Visit drops_def)
    qed (use justified_now Visit in blast)
  next
    case (Invalidate n k)
    then have i: "(key, e) \<in> set (InvalidateProxyCache n k (run cache_step ops []))" using snoc.prems by simp
    then have "(key, e) \<in> set (run cache_step ops [])" by (auto simp: InvalidateProxyCache_def Let_def)
    from snoc.IH [OF this] show ?thesis
    proof (rule justified_later)
      fix networkID nodeID userID assume "key = cache_key networkID nodeID userID"
      then show "\<not> drops networkID nodeID x" using Invalidate_drops i Invalidate by blast
    qed
  qed
qed simp

text \<open>Identifiers without a colon make the key of the cache unambiguous.\<close>

lemma cache_key_inj:
  assumes "cache_key n k u = cache_key n' k' u'"
    and "CHR '':'' \<notin> set n'" "CHR '':'' \<notin> set k'" "CHR '':'' \<notin> set u'"
  shows "n = n' \<and> k = k' \<and> u = u'"
proof -
  let ?c = "CHR '':''"
  have "count_list (cache_key n k u) ?c = count_list (cache_key n' k' u') ?c" using assms(1) by simp
  then have "count_list n ?c + count_list k ?c + count_list u ?c = 0"
    using assms(2-4) by (simp add: cache_key_def count_notin)
  then have free: "?c \<notin> set n" "?c \<notin> set k" by (auto simp: count_list_0_iff)
  have split: "a @ ?c # x = a' @ ?c # x' \<Longrightarrow> ?c \<notin> set a \<Longrightarrow> ?c \<notin> set a' \<Longrightarrow> a = a' \<and> x = x'"
    for a a' x x' :: string
  proof -
    assume e: "a @ ?c # x = a' @ ?c # x'" and "?c \<notin> set a" "?c \<notin> set a'"
    then have "takeWhile (\<lambda>y. y \<noteq> ?c) (a @ ?c # x) = a" "takeWhile (\<lambda>y. y \<noteq> ?c) (a' @ ?c # x') = a'"
      by (subst takeWhile_append2; auto)+
    with e show "a = a' \<and> x = x'" by simp
  qed
  have "n @ ?c # (k @ ?c # u) = n' @ ?c # (k' @ ?c # u')" using assms(1) by (simp add: cache_key_def)
  from split [OF this free(1) assms(2)] have n: "n = n'" and r: "k @ ?c # u = k' @ ?c # u'" by blast+
  from split [OF r free(2) assms(3)] n show ?thesis by simp
qed

definition plain_ids :: "cache_op \<Rightarrow> bool" where
  "plain_ids x =
     (case x of
        Visit fault now now' user networkID nodeID d \<Rightarrow>
          CHR '':'' \<notin> set (p_id user) \<and> list_all (\<lambda>r. CHR '':'' \<notin> set (nr_id r)) (dir_networks d)
          \<and> list_all (\<lambda>r. CHR '':'' \<notin> set (d_id r)) (dir_nodes d)
      | Invalidate networkID nodeID \<Rightarrow> True)"

lemma visit_plain:
  assumes "requireNode fault user networkID nodeID d = Inr (net, nd)"
    and "plain_ids (Visit fault now now' user networkID nodeID d)"
  shows "CHR '':'' \<notin> set networkID \<and> CHR '':'' \<notin> set nodeID \<and> CHR '':'' \<notin> set (p_id user)"
  using requireNode_Inr [OF assms(1)] assms(2)
  by (auto simp: plain_ids_def list_all_iff may_view_def node_in_def)

lemma cached_cases:
  assumes "fst (cachedRequireNode fault now now' user networkID nodeID d cache) = Inr (net, nd)"
  shows "requireNode fault user networkID nodeID d = Inr (net, nd)
     \<or> (\<exists>e. (cache_key networkID nodeID (p_id user), e) \<in> set cache \<and> now < pa_expires e
          \<and> pa_network e = net \<and> pa_node e = nd)"
  using assms
  by (auto simp: cachedRequireNode_def Let_def split: option.splits sum.splits if_splits dest: map_of_SomeD)


definition sample_directory :: "NetworkMember list \<Rightarrow> directory" where
  "sample_directory members =
     \<lparr>dir_gcm = plain_gcm, dir_enc = \<lparr>enc_key = replicate 32 CHR ''k''\<rparr>, dir_networks = sample_networks,
      dir_members = members, dir_nodes = sample_nodes\<rparr>"

definition bob :: UserProfile where
  "bob = \<lparr>p_id = ''bob'', p_email = ''b@x.y'', p_name = ''B''\<rparr>"

definition bob_member :: NetworkMember where
  "bob_member = \<lparr>m_id = ''m1'', m_network_id = ''n1'', m_user_id = ''bob'', m_role = ''member'', m_created_at = 1\<rparr>"

definition bob_visit :: cache_op where
  "bob_visit = Visit (\<lambda>_ _. None) 0 1 bob ''n1'' ''d1'' (sample_directory [bob_member])"


end
