(* ===== verification/Json.thy ===== *)
theory Json
  imports GoText
begin

text \<open>
  The string literals of \<open>encoding/json\<close>, as \<open>json.Marshal\<close> prints them: quotes, backslashes and
  control characters are escaped, and so are \<open><\<close>, \<open>>\<close>, \<open>&\<close> and the line separators U+2028 and U+2029.
  The strings the handlers print come out of the JSON decoder, which only delivers valid UTF-8, so
  the replacement of invalid sequences is not needed here.
\<close>

definition unicode_escape :: "char \<Rightarrow> string" where
  "unicode_escape c = [CHR 0x5C] @ ''u00'' @ hex_byte c"

definition json_char :: "char \<Rightarrow> string" where
  "json_char c =
     (if c = CHR 0x22 \<or> c = CHR 0x5C then [CHR 0x5C, c]
      else if c = CHR 0x08 then [CHR 0x5C, CHR ''b'']
      else if c = CHR 0x0C then [CHR 0x5C, CHR ''f'']
      else if c = CHR 0x0A then [CHR 0x5C, CHR ''n'']
      else if c = CHR 0x0D then [CHR 0x5C, CHR ''r'']
      else if c = CHR 0x09 then [CHR 0x5C, CHR ''t'']
      else if (of_char c :: nat) < 32 \<or> c \<in> {CHR ''<'', CHR ''>'', CHR ''&''} then unicode_escape c
      else [c])"

fun json_chars :: "string \<Rightarrow> string" where
  "json_chars (a # b # c # s) =
     (if a = CHR 0xE2 \<and> b = CHR 0x80 \<and> (c = CHR 0xA8 \<or> c = CHR 0xA9)
      then [CHR 0x5C] @ ''u202'' @ (if c = CHR 0xA8 then ''8'' else ''9'') @ json_chars s
      else json_char a @ json_chars (b # c # s))"
| "json_chars (a # s) = json_char a @ json_chars s"
| "json_chars [] = []"

definition json_quote :: "string \<Rightarrow> string" where
  "json_quote s = [CHR 0x22] @ json_chars s @ [CHR 0x22]"

text \<open>
  An object; the values are JSON texts already. \<open>json.Marshal\<close> prints the keys of a map in ascending
  order, and the callers below list them in that order.
\<close>

fun json_fields :: "(string \<times> string) list \<Rightarrow> string" where
  "json_fields [] = []"
| "json_fields [(k, v)] = json_quote k @ '':'' @ v"
| "json_fields ((k, v) # f # fs) = json_quote k @ '':'' @ v @ '','' @ json_fields (f # fs)"

definition json_object :: "(string \<times> string) list \<Rightarrow> string" where
  "json_object kvs = ''{'' @ json_fields kvs @ ''}''"

end
