(* ===== verification/Server.thy ===== *)
theory Server
  imports DeviceCodes Heartbeats EventLog Resources ProxyAuth Pki Json
begin

text \<open>
  The state of the control plane and the frame of its request handlers (src/internal/api).

  A handler is a function of the \<open>platform\<close> (the primitives and settings of the process), the
  \<open>request\<close> (clock readings, random values and failures met while it is served), its arguments, and the
  \<open>server\<close> state, to an HTTP answer and the new state. The dependencies that a handler struct may
  leave nil are all set by \<open>cmd/server/main.go\<close>, so the guards against nil always pass and are not
  repeated here. Calls that leave the database (the lighthouse manager, port forwards, the event
  hub) are recorded in order in \<open>sv_trace\<close>. A Go panic is answered with status 500 by the
  \<open>Recoverer\<close> of the router; \<open>panic\<close> is that answer.
\<close>

datatype effect =
    RefreshDNS string
  | StartNetwork string
  | StopNetwork string
  | StopAllForNetwork string
  | Publish string string "(string \<times> string) list"

record platform =
  sha256 :: "string \<Rightarrow> string"
  aead :: gcm
  encryptor :: Encryptor
  certs :: cert_lib
  trusted_proxy :: bool
  endpoint_url :: string
  lighthouse_host :: string

text \<open>
  \<open>nonce k\<close> is the \<open>k\<close>-th read of 12 random bytes, \<open>key_bytes k\<close> the \<open>k\<close>-th private key; \<open>rand_bytes\<close> and
  \<open>draws\<close> feed the device codes; \<open>nanos k\<close> are the clock readings that are used in nanoseconds.
\<close>

record request = env +
  nonce :: "nat \<Rightarrow> string res"
  key_bytes :: "nat \<Rightarrow> string"
  rand_bytes :: "string res"
  draws :: "nat \<Rightarrow> nat \<Rightarrow> nat res"
  nanos :: "nat \<Rightarrow> int"
  forwarded_for :: string
  remote_addr :: string

record server =
  sv_users :: "User list"
  sv_sessions :: "Session list"
  sv_networks :: networks
  sv_members :: "NetworkMember list"
  sv_invites :: invites
  sv_codes :: device_codes
  sv_node_store :: NodeStore
  sv_events :: NetworkEventStore
  sv_audit :: AuditStore
  sv_bundles :: bundles
  sv_dns :: dns_records
  sv_cache :: auth_cache
  sv_trace :: "effect list"

abbreviation sv_nodes :: "server \<Rightarrow> nodes" where
  "sv_nodes s \<equiv> ns_nodes (sv_node_store s)"

definition with_nodes :: "nodes \<Rightarrow> server \<Rightarrow> server" where
  "with_nodes t s = s\<lparr>sv_node_store := (sv_node_store s)\<lparr>ns_nodes := t\<rparr>\<rparr>"

definition emit :: "effect \<Rightarrow> server \<Rightarrow> server" where
  "emit x s = s\<lparr>sv_trace := sv_trace s @ [x]\<rparr>"

definition panic :: "'b http" where
  "panic = Reject 500 []"

section \<open>Failures of the calls of one request\<close>

definition attempts :: "('a env_scheme) \<Rightarrow> string \<Rightarrow> nat \<Rightarrow> go_error option" where
  "attempts e call k = fails e (call @ ''#'' @ itoa k)"

definition steps :: "('a env_scheme) \<Rightarrow> string \<Rightarrow> string \<Rightarrow> go_error option" where
  "steps e call part = fails e (call @ ''.'' @ part)"

section \<open>Reads shared by the handlers\<close>

text \<open>\<open>int(time.Until(time.Unix(at, 0)).Seconds())\<close>, rounded towards zero.\<close>

definition seconds_until :: "int \<Rightarrow> int \<Rightarrow> int" where
  "seconds_until at_s now_ns =
     (let d = at_s * 1000000000 - now_ns in if d < 0 then - ((- d) div 1000000000) else d div 1000000000)"

definition Networks_Get :: "platform \<Rightarrow> request \<Rightarrow> string \<Rightarrow> server \<Rightarrow> Network option res" where
  "Networks_Get P e networkID s =
     NetworkStore_Get (aead P) (encryptor P) (attempts e ''Networks.Get'') networkID (sv_networks s)"

definition Members_Get :: "request \<Rightarrow> string \<Rightarrow> string \<Rightarrow> server \<Rightarrow> NetworkMember option" where
  "Members_Get e networkID userID s =
     membership_of (fails e ''Members.GetMembership'') networkID userID (sv_members s)"

text \<open>
  The guards with which the handlers open: the network must exist, and the caller must be allowed to
  view it, to enroll into it, to administer it, or must own it. The continuation receives the network.
\<close>

definition with_network ::
  "platform \<Rightarrow> request \<Rightarrow> string \<Rightarrow> server \<Rightarrow> (Network \<Rightarrow> 'b http \<times> server) \<Rightarrow> 'b http \<times> server" where
  "with_network P e networkID s k =
     (case Networks_Get P e networkID s of
        Inl err \<Rightarrow> (Reject 404 ''network not found'', s)
      | Inr None \<Rightarrow> (Reject 404 ''network not found'', s)
      | Inr (Some network) \<Rightarrow> k network)"

definition view_only ::
  "platform \<Rightarrow> request \<Rightarrow> UserProfile \<Rightarrow> string \<Rightarrow> server \<Rightarrow> (Network \<Rightarrow> 'b http \<times> server) \<Rightarrow> 'b http \<times> server" where
  "view_only P e user networkID s k =
     with_network P e networkID s (\<lambda>network.
       if \<not> CanView (CheckAccess (Some user) (Some network) (Members_Get e networkID (p_id user) s))
       then (Reject 404 ''network not found'', s) else k network)"

definition enroll_only ::
  "platform \<Rightarrow> request \<Rightarrow> UserProfile \<Rightarrow> string \<Rightarrow> server \<Rightarrow> (Network \<Rightarrow> 'b http \<times> server) \<Rightarrow> 'b http \<times> server" where
  "enroll_only P e user networkID s k =
     with_network P e networkID s (\<lambda>network.
       if \<not> CanEnrollNode (Some user) (Some network) (Members_Get e networkID (p_id user) s)
       then (Reject 404 ''network not found'', s) else k network)"

definition admin_only ::
  "platform \<Rightarrow> request \<Rightarrow> UserProfile \<Rightarrow> string \<Rightarrow> server \<Rightarrow> (Network \<Rightarrow> 'b http \<times> server) \<Rightarrow> 'b http \<times> server" where
  "admin_only P e user networkID s k =
     with_network P e networkID s (\<lambda>network.
       if \<not> CanAdmin (CheckAccess (Some user) (Some network) (Members_Get e networkID (p_id user) s))
       then (Reject 403 ''admin access required'', s) else k network)"

definition owner_only ::
  "platform \<Rightarrow> request \<Rightarrow> UserProfile \<Rightarrow> string \<Rightarrow> server \<Rightarrow> (Network \<Rightarrow> 'b http \<times> server) \<Rightarrow> 'b http \<times> server" where
  "owner_only P e user networkID s k =
     with_network P e networkID s (\<lambda>network.
       if \<not> CanAccessNetwork (Some user) (Some network) then (Reject 404 ''network not found'', s) else k network)"

definition agent_ip :: "platform \<Rightarrow> request \<Rightarrow> string" where
  "agent_ip P e = captureAgentIP (trusted_proxy P) (forwarded_for e) (remote_addr e)"

definition jsonDetails :: "(string \<times> string) list \<Rightarrow> string option" where
  "jsonDetails v = (if v = [] then None else Some (json_object v))"

definition Record :: "int \<Rightarrow> string \<Rightarrow> string \<Rightarrow> string option \<Rightarrow> string option \<Rightarrow> string option \<Rightarrow> server \<Rightarrow> server" where
  "Record now networkID eventType targetID status det s =
     s\<lparr>sv_events := NetworkEventStore_Record now networkID eventType targetID status det (sv_events s)\<rparr>"

definition server_directory :: "platform \<Rightarrow> server \<Rightarrow> directory" where
  "server_directory P s =
     \<lparr>dir_gcm = aead P, dir_enc = encryptor P, dir_networks = sv_networks s, dir_members = sv_members s,
      dir_nodes = sv_nodes s\<rparr>"

lemma sv_nodes_with_nodes [simp]: "sv_nodes (with_nodes t s) = t"
  by (simp add: with_nodes_def)

lemma with_nodes_other [simp]:
  "sv_users (with_nodes t s) = sv_users s" "sv_sessions (with_nodes t s) = sv_sessions s"
  "sv_networks (with_nodes t s) = sv_networks s" "sv_members (with_nodes t s) = sv_members s"
  "sv_invites (with_nodes t s) = sv_invites s" "sv_codes (with_nodes t s) = sv_codes s"
  "sv_dns (with_nodes t s) = sv_dns s" "sv_cache (with_nodes t s) = sv_cache s"
  "sv_bundles (with_nodes t s) = sv_bundles s" "sv_trace (with_nodes t s) = sv_trace s"
  by (simp_all add: with_nodes_def)

lemma emit_other [simp]:
  "sv_users (emit x s) = sv_users s" "sv_sessions (emit x s) = sv_sessions s"
  "sv_networks (emit x s) = sv_networks s" "sv_members (emit x s) = sv_members s"
  "sv_invites (emit x s) = sv_invites s" "sv_codes (emit x s) = sv_codes s"
  "sv_dns (emit x s) = sv_dns s" "sv_cache (emit x s) = sv_cache s"
  "sv_bundles (emit x s) = sv_bundles s" "sv_node_store (emit x s) = sv_node_store s"
  "sv_trace (emit x s) = sv_trace s @ [x]"
  by (simp_all add: emit_def)

lemma Record_other [simp]:
  "sv_users (Record now n ty tg st dt s) = sv_users s" "sv_sessions (Record now n ty tg st dt s) = sv_sessions s"
  "sv_networks (Record now n ty tg st dt s) = sv_networks s" "sv_members (Record now n ty tg st dt s) = sv_members s"
  "sv_invites (Record now n ty tg st dt s) = sv_invites s" "sv_codes (Record now n ty tg st dt s) = sv_codes s"
  "sv_dns (Record now n ty tg st dt s) = sv_dns s" "sv_cache (Record now n ty tg st dt s) = sv_cache s"
  "sv_bundles (Record now n ty tg st dt s) = sv_bundles s" "sv_node_store (Record now n ty tg st dt s) = sv_node_store s"
  "sv_trace (Record now n ty tg st dt s) = sv_trace s"
  by (simp_all add: Record_def)

section \<open>What the shared reads establish\<close>

lemma with_network_cases:
  assumes "with_network P e networkID s k = r"
  shows "r = (Reject 404 ''network not found'', s)
     \<or> (\<exists>network. NetworkStore_Get (aead P) (encryptor P) (attempts e ''Networks.Get'') networkID (sv_networks s)
           = Inr (Some network) \<and> r = k network)"
  using assms by (auto simp: with_network_def Networks_Get_def split: sum.splits option.splits)

text \<open>A request passes its guard only with the right it needs; otherwise nothing changes.\<close>

lemma view_only_cases:
  assumes "view_only P e user networkID s k = r"
  shows "r = (Reject 404 ''network not found'', s)
     \<or> (may_view (p_id user) networkID (sv_networks s) (sv_members s) \<and> (\<exists>network. r = k network))"
  using with_network_cases [OF assms [unfolded view_only_def]] view_guard
  by (fastforce simp: Members_Get_def split: if_splits)

lemma enroll_only_cases:
  assumes "enroll_only P e user networkID s k = r"
  shows "r = (Reject 404 ''network not found'', s)
     \<or> (may_view (p_id user) networkID (sv_networks s) (sv_members s)
        \<and> (\<exists>network row. r = k network \<and> row \<in> set (sv_networks s) \<and> nr_id row = networkID
             \<and> map_network_row (aead P) (encryptor P) row = Inr network))"
proof -
  have "r = (Reject 404 ''network not found'', s)
     \<or> (\<exists>network. NetworkStore_Get (aead P) (encryptor P) (attempts e ''Networks.Get'') networkID (sv_networks s)
           = Inr (Some network)
         \<and> CanView (CheckAccess (Some user) (Some network) (Members_Get e networkID (p_id user) s)) \<and> r = k network)"
    using with_network_cases [OF assms [unfolded enroll_only_def]] by (auto simp: CanEnrollNode_def split: if_splits)
  then show ?thesis
    using view_guard NetworkStore_Get_Some by (metis Members_Get_def)
qed

lemma admin_only_cases:
  assumes "admin_only P e user networkID s k = r"
  shows "r = (Reject 404 ''network not found'', s) \<or> r = (Reject 403 ''admin access required'', s)
     \<or> (may_admin (p_id user) networkID (sv_networks s) (sv_members s) \<and> (\<exists>network. r = k network))"
  using with_network_cases [OF assms [unfolded admin_only_def]] admin_guard
  by (fastforce simp: Members_Get_def split: if_splits)

lemma owner_only_cases:
  assumes "owner_only P e user networkID s k = r"
  shows "r = (Reject 404 ''network not found'', s)
     \<or> (owns (p_id user) networkID (sv_networks s) \<and> (\<exists>network. r = k network))"
  using with_network_cases [OF assms [unfolded owner_only_def]] owner_guard
  by (fastforce split: if_splits)

section \<open>A concrete server\<close>

text \<open>
  An empty control plane and one request, on which the theorems are tried: the primitives are replaced
  by trivial ones, the clock stands at 1000, nothing fails.
\<close>

definition sample_certs :: cert_lib where
  "sample_certs = \<lparr>ed25519 = (\<lambda>s. (s, s)), x25519 = (\<lambda>s. s), Sign = (\<lambda>t ca key. Inr (tbs_name t)),
     MarshalPEM = Inr, UnmarshalCertificateFromPEM = Inr, MarshalSigningPrivateKeyToPEM = (\<lambda>s. s),
     UnmarshalSigningPrivateKeyFromPEM = Inr, MarshalPrivateKeyToPEM = (\<lambda>s. s)\<rparr>"

definition sample_platform :: platform where
  "sample_platform = \<lparr>sha256 = (\<lambda>s. s), aead = plain_gcm, encryptor = \<lparr>enc_key = replicate 32 CHR ''k''\<rparr>,
     certs = sample_certs, trusted_proxy = False, endpoint_url = ''https://hop'', lighthouse_host = ''hop''\<rparr>"

definition sample_request :: request where
  "sample_request = \<lparr>clock = (\<lambda>i. 1000), fails = (\<lambda>l. None), new_id = (\<lambda>i. ''id'' @ itoa i),
     new_token = (\<lambda>i. ''token'' @ itoa i), nonce = (\<lambda>i. Inr ''abcdefghijkl''), key_bytes = (\<lambda>i. ''key''),
     rand_bytes = Inr ''seed'', draws = (\<lambda>i n. Inr 0), nanos = (\<lambda>i. 1000000000000), forwarded_for = [],
     remote_addr = ''10.0.0.7:4000''\<rparr>"

definition empty_server :: server where
  "empty_server = \<lparr>sv_users = [], sv_sessions = [], sv_networks = [], sv_members = [], sv_invites = [], sv_codes = [],
     sv_node_store = \<lparr>ns_nodes = [], ns_heartbeats = [], ns_last_proxy = [], ns_last_logged = []\<rparr>,
     sv_events = \<lparr>es_buf = [], es_table = ([], 0)\<rparr>, sv_audit = \<lparr>as_buf = [], as_rows = []\<rparr>,
     sv_bundles = [], sv_dns = [], sv_cache = [], sv_trace = []\<rparr>"

definition sample_user :: UserProfile where
  "sample_user = \<lparr>p_id = ''u1'', p_email = ''a@b.co'', p_name = ''Ann''\<rparr>"

end
