(* ===== verification/Enrollment.thy ===== *)
theory Enrollment
  imports Server NodeStatus
begin

text \<open>
  How a machine becomes a node: the device flow (src/internal/api/device.go) and the enrollment
  endpoints (src/internal/api/enroll.go, cafingerprint.go). A JSON body is an option: \<open>None\<close> is a body
  that does not decode.
\<close>

section \<open>Requests and answers\<close>

record DeviceCodeResponse =
  dr_deviceCode :: string
  dr_userCode :: string
  dr_verificationURI :: string
  dr_verificationURIComplete :: string
  dr_expiresIn :: int
  dr_interval :: int

record EnrollRequest =
  er_token :: string
  er_hostname :: string
  er_os :: string
  er_arch :: string
  er_existing :: "string list"

record EnrollResponse =
  nodeId :: string
  caCert :: string
  nodeCert :: string
  nodeKey :: string
  agentToken :: string
  serverIP :: string
  nebulaIP :: string
  lighthousePort :: int
  dnsDomain :: string
  lighthouseHost :: "string option"

text \<open>The body of the 409 that tells an agent that it is already in the network.\<close>

datatype enroll_body =
    Enrolled EnrollResponse
  | AlreadyEnrolled string string

record CreateNodeResponse =
  cn_nodeId :: string
  cn_token :: string
  cn_endpoint :: string
  cn_ip :: string

definition nodeCertDuration :: int where
  "nodeCertDuration = 24 * 60 * 60"

definition deviceNodeCertDuration :: int where
  "deviceNodeCertDuration = 24 * 60 * 60"

definition generateToken :: "string \<Rightarrow> string" where
  "generateToken b = EncodeToString b"

definition caFingerprint :: "(string \<Rightarrow> string) \<Rightarrow> string \<Rightarrow> string" where
  "caFingerprint sha caCertPEM = take 12 (EncodeToString (sha caCertPEM))"

section \<open>Pieces that the three enrollments share\<close>

definition conflict :: "platform \<Rightarrow> Network \<Rightarrow> string list \<Rightarrow> bool" where
  "conflict P network existing \<longleftrightarrow>
     0 < length existing \<and> caFingerprint (sha256 P) (n_ca_cert network) \<in> set existing"

text \<open>\<open>serverIP, _ := pki.ServerAddress(...)\<close>: the zero prefix prints as \<open>invalid IP\<close>.\<close>

definition server_ip_text :: "string \<Rightarrow> string" where
  "server_ip_text subnet = (case ServerAddress subnet of Inl e \<Rightarrow> ''invalid IP'' | Inr p \<Rightarrow> addr_string (Addr p))"

definition enroll_response :: "platform \<Rightarrow> Network \<Rightarrow> string \<Rightarrow> CertBundle \<Rightarrow> string \<Rightarrow> string \<Rightarrow> EnrollResponse" where
  "enroll_response P network nodeID cert token ip =
     \<lparr>nodeId = nodeID, caCert = n_ca_cert network, nodeCert = CertPEM cert, nodeKey = KeyPEM cert,
      agentToken = token, serverIP = server_ip_text (n_subnet network), nebulaIP = ip,
      lighthousePort = (case n_port network of None \<Rightarrow> 0 | Some p \<Rightarrow> p), dnsDomain = n_dns_domain network,
      lighthouseHost = (if lighthouse_host P \<noteq> [] then Some (lighthouse_host P) else None)\<rparr>"

text \<open>
  The certificate of a node. \<open>nodeID[:8]\<close> panics on a shorter identifier, which is the outer \<open>None\<close>.
\<close>

definition node_cert :: "platform \<Rightarrow> request \<Rightarrow> Network \<Rightarrow> string \<Rightarrow> prefix \<Rightarrow> int \<Rightarrow> CertBundle res option" where
  "node_cert P e network nodeID ip duration =
     (if length nodeID < 8 then None
      else Some (IssueCert (certs P) (key_bytes e 0) (clock e 10) (clock e 11) (n_ca_cert network)
                   (n_ca_key network) (''node-'' @ take 8 nodeID) ip [''node''] duration))"

text \<open>The writes that follow a completed enrollment; their errors are only logged.\<close>

definition note_node :: "platform \<Rightarrow> request \<Rightarrow> string \<Rightarrow> string \<Rightarrow> server \<Rightarrow> server" where
  "note_node P e nodeID hostname s =
     (let s = with_nodes (snd (UpdateDNSName (fails e ''UpdateDNSName'') nodeID (sanitizeDNSName hostname) (sv_nodes s))) s
      in with_nodes (snd (UpdateAgentRealIP (fails e ''UpdateAgentRealIP'') nodeID (agent_ip P e) (sv_nodes s))) s)"

definition announce_node :: "request \<Rightarrow> string \<Rightarrow> string \<Rightarrow> string \<Rightarrow> server \<Rightarrow> server" where
  "announce_node e networkID nodeID hostname s =
     Record (clock e 20) networkID ''node.enrolled'' (Some nodeID) None
       (jsonDetails [(''hostname'', json_quote hostname)])
       (emit (Publish networkID ''node.enrolled'' [(''nodeId'', nodeID), (''hostname'', hostname)])
         (emit (RefreshDNS networkID) s))"

definition store_cert ::
  "platform \<Rightarrow> request \<Rightarrow> string \<Rightarrow> CertBundle \<Rightarrow> string \<Rightarrow> string \<Rightarrow> string \<Rightarrow> server \<Rightarrow> go_error option \<times> server" where
  "store_cert P e nodeID cert hostname os arch s =
     (case NodeStore_CompleteEnrollment (aead P) (encryptor P) (nonce e 2) (fails e ''CompleteEnrollment'') nodeID
             (CertPEM cert) (KeyPEM cert) hostname os arch (sv_nodes s) of
        (err, t) \<Rightarrow> (err, with_nodes t s))"

definition create_node :: "platform \<Rightarrow> request \<Rightarrow> Node \<Rightarrow> server \<Rightarrow> go_error option \<times> server" where
  "create_node P e node s =
     (case NodeStore_Create (sha256 P) (aead P) (encryptor P) (nonce e 0) (nonce e 1) (fails e ''Nodes.Create'')
             (clock e 5) node (sv_nodes s) of
        (err, t) \<Rightarrow> (err, with_nodes t s))"

section \<open>The device flow\<close>

definition RequestCode :: "platform \<Rightarrow> request \<Rightarrow> server \<Rightarrow> DeviceCodeResponse http \<times> server" where
  "RequestCode P e s =
     (case DeviceCodeStore_Create (sha256 P) (rand_bytes e) (draws e) (clock e) (attempts e ''DeviceCodes.Create'') (sv_codes s) of
        (Inl err, t) \<Rightarrow> (Reject 500 (''failed to create device code: '' @ Error err), s\<lparr>sv_codes := t\<rparr>)
      | (Inr dc, t) \<Rightarrow>
          (Reply 200 \<lparr>dr_deviceCode = dc_code dc, dr_userCode = dc_user_code dc, dr_verificationURI = ''/device'',
             dr_verificationURIComplete = ''/device?code='' @ dc_user_code dc,
             dr_expiresIn = seconds_until (dc_expires_at dc) (nanos e 0), dr_interval = 5\<rparr>, s\<lparr>sv_codes := t\<rparr>))"

text \<open>The part of \<open>Poll\<close> after the code was claimed: \<open>h\<close> is the stored code, \<open>networkID\<close> the authorized network.\<close>

definition poll_enroll ::
  "platform \<Rightarrow> request \<Rightarrow> EnrollRequest \<Rightarrow> string \<Rightarrow> string \<Rightarrow> server \<Rightarrow> enroll_body http \<times> server" where
  "poll_enroll P e b h networkID s =
     (case Networks_Get P e networkID s of
        Inl err \<Rightarrow> (Reject 500 ''network not found'', s)
      | Inr None \<Rightarrow> (Reject 500 ''network not found'', s)
      | Inr (Some network) \<Rightarrow>
          if conflict P network (er_existing b)
          then (Reply 409 (AlreadyEnrolled (n_name network) (n_id network)), s)
          else case NextNodeIndex (fails e ''NextNodeIndex'') networkID (sv_nodes s) of
            Inl err \<Rightarrow> (Reject 500 (''failed to allocate node IP: '' @ Error err), s)
          | Inr nextIndex \<Rightarrow>
              (case NodeAddress (n_subnet network) nextIndex of
                 Inl err \<Rightarrow> (Reject 500 (''failed to allocate node IP: '' @ Error err), s)
               | Inr nextIP \<Rightarrow>
                   let token = generateToken (new_token e 0); nodeID = new_id e 0;
                       node = zero_node\<lparr>nd_id := nodeID, nd_network_id := networkID, nd_ip := prefix_string nextIP,
                                nd_agent_token := token, nd_type := ''node'', nd_status := ''pending''\<rparr>
                   in case create_node P e node s of
                        (Some err, s) \<Rightarrow> (Reject 500 (''failed to create node: '' @ Error err), s)
                      | (None, s) \<Rightarrow>
                          (case node_cert P e network nodeID nextIP deviceNodeCertDuration of
                             None \<Rightarrow> (panic, s)
                           | Some (Inl err) \<Rightarrow> (Reject 500 (''failed to issue cert: '' @ Error err), s)
                           | Some (Inr cert) \<Rightarrow>
                               (case store_cert P e nodeID cert (er_hostname b) (er_os b) (er_arch b) s of
                                  (Some err, s) \<Rightarrow> (Reject 500 (''failed to complete enrollment: '' @ Error err), s)
                                | (None, s) \<Rightarrow>
                                    let s = with_nodes (snd (UpdateDNSName (fails e ''UpdateDNSName'') nodeID
                                                (sanitizeDNSName (er_hostname b)) (sv_nodes s))) s;
                                        s = s\<lparr>sv_codes := snd (SetNodeID (sha256 P) (fails e ''SetNodeID'') h nodeID (sv_codes s))\<rparr>;
                                        s = with_nodes (snd (UpdateAgentRealIP (fails e ''UpdateAgentRealIP'') nodeID
                                                (agent_ip P e) (sv_nodes s))) s
                                    in (Reply 200 (Enrolled (enroll_response P network nodeID cert token (nd_ip node))),
                                        announce_node e networkID nodeID (er_hostname b) s)))))"

definition Poll :: "platform \<Rightarrow> request \<Rightarrow> EnrollRequest option \<Rightarrow> server \<Rightarrow> enroll_body http \<times> server" where
  "Poll P e body s =
     (case body of
        None \<Rightarrow> (Reject 400 ''deviceCode is required'', s)
      | Some b \<Rightarrow>
          if er_token b = [] then (Reject 400 ''deviceCode is required'', s)
          else case GetByDeviceCode (sha256 P) (fails e ''GetByDeviceCode'') (er_token b) (sv_codes s) of
            Inl err \<Rightarrow> (Reject 400 ''invalid device code'', s)
          | Inr None \<Rightarrow> (Reject 400 ''invalid device code'', s)
          | Inr (Some dc) \<Rightarrow>
              if clock e 0 > dc_expires_at dc then (Reject 403 ''expired_token'', s)
              else if dc_status dc = ''pending'' then (Reject 403 ''authorization_pending'', s)
              else if dc_status dc = ''completed'' then (Reject 400 ''already completed'', s)
              else case ClaimAuthorized (sha256 P) (steps e ''ClaimAuthorized'') (clock e 1) (er_token b) (sv_codes s) of
                (Inl err, t) \<Rightarrow> (Reject 500 (''enrollment failed: '' @ Error err), s\<lparr>sv_codes := t\<rparr>)
              | (Inr None, t) \<Rightarrow> (Reject 403 ''authorization_pending'', s\<lparr>sv_codes := t\<rparr>)
              | (Inr (Some dc), t) \<Rightarrow>
                  (case dc_network_id dc of
                     None \<Rightarrow> (panic, s\<lparr>sv_codes := t\<rparr>)
                   | Some networkID \<Rightarrow> poll_enroll P e b (dc_code dc) networkID (s\<lparr>sv_codes := t\<rparr>)))"

definition Authorize ::
  "platform \<Rightarrow> request \<Rightarrow> UserProfile \<Rightarrow> (string \<times> string) option \<Rightarrow> server \<Rightarrow> string http \<times> server" where
  "Authorize P e user body s =
     (case body of
        None \<Rightarrow> (Reject 400 ''userCode and networkId are required'', s)
      | Some (userCode, networkID) \<Rightarrow>
          if userCode = [] \<or> networkID = [] then (Reject 400 ''userCode and networkId are required'', s)
          else enroll_only P e user networkID s (\<lambda>network.
              case DeviceCodeStore_Authorize (fails e ''DeviceCodes.Authorize'') (clock e 0) userCode (p_id user)
                          networkID (sv_codes s) of
                (Some err, t) \<Rightarrow> (Reject 400 (Error err), s\<lparr>sv_codes := t\<rparr>)
              | (None, t) \<Rightarrow> (Reply 200 ''authorized'', s\<lparr>sv_codes := t\<rparr>)))"

definition VerifyCode :: "request \<Rightarrow> string \<Rightarrow> server \<Rightarrow> (string \<times> string \<times> int) http" where
  "VerifyCode e code s =
     (case GetByUserCode (fails e ''GetByUserCode'') (clock e 0) code (sv_codes s) of
        Inl err \<Rightarrow> Reject 404 ''invalid or expired code''
      | Inr None \<Rightarrow> Reject 404 ''invalid or expired code''
      | Inr (Some dc) \<Rightarrow> Reply 200 (dc_user_code dc, dc_status dc, seconds_until (dc_expires_at dc) (nanos e 0)))"

section \<open>Enrollment with a token\<close>

definition CreateNode ::
  "platform \<Rightarrow> request \<Rightarrow> UserProfile \<Rightarrow> string \<Rightarrow> server \<Rightarrow> CreateNodeResponse http \<times> server" where
  "CreateNode P e user networkID s =
     enroll_only P e user networkID s (\<lambda>network.
          case NextNodeIndex (fails e ''NextNodeIndex'') networkID (sv_nodes s) of
            Inl err \<Rightarrow> (Reject 500 (''failed to determine next node IP: '' @ Error err), s)
          | Inr nextIndex \<Rightarrow>
              (case NodeAddress (n_subnet network) nextIndex of
                 Inl err \<Rightarrow> (Reject 500 (''failed to allocate node IP: '' @ Error err), s)
               | Inr nextIP \<Rightarrow>
                   let enrollToken = generateToken (new_token e 0); token = generateToken (new_token e 1);
                       node = zero_node\<lparr>nd_id := new_id e 0, nd_network_id := networkID,
                                nd_ip := prefix_string nextIP, nd_agent_token := token,
                                nd_enroll_token := Some enrollToken,
                                nd_enroll_expires := Some (clock e 0 + 10 * 60), nd_status := ''pending''\<rparr>
                   in case create_node P e node s of
                        (Some err, s) \<Rightarrow>
                          (if IsUniqueViolation (Some err)
                           then (Reject 409 ''node IP conflict, please try again'', s)
                           else (Reject 500 (''failed to create node: '' @ Error err), s))
                      | (None, s) \<Rightarrow>
                          (Reply 201 \<lparr>cn_nodeId = nd_id node, cn_token = enrollToken, cn_endpoint = endpoint_url P,
                                      cn_ip = nd_ip node\<rparr>, s)))"

definition Enroll :: "platform \<Rightarrow> request \<Rightarrow> EnrollRequest option \<Rightarrow> server \<Rightarrow> enroll_body http \<times> server" where
  "Enroll P e body s =
     (case body of
        None \<Rightarrow> (Reject 400 ''token is required'', s)
      | Some b \<Rightarrow>
          if er_token b = [] then (Reject 400 ''token is required'', s)
          else case ClaimEnrollmentToken (sha256 P) (aead P) (encryptor P) (steps e ''ClaimEnrollmentToken'') (clock e 0)
                      (er_token b) (sv_nodes s) of
            (Inl err, t) \<Rightarrow> (Reject 401 ''invalid enrollment token'', with_nodes t s)
          | (Inr None, t) \<Rightarrow> (Reject 401 ''invalid enrollment token'', with_nodes t s)
          | (Inr (Some node), t) \<Rightarrow>
              (let s = with_nodes t s in
               case Networks_Get P e (nd_network_id node) s of
                 Inl err \<Rightarrow> (Reject 500 ''network not found'', s)
               | Inr None \<Rightarrow> (Reject 500 ''network not found'', s)
               | Inr (Some network) \<Rightarrow>
                   if conflict P network (er_existing b)
                   then (Reply 409 (AlreadyEnrolled (n_name network) (n_id network)), s)
                   else case ParsePrefix (nd_ip node) of
                     Inl err \<Rightarrow> (Reject 500 ''invalid node IP'', s)
                   | Inr nodeIP \<Rightarrow>
                       (case node_cert P e network (nd_id node) nodeIP nodeCertDuration of
                          None \<Rightarrow> (panic, s)
                        | Some (Inl err) \<Rightarrow> (Reject 500 (''failed to issue node cert: '' @ Error err), s)
                        | Some (Inr cert) \<Rightarrow>
                            (case store_cert P e (nd_id node) cert (er_hostname b) (er_os b) (er_arch b) s of
                               (Some err, s) \<Rightarrow> (Reject 500 (''failed to complete enrollment: '' @ Error err), s)
                             | (None, s) \<Rightarrow>
                                 (Reply 200 (Enrolled (enroll_response P network (nd_id node) cert (nd_agent_token node)
                                    (nd_ip node))),
                                  announce_node e (nd_network_id node) (nd_id node) (er_hostname b)
                                    (note_node P e (nd_id node) (er_hostname b) s))))))"

text \<open>\<open>er_token\<close> is not part of the body of a join.\<close>

definition JoinNetwork ::
  "platform \<Rightarrow> request \<Rightarrow> UserProfile \<Rightarrow> string \<Rightarrow> EnrollRequest option \<Rightarrow> server \<Rightarrow> EnrollResponse http \<times> server" where
  "JoinNetwork P e user networkID body s =
     enroll_only P e user networkID s (\<lambda>network.
          case body of
            None \<Rightarrow> (Reject 400 ''invalid request'', s)
          | Some b \<Rightarrow>
              (case NextNodeIndex (fails e ''NextNodeIndex'') networkID (sv_nodes s) of
                 Inl err \<Rightarrow> (Reject 500 (''failed to allocate IP: '' @ Error err), s)
               | Inr nextIndex \<Rightarrow>
                   (case NodeAddress (n_subnet network) nextIndex of
                      Inl err \<Rightarrow> (Reject 500 (''failed to allocate IP: '' @ Error err), s)
                    | Inr nextIP \<Rightarrow>
                        let token = generateToken (new_token e 0); nodeID = new_id e 0;
                            node = zero_node\<lparr>nd_id := nodeID, nd_network_id := networkID, nd_hostname := er_hostname b,
                                     nd_os := er_os b, nd_arch := er_arch b, nd_ip := prefix_string nextIP,
                                     nd_agent_token := token, nd_type := ''node'', nd_status := ''enrolled''\<rparr>
                        in case create_node P e node s of
                             (Some err, s) \<Rightarrow> (Reject 500 (''failed to create node: '' @ Error err), s)
                           | (None, s) \<Rightarrow>
                               (case node_cert P e network nodeID nextIP nodeCertDuration of
                                  None \<Rightarrow> (panic, s)
                                | Some (Inl err) \<Rightarrow> (Reject 500 (''failed to issue cert: '' @ Error err), s)
                                | Some (Inr cert) \<Rightarrow>
                                    (case store_cert P e nodeID cert (er_hostname b) (er_os b) (er_arch b) s of
                                       (Some err, s) \<Rightarrow> (Reject 500 (''failed to complete enrollment: '' @ Error err), s)
                                     | (None, s) \<Rightarrow>
                                         (Reply 200 (enroll_response P network nodeID cert token (nd_ip node)),
                                          emit (RefreshDNS networkID) (note_node P e nodeID (er_hostname b) s)))))))"

end
