(* ===== verification/Sharing.thy ===== *)
theory Sharing
  imports Server
begin

text \<open>
  Sharing a network (src/internal/api/invites.go, members.go): an administrator issues invite codes,
  any authenticated user redeems one, administrators list and revoke invites and members.
\<close>

section \<open>Invites\<close>

record invite_request =
  iq_maxUses :: "int option"
  iq_expiresIn :: "int option"
  iq_role :: string

record inviteResponse =
  ir_id :: string
  ir_code :: string
  ir_role :: string
  ir_maxUses :: "int option"
  ir_useCount :: int
  ir_expiresAt :: "int option"
  ir_createdAt :: int

definition generateInviteCode :: "string \<Rightarrow> string" where
  "generateInviteCode b = EncodeToString b"

text \<open>The sum of two 64-bit integers wraps around.\<close>

definition expiry_of :: "int \<Rightarrow> int option \<Rightarrow> int option" where
  "expiry_of now expiresIn =
     (case expiresIn of Some d \<Rightarrow> if d > 0 then Some (wrap64 (now + d)) else None | None \<Rightarrow> None)"

definition CreateInvite ::
  "platform \<Rightarrow> request \<Rightarrow> UserProfile \<Rightarrow> string \<Rightarrow> invite_request option \<Rightarrow> server \<Rightarrow> inviteResponse http \<times> server" where
  "CreateInvite P e user networkID body s =
     admin_only P e user networkID s (\<lambda>network.
       case body of
         None \<Rightarrow> (Reject 400 ''invalid request'', s)
       | Some req \<Rightarrow>
           let role = (if iq_role req \<noteq> ''admin'' then ''member'' else iq_role req);
               invite = \<lparr>i_id = new_id e 0, i_network_id = networkID, i_created_by = p_id user,
                         i_code = generateInviteCode (new_token e 0), i_role = role, i_max_uses = iq_maxUses req,
                         i_use_count = 0, i_expires_at = expiry_of (clock e 0) (iq_expiresIn req), i_created_at = 0\<rparr>
           in case InviteStore_Create (fails e ''Invites.Create'') (clock e 1) invite (sv_invites s) of
                (Some err, t) \<Rightarrow> (Reject 500 ''failed to create invite'', s\<lparr>sv_invites := t\<rparr>)
              | (None, t) \<Rightarrow>
                  (Reply 201 \<lparr>ir_id = i_id invite, ir_code = i_code invite, ir_role = i_role invite,
                     ir_maxUses = i_max_uses invite, ir_useCount = 0, ir_expiresAt = i_expires_at invite,
                     ir_createdAt = clock e 2\<rparr>, s\<lparr>sv_invites := t\<rparr>))"

definition ListInvites ::
  "platform \<Rightarrow> request \<Rightarrow> UserProfile \<Rightarrow> string \<Rightarrow> server \<Rightarrow> inviteResponse list http \<times> server" where
  "ListInvites P e user networkID s =
     admin_only P e user networkID s (\<lambda>network.
       case InviteStore_ListForNetwork (fails e ''Invites.ListForNetwork'') networkID (sv_invites s) of
         Inl err \<Rightarrow> (Reject 500 ''failed to list invites'', s)
       | Inr invites \<Rightarrow>
           (Reply 200 (map (\<lambda>i. \<lparr>ir_id = i_id i, ir_code = i_code i, ir_role = i_role i, ir_maxUses = i_max_uses i,
              ir_useCount = i_use_count i, ir_expiresAt = i_expires_at i, ir_createdAt = i_created_at i\<rparr>) invites), s))"

definition DeleteInvite_handler ::
  "platform \<Rightarrow> request \<Rightarrow> UserProfile \<Rightarrow> string \<Rightarrow> string \<Rightarrow> server \<Rightarrow> unit http \<times> server" where
  "DeleteInvite_handler P e user networkID inviteID s =
     admin_only P e user networkID s (\<lambda>network.
       case InviteStore_Delete (fails e ''Invites.Delete'') inviteID (sv_invites s) of
         (Some err, t) \<Rightarrow> (Reject 500 ''failed to delete invite'', s\<lparr>sv_invites := t\<rparr>)
       | (None, t) \<Rightarrow> (Reply 204 (), s\<lparr>sv_invites := t\<rparr>))"

record invite_page =
  ip_code :: string
  ip_networkId :: string
  ip_networkName :: string
  ip_role :: string
  ip_expiresAt :: "int option"

definition GetInviteByCode_handler :: "platform \<Rightarrow> request \<Rightarrow> string \<Rightarrow> server \<Rightarrow> invite_page http" where
  "GetInviteByCode_handler P e code s =
     (case GetByCode (fails e ''Invites.GetByCode'') code (sv_invites s) of
        Inl err \<Rightarrow> Reject 404 ''invite not found''
      | Inr invite \<Rightarrow>
          if (case i_expires_at invite of None \<Rightarrow> False | Some x \<Rightarrow> x < clock e 0) then Reject 410 ''invite has expired''
          else if (case i_max_uses invite of None \<Rightarrow> False | Some m \<Rightarrow> i_use_count invite \<ge> m)
          then Reject 410 ''invite has reached its maximum uses''
          else case Networks_Get P e (i_network_id invite) s of
            Inl err \<Rightarrow> Reject 404 ''network not found''
          | Inr None \<Rightarrow> Reject 404 ''network not found''
          | Inr (Some network) \<Rightarrow>
              Reply 200 \<lparr>ip_code = i_code invite, ip_networkId = i_network_id invite, ip_networkName = n_name network,
                ip_role = i_role invite, ip_expiresAt = i_expires_at invite\<rparr>)"

definition AcceptInvite ::
  "request \<Rightarrow> UserProfile \<Rightarrow> string \<Rightarrow> server \<Rightarrow> (string \<times> string) http \<times> server" where
  "AcceptInvite e user code s =
     (case InviteStore_Claim (steps e ''Invites.Claim'') (clock e 0) (clock e 1) code (sv_invites s) of
        (Inl err, t) \<Rightarrow> (Reject 400 (Error err), s\<lparr>sv_invites := t\<rparr>)
      | (Inr invite, t) \<Rightarrow>
          (let s = s\<lparr>sv_invites := t\<rparr> in
           if Members_Get e (i_network_id invite) (p_id user) s \<noteq> None
           then (Reject 409 ''already a member of this network'', s)
           else case NetworkMemberStore_Add (fails e ''Members.Add'') (clock e 2) (new_id e 0) (i_network_id invite)
                       (p_id user) (i_role invite) (sv_members s) of
             (Some err, m) \<Rightarrow>
               (if IsUniqueViolation (Some err)
                then (Reject 409 ''already a member of this network'', s\<lparr>sv_members := m\<rparr>)
                else (Reject 500 ''failed to join network'', s\<lparr>sv_members := m\<rparr>))
           | (None, m) \<Rightarrow> (Reply 201 (i_network_id invite, i_role invite), s\<lparr>sv_members := m\<rparr>)))"

section \<open>Members\<close>

definition ListMembers ::
  "platform \<Rightarrow> request \<Rightarrow> UserProfile \<Rightarrow> string \<Rightarrow> server \<Rightarrow> NetworkMemberWithUser list http \<times> server" where
  "ListMembers P e user networkID s =
     view_only P e user networkID s (\<lambda>network.
       case NetworkMemberStore_ListForNetwork (fails e ''Members.ListForNetwork'') networkID (sv_users s) (sv_members s) of
         Inl err \<Rightarrow> (Reject 500 ''failed to list members'', s)
       | Inr members \<Rightarrow> (Reply 200 members, s))"

definition RemoveMember ::
  "platform \<Rightarrow> request \<Rightarrow> UserProfile \<Rightarrow> string \<Rightarrow> string \<Rightarrow> server \<Rightarrow> unit http \<times> server" where
  "RemoveMember P e user networkID memberID s =
     admin_only P e user networkID s (\<lambda>network.
       case NetworkMemberStore_Remove (fails e ''Members.Remove'') memberID (sv_members s) of
         (Some err, t) \<Rightarrow>
           (if err = ErrNoRows then (Reject 404 ''member not found'', s\<lparr>sv_members := t\<rparr>)
            else (Reject 500 ''failed to remove member'', s\<lparr>sv_members := t\<rparr>))
       | (None, t) \<Rightarrow>
           (Reply 204 (), s\<lparr>sv_members := t, sv_cache := InvalidateProxyCache networkID [] (sv_cache s)\<rparr>))"

section \<open>Redeeming an invite\<close>

lemma Claim_ok:
  assumes "InviteStore_Claim f now now' code t = (Inr invite, t')"
  shows "\<exists>i \<in> set t. i_code i = code \<and> (case i_expires_at i of None \<Rightarrow> True | Some x \<Rightarrow> x > now)
            \<and> (case i_max_uses i of None \<Rightarrow> True | Some m \<Rightarrow> i_use_count i < m)"
    and "i_code invite = code" and "invite \<in> set t'"
proof -
  have n: "f ''exec'' = None" "affected (claimable code now) t \<noteq> 0"
    using assms by (auto simp: InviteStore_Claim_def AtomicClaimInvite_def execresult_def split: option.splits sum.splits if_splits)
  then obtain i where "i \<in> set t" "claimable code now i" by (auto simp: affected_0_iff)
  then show "\<exists>i \<in> set t. i_code i = code \<and> (case i_expires_at i of None \<Rightarrow> True | Some x \<Rightarrow> x > now)
            \<and> (case i_max_uses i of None \<Rightarrow> True | Some m \<Rightarrow> i_use_count i < m)"
    by (auto simp: claimable_def)
  have "GetByCode (f ''get'') code t' = Inr invite"
    using assms n by (auto simp: InviteStore_Claim_def AtomicClaimInvite_def execresult_def split: option.splits sum.splits if_splits)
  then show "i_code invite = code" "invite \<in> set t'"
    by (auto simp: GetByCode_def GetInviteByCode_def dest!: query_one_Inr select_one_Inr)
qed

end
