(* ===== verification/NetworkManager.thy ===== *)
theory NetworkManager
  imports Nodes Resources
begin

text \<open>
  The lighthouse of each network (src/internal/mesh/network_manager.go). \<open>nm_instances\<close> is the map from
  network to instance; a key with \<open>None\<close> is the nil sentinel of a lighthouse that is being started.
  Starting Nebula, its service and the DNS listener is outside the repository: \<open>boot x\<close> is the
  outcome of the step \<open>x\<close>, which is \<open>nebula\<close>, \<open>service\<close>, \<open>dns\<close> or, for loading a configuration, the text of it. Every Nebula service that was started and not closed is in \<open>nm_live\<close>,
  identified by a serial number.

  The mutex makes each critical section atomic. The functions below compose them as one caller sees
  them; the step relation at the end interleaves the sections of any number of callers.
\<close>

definition baseLighthousePort :: int where
  "baseLighthousePort = 42001"

definition baseDNSPort :: int where
  "baseDNSPort = 15300"

record NetworkInstance =
  ni_network_id :: string
  ni_slug :: string
  ni_udp_port :: int
  ni_dns_domain :: string
  ni_dns :: "MeshDNS option"
  ni_serial :: nat

record NetworkManager =
  nm_instances :: "(string \<times> NetworkInstance option) list"
  nm_live :: "nat list"
  nm_next :: nat

abbreviation slot :: "string \<Rightarrow> NetworkManager \<Rightarrow> NetworkInstance option option" where
  "slot networkID nm \<equiv> map_of (nm_instances nm) networkID"

section \<open>Starting and stopping\<close>

text \<open>The critical section that plants the sentinel; \<open>None\<close> when the network already has a slot.\<close>

definition plant :: "string \<Rightarrow> NetworkManager \<Rightarrow> NetworkManager option" where
  "plant networkID nm =
     (if slot networkID nm \<noteq> None then None
      else Some (nm\<lparr>nm_instances := AList.update networkID None (nm_instances nm)\<rparr>))"

definition unplant :: "string \<Rightarrow> NetworkManager \<Rightarrow> NetworkManager" where
  "unplant networkID nm =
     (case slot networkID nm of
        Some (Some inst) \<Rightarrow> nm
      | _ \<Rightarrow> nm\<lparr>nm_instances := AList.delete networkID (nm_instances nm)\<rparr>)"

text \<open>The last critical section of \<open>startInstance\<close>: the new instance enters the map.\<close>

definition enter :: "NetworkInstance \<Rightarrow> NetworkManager \<Rightarrow> NetworkManager" where
  "enter inst nm =
     nm\<lparr>nm_instances := AList.update (ni_network_id inst) (Some inst) (nm_instances nm),
        nm_live := nm_live nm @ [ni_serial inst], nm_next := Suc (nm_next nm)\<rparr>"

text \<open>The configuration of a lighthouse; PEM blocks are embedded with an indentation.\<close>

text \<open>\<open>cur\<close> is \<open>s[start:i]\<close>.\<close>

fun lines_from :: "string \<Rightarrow> string \<Rightarrow> string list" where
  "lines_from cur [] = (if cur = [] then [] else [cur])"
| "lines_from cur (c # s) = (if c = CHR 0x0A then cur # lines_from [] s else lines_from (cur @ [c]) s)"

definition splitLines :: "string \<Rightarrow> string list" where
  "splitLines s = lines_from [] s"

definition indentPEM :: "string \<Rightarrow> nat \<Rightarrow> string" where
  "indentPEM pem spaces =
     foldl (\<lambda>lines line. lines @ replicate spaces CHR '' '' @ line @ [CHR 0x0A]) [] (splitLines pem)"

text \<open>The shared defaults of src/internal/nebulacfg/defaults.go that the text below mentions.\<close>

definition Cipher :: string where
  "Cipher = ''aes''"

definition Routines :: int where
  "Routines = 1"

definition HandshakeTryInterval :: string where
  "HandshakeTryInterval = ''20ms''"

definition PunchBack :: bool where
  "PunchBack = True"

definition PunchDelay :: string where
  "PunchDelay = ''100ms''"

definition RespondDelay :: string where
  "RespondDelay = ''500ms''"

definition yaml :: "string list \<Rightarrow> string" where
  "yaml ls = concat (map (\<lambda>l. l @ [CHR 0x0A]) ls)"

definition lighthouse_config :: "Network \<Rightarrow> int \<Rightarrow> string" where
  "lighthouse_config n port =
     yaml [[], ''tun:'', ''  user: true'', ''cipher: '' @ Cipher, ''pki:'',
       ''  ca: |'', indentPEM (n_ca_cert n) 4, ''  cert: |'', indentPEM (n_server_cert n) 4,
       ''  key: |'', indentPEM (n_server_key n) 4,
       ''listen:'', ''  host: 0.0.0.0'', ''  port: '' @ dec port, ''routines: '' @ dec Routines,
       ''handshakes:'', ''  try_interval: '' @ HandshakeTryInterval,
       ''lighthouse:'', ''  am_lighthouse: true'', ''relay:'', ''  am_relay: true'',
       ''punchy:'', ''  punch: true'', ''  respond: true'', ''  punch_back: '' @ (if PunchBack then ''true'' else ''false''),
       ''  delay: '' @ PunchDelay, ''  respond_delay: '' @ RespondDelay, ''  target_all_remotes: true'',
       ''firewall:'', ''  outbound:'', ''    - port: any'', ''      proto: any'', ''      host: any'',
       ''  inbound:'', ''    - port: any'', ''      proto: any'', ''      host: any'']"

definition new_instance :: "(string \<Rightarrow> go_error option) \<Rightarrow> Network \<Rightarrow> int \<Rightarrow> nat \<Rightarrow> NetworkInstance" where
  "new_instance boot n port serial =
     \<lparr>ni_network_id = n_id n, ni_slug = n_slug n, ni_udp_port = port, ni_dns_domain = n_dns_domain n,
      ni_dns = (if n_dns_domain n \<noteq> [] \<and> boot ''dns'' = None
                then Some (NewMeshDNS (baseDNSPort + (port - baseLighthousePort)) (n_dns_domain n)) else None),
      ni_serial = serial\<rparr>"

definition startInstance ::
  "(string \<Rightarrow> go_error option) \<Rightarrow> Network \<Rightarrow> NetworkManager \<Rightarrow> go_error option \<times> NetworkManager" where
  "startInstance boot n nm =
     (case n_port n of
        None \<Rightarrow> (Some (ErrMsg (''network '' @ n_slug n @ '' has no lighthouse port'')), nm)
      | Some port \<Rightarrow>
          (case boot (lighthouse_config n port) of
             Some e \<Rightarrow> (Some (ErrWrap ''load nebula config'' e), nm)
           | None \<Rightarrow>
               (case boot ''nebula'' of
                  Some e \<Rightarrow> (Some (ErrWrap ''start nebula'' e), nm)
                | None \<Rightarrow>
                    (case boot ''service'' of
                       Some e \<Rightarrow> (Some (ErrWrap ''create nebula service'' e), nm)
                     | None \<Rightarrow> (None, enter (new_instance boot n port (nm_next nm)) nm)))))"

definition NetworkManager_StartNetwork ::
  "(string \<Rightarrow> go_error option) \<Rightarrow> Network \<Rightarrow> NetworkManager \<Rightarrow> go_error option \<times> NetworkManager" where
  "NetworkManager_StartNetwork boot n nm =
     (case plant (n_id n) nm of
        None \<Rightarrow> (Some (ErrMsg (''lighthouse for network '' @ n_slug n @ '' already running'')), nm)
      | Some nm \<Rightarrow>
          (case startInstance boot n nm of
             (Some e, nm) \<Rightarrow> (Some e, unplant (n_id n) nm)
           | (None, nm) \<Rightarrow> (None, nm)))"

definition close_instance :: "NetworkInstance \<Rightarrow> NetworkManager \<Rightarrow> NetworkManager" where
  "close_instance inst nm = nm\<lparr>nm_live := remove1 (ni_serial inst) (nm_live nm)\<rparr>"

definition NetworkManager_StopNetwork :: "string \<Rightarrow> NetworkManager \<Rightarrow> NetworkManager" where
  "NetworkManager_StopNetwork networkID nm =
     (case slot networkID nm of
        None \<Rightarrow> nm
      | Some inst \<Rightarrow>
          let nm = nm\<lparr>nm_instances := AList.delete networkID (nm_instances nm)\<rparr>
          in case inst of None \<Rightarrow> nm | Some i \<Rightarrow> close_instance i nm)"

text \<open>\<open>Stop\<close> closes and removes every instance.\<close>

definition NetworkManager_Stop :: "NetworkManager \<Rightarrow> NetworkManager" where
  "NetworkManager_Stop nm =
     foldl (\<lambda>nm networkID. NetworkManager_StopNetwork networkID nm) nm (map fst (nm_instances nm))"

section \<open>DNS records of a network\<close>

definition parseNodeIPForDNS :: "string \<Rightarrow> net_ip option" where
  "parseNodeIPForDNS nebulaIP = ParseIP (before CHR ''/'' nebulaIP)"

text \<open>The record of a node, if it has one: its \<open>dns_name\<close> when set, otherwise its host name.\<close>

definition node_record :: "Node \<Rightarrow> mesh_record option" where
  "node_record n =
     (if nd_ip n = [] \<or> nd_status n = ''pending'' then None
      else case parseNodeIPForDNS (nd_ip n) of
        None \<Rightarrow> None
      | Some ip \<Rightarrow>
          let name = (case nd_dns_name n of
                        Some d \<Rightarrow> if d \<noteq> [] then d else nd_hostname n | None \<Rightarrow> nd_hostname n)
          in if name \<noteq> [] then Some \<lparr>mr_name = name, mr_ip = Some ip\<rparr> else None)"

definition custom_record :: "DNSRecord \<Rightarrow> mesh_record option" where
  "custom_record r =
     (case parseNodeIPForDNS (r_ip r) of
        None \<Rightarrow> None | Some ip \<Rightarrow> Some \<lparr>mr_name = r_name r, mr_ip = Some ip\<rparr>)"

definition dns_of_tables ::
  "go_error option \<Rightarrow> go_error option \<Rightarrow> string \<Rightarrow> nodes \<Rightarrow> dns_records \<Rightarrow> mesh_record list" where
  "dns_of_tables faultN faultR networkID nodes recs =
     (case NodeStore_ListForNetwork faultN networkID nodes of
        Inl e \<Rightarrow> [] | Inr ns \<Rightarrow> List.map_filter node_record ns)
     @ (case DNSRecordStore_ListForNetwork faultR networkID recs of
          Inl e \<Rightarrow> [] | Inr rs \<Rightarrow> List.map_filter custom_record rs)"

text \<open>
  \<open>None\<close> is a panic: the guard \<open>!ok || inst.dns == nil\<close> dereferences the nil sentinel of a lighthouse
  that is being started.
\<close>

definition NetworkManager_RefreshDNS ::
  "go_error option \<Rightarrow> go_error option \<Rightarrow> nodes \<Rightarrow> dns_records \<Rightarrow> string \<Rightarrow> NetworkManager \<Rightarrow> NetworkManager option" where
  "NetworkManager_RefreshDNS faultN faultR nodes recs networkID nm =
     (case slot networkID nm of
        None \<Rightarrow> Some nm
      | Some None \<Rightarrow> None
      | Some (Some inst) \<Rightarrow>
          (case ni_dns inst of
             None \<Rightarrow> Some nm
           | Some d \<Rightarrow>
               let inst = inst\<lparr>ni_dns := Some (SetRecords (dns_of_tables faultN faultR networkID nodes recs) d)\<rparr>
               in Some (nm\<lparr>nm_instances := AList.update networkID (Some inst) (nm_instances nm)\<rparr>)))"

section \<open>Instances on demand\<close>

text \<open>
  \<open>fault\<close> are the failures of the two attempts of \<open>networks.Get\<close>. The three results are an error, a
  panic (the inner \<open>None\<close>) and an instance.
\<close>

record nm_world =
  w_gcm :: gcm
  w_enc :: Encryptor
  w_networks :: networks
  w_nodes :: nodes
  w_dns :: dns_records

definition GetInstance ::
  "(string \<Rightarrow> go_error option) \<Rightarrow> (nat \<Rightarrow> go_error option) \<Rightarrow> (string \<Rightarrow> go_error option) \<Rightarrow> nm_world \<Rightarrow> string \<Rightarrow> NetworkManager
     \<Rightarrow> NetworkInstance option res \<times> NetworkManager" where
  "GetInstance boot fault faultL w networkID nm =
     (case slot networkID nm of
        Some (Some inst) \<Rightarrow> (Inr (Some inst), nm)
      | Some None \<Rightarrow> (Inl (ErrMsg ''lighthouse for network is starting, retry shortly''), nm)
      | None \<Rightarrow>
          (case NetworkStore_Get (w_gcm w) (w_enc w) fault networkID (w_networks w) of
             Inl e \<Rightarrow> (Inl (ErrMsg ''no lighthouse running for network''), nm)
           | Inr None \<Rightarrow> (Inl (ErrMsg ''no lighthouse running for network''), nm)
           | Inr (Some n) \<Rightarrow>
               if n_port n = None then (Inl (ErrMsg ''no lighthouse running for network''), nm)
               else
                 let nm = nm\<lparr>nm_instances := AList.update networkID None (nm_instances nm)\<rparr> in
                 case startInstance boot n nm of
                   (Some e, nm) \<Rightarrow> (Inl (ErrWrap ''failed to restart lighthouse'' e), unplant networkID nm)
                 | (None, nm) \<Rightarrow>
                     (case NetworkManager_RefreshDNS (faultL ''nodes'') (faultL ''dns'') (w_nodes w) (w_dns w) networkID nm of
                        None \<Rightarrow> (Inr None, nm)
                      | Some nm \<Rightarrow>
                          (case slot networkID nm of
                             Some (Some inst) \<Rightarrow> (Inr (Some inst), nm)
                           | _ \<Rightarrow> (Inl (ErrMsg (''lighthouse failed to start for network '' @ networkID)), nm)))))"

text \<open>The start-up loop over all stored networks; the first argument is the boot outcome per network.\<close>

fun start_all ::
  "(string \<Rightarrow> string \<Rightarrow> go_error option) \<Rightarrow> (string \<Rightarrow> go_error option) \<Rightarrow> nodes \<Rightarrow> dns_records \<Rightarrow> Network list \<Rightarrow> NetworkManager
     \<Rightarrow> NetworkManager option" where
  "start_all boot faultL nodes recs [] nm = Some nm"
| "start_all boot faultL nodes recs (n # ns) nm =
     (if n_port n = None then start_all boot faultL nodes recs ns nm
      else case startInstance (boot (n_id n)) n nm of
        (Some e, nm) \<Rightarrow> start_all boot faultL nodes recs ns nm
      | (None, nm) \<Rightarrow>
          (case NetworkManager_RefreshDNS (faultL (''nodes'' @ n_id n)) (faultL (''dns'' @ n_id n)) nodes recs (n_id n) nm of
             None \<Rightarrow> None
           | Some nm \<Rightarrow> start_all boot faultL nodes recs ns nm))"

definition NewNetworkManager ::
  "(string \<Rightarrow> string \<Rightarrow> go_error option) \<Rightarrow> go_error option \<Rightarrow> (string \<Rightarrow> go_error option) \<Rightarrow> nm_world \<Rightarrow> NetworkManager option res" where
  "NewNetworkManager boot fault faultL w =
     (case NetworkStore_ListAll (w_gcm w) (w_enc w) fault (w_networks w) of
        Inl e \<Rightarrow> Inl (ErrWrap ''list networks'' e)
      | Inr ns \<Rightarrow> Inr (start_all boot faultL (w_nodes w) (w_dns w) ns \<lparr>nm_instances = [], nm_live = [], nm_next = 0\<rparr>))"

section \<open>Reaping idle lighthouses\<close>

text \<open>\<open>fault\<close> is indexed by the query and the network.\<close>

definition idle :: "(string \<Rightarrow> string \<Rightarrow> go_error option) \<Rightarrow> int \<Rightarrow> nodes \<Rightarrow> string \<Rightarrow> bool" where
  "idle fault cutoff nodes networkID =
     (case CountNonPendingForNetwork (fault ''count'' networkID) networkID nodes of (count, err) \<Rightarrow>
        if err \<noteq> None then False
        else if count = 0 then
          (case CountForNetwork (fault ''total'' networkID) networkID nodes of (n, err) \<Rightarrow>
             if err \<noteq> None then False else \<not> n > 0)
        else case MaxLastSeenForNetwork (fault ''seen'' networkID) networkID nodes of
          Inl e \<Rightarrow> False
        | Inr lastSeen \<Rightarrow> (case lastSeen of None \<Rightarrow> True | Some t \<Rightarrow> t < cutoff))"

definition reapIdleInstances ::
  "(string \<Rightarrow> string \<Rightarrow> go_error option) \<Rightarrow> int \<Rightarrow> int \<Rightarrow> nodes \<Rightarrow> NetworkManager \<Rightarrow> NetworkManager" where
  "reapIdleInstances fault now threshold nodes nm =
     foldl (\<lambda>nm networkID. if idle fault (now - threshold) nodes networkID then NetworkManager_StopNetwork networkID nm else nm)
       nm (map fst (filter (\<lambda>(i, inst). inst \<noteq> None) (nm_instances nm)))"

definition AllocatePort :: "go_error option \<Rightarrow> networks \<Rightarrow> int res" where
  "AllocatePort fault nets =
     (case FirstAvailableLighthousePort fault nets of
        Inl e \<Rightarrow> Inl (ErrWrap ''query available lighthouse port'' e)
      | Inr port \<Rightarrow> if port > 65535 then Inl (ErrMsg ''no available UDP ports (max 65535)'') else Inr port)"

section \<open>Endpoints of a peer\<close>

text \<open>
  \<open>cache\<close> is the answer of the lighthouse (\<open>None\<close> for nil): per source the reported and the learned
  endpoints; \<open>valid\<close> is \<open>netip.AddrPort.IsValid\<close>.
\<close>

fun collect :: "('a \<Rightarrow> bool) \<Rightarrow> 'a list \<Rightarrow> 'a set \<times> 'a list \<Rightarrow> 'a set \<times> 'a list" where
  "collect valid [] st = st"
| "collect valid (ep # eps) (seen, out) =
     (if \<not> valid ep \<or> ep \<in> seen then collect valid eps (seen, out)
      else collect valid eps (insert ep seen, out @ [ep]))"

definition PeerEndpoints :: "('a \<Rightarrow> bool) \<Rightarrow> ('a list \<times> 'a list) option list option \<Rightarrow> 'a list option" where
  "PeerEndpoints valid cache =
     (case cache of
        None \<Rightarrow> None
      | Some cs \<Rightarrow>
          let sources = List.map_filter id cs;
              st = foldl (\<lambda>st c. collect valid (fst c) st) ({}, []) sources;
              st = foldl (\<lambda>st c. collect valid (snd c) st) st sources
          in Some (snd st))"

section \<open>Any number of callers\<close>

text \<open>
  The sections of concurrent calls interleave. \<open>booting\<close> lists the networks for which some caller of
  \<open>StartNetwork\<close> or \<open>GetInstance\<close> has planted a sentinel and is inside \<open>startInstance\<close>. With \<open>guarded\<close> no
  network is stopped while one of its starts is under way; without, a stop can come at any time.
\<close>

record nm_sys =
  mgr :: NetworkManager
  booting :: "string list"

inductive nm_step :: "bool \<Rightarrow> nm_sys \<Rightarrow> nm_sys \<Rightarrow> bool" for guarded :: bool where
  begin_start: "plant i (mgr s) = Some m \<Longrightarrow> nm_step guarded s (s\<lparr>mgr := m, booting := i # booting s\<rparr>)"
| started: "i \<in> set (booting s) \<Longrightarrow> ni_network_id inst = i \<Longrightarrow> ni_serial inst = nm_next (mgr s) \<Longrightarrow>
     nm_step guarded s (s\<lparr>mgr := enter inst (mgr s), booting := remove1 i (booting s)\<rparr>)"
| start_failed: "i \<in> set (booting s) \<Longrightarrow>
     nm_step guarded s (s\<lparr>mgr := unplant i (mgr s), booting := remove1 i (booting s)\<rparr>)"
| refresh: "NetworkManager_RefreshDNS f g nodes recs i (mgr s) = Some m \<Longrightarrow> nm_step guarded s (s\<lparr>mgr := m\<rparr>)"
| stop: "\<not> guarded \<or> i \<notin> set (booting s) \<Longrightarrow>
     nm_step guarded s (s\<lparr>mgr := NetworkManager_StopNetwork i (mgr s)\<rparr>)"

definition nm_init :: nm_sys where
  "nm_init = \<lparr>mgr = \<lparr>nm_instances = [], nm_live = [], nm_next = 0\<rparr>, booting = []\<rparr>"

definition running :: "string \<Rightarrow> nat \<Rightarrow> NetworkManager \<Rightarrow> bool" where
  "running i k m \<longleftrightarrow> (\<exists>inst. slot i m = Some (Some inst) \<and> ni_serial inst = k)"

definition nm_ok :: "nm_sys \<Rightarrow> bool" where
  "nm_ok s \<longleftrightarrow>
     distinct (booting s) \<and> distinct (nm_live (mgr s))
     \<and> (\<forall>i. slot i (mgr s) = Some None \<longleftrightarrow> i \<in> set (booting s))
     \<and> (\<forall>k. k \<in> set (nm_live (mgr s)) \<longleftrightarrow> (\<exists>i. running i k (mgr s)))
     \<and> (\<forall>i k. running i k (mgr s) \<longrightarrow> k < nm_next (mgr s))
     \<and> (\<forall>i j k. running i k (mgr s) \<longrightarrow> running j k (mgr s) \<longrightarrow> i = j)"

lemma nm_okD:
  assumes "nm_ok s"
  shows "distinct (booting s)" "distinct (nm_live (mgr s))"
    "slot i (mgr s) = Some None \<longleftrightarrow> i \<in> set (booting s)"
    "k \<in> set (nm_live (mgr s)) \<longleftrightarrow> (\<exists>i. running i k (mgr s))"
    "running i k (mgr s) \<Longrightarrow> k < nm_next (mgr s)"
    "running i k (mgr s) \<Longrightarrow> running j k (mgr s) \<Longrightarrow> i = j"
  using assms unfolding nm_ok_def by blast+

lemma nm_slots:
  "slot i (m\<lparr>nm_instances := AList.update j v (nm_instances m)\<rparr>) = (if i = j then Some v else slot i m)"
  "slot i (m\<lparr>nm_instances := AList.delete j (nm_instances m)\<rparr>) = (if i = j then None else slot i m)"
  by (simp_all add: update_conv' delete_conv')

lemma plant_slot:
  assumes "plant j m = Some m'"
  shows "slot j m = None" "slot i m' = (if i = j then Some None else slot i m)" "nm_live m' = nm_live m" "nm_next m' = nm_next m"
  using assms by (auto simp: plant_def nm_slots update_conv' split: if_splits)

lemma enter_slot:
  "slot i (enter inst m) = (if i = ni_network_id inst then Some (Some inst) else slot i m)"
  "nm_live (enter inst m) = nm_live m @ [ni_serial inst]" "nm_next (enter inst m) = Suc (nm_next m)"
  by (simp_all add: enter_def update_conv')

lemma unplant_slot:
  assumes "slot j m = Some None"
  shows "slot i (unplant j m) = (if i = j then None else slot i m)"
    "nm_live (unplant j m) = nm_live m" "nm_next (unplant j m) = nm_next m"
  using assms by (simp_all add: unplant_def delete_conv')

lemma Stop_slot:
  "slot i (NetworkManager_StopNetwork j m) = (if i = j then None else slot i m)"
  "nm_next (NetworkManager_StopNetwork j m) = nm_next m"
  "nm_live (NetworkManager_StopNetwork j m) =
     (case slot j m of Some (Some inst) \<Rightarrow> remove1 (ni_serial inst) (nm_live m) | _ \<Rightarrow> nm_live m)"
  by (auto simp: NetworkManager_StopNetwork_def close_instance_def delete_conv' Let_def split: option.splits)

lemma Refresh_slot:
  assumes "NetworkManager_RefreshDNS f g nodes recs j m = Some m'"
  shows "slot i m' = Some None \<longleftrightarrow> slot i m = Some None" "running i k m' \<longleftrightarrow> running i k m"
    "nm_live m' = nm_live m" "nm_next m' = nm_next m"
  using assms
  by (auto simp: NetworkManager_RefreshDNS_def running_def update_conv' Let_def split: option.splits if_splits)

lemma nm_step_ok: "nm_step True s t \<Longrightarrow> nm_ok s \<Longrightarrow> nm_ok t"
proof (induction rule: nm_step.induct)
  case (begin_start i s m)
  note P = plant_slot [OF begin_start.hyps]
  have "running j k m \<longleftrightarrow> running j k (mgr s)" for j k using P(1,2) by (auto simp: running_def)
  moreover have "i \<notin> set (booting s)" using begin_start.prems P(1) unfolding nm_ok_def by (metis option.distinct(1))
  ultimately show ?case using begin_start.prems P by (auto simp: nm_ok_def)
next
  case (started i s inst)
  have sl: "slot i (mgr s) = Some None" using started by (simp add: nm_ok_def)
  have run: "running j k (enter inst (mgr s)) \<longleftrightarrow> (if j = i then k = nm_next (mgr s) else running j k (mgr s))" for j k
    using started by (auto simp: running_def enter_slot)
  have fresh: "\<not> running j (nm_next (mgr s)) (mgr s)" "\<not> running i k (mgr s)" for j k
    using nm_okD(5) [OF started.prems, of j "nm_next (mgr s)"] sl by (auto simp: running_def)
  have "nm_next (mgr s) \<notin> set (nm_live (mgr s))" using fresh nm_okD(4) [OF started.prems] by blast
  moreover have "k \<in> set (nm_live (enter inst (mgr s))) \<longleftrightarrow> (\<exists>j. running j k (enter inst (mgr s)))" for k
    unfolding run enter_slot(2) using fresh nm_okD(4) [OF started.prems, of k] started.hyps(3) by (simp; metis)
  moreover have "running j k (enter inst (mgr s)) \<Longrightarrow> k < Suc (nm_next (mgr s))" for j k
    using nm_okD(5) [OF started.prems, of j k] by (auto simp: run less_Suc_eq split: if_splits)
  moreover have "running j k (enter inst (mgr s)) \<Longrightarrow> running l k (enter inst (mgr s)) \<Longrightarrow> j = l" for j l k
    using nm_okD(6) [OF started.prems, of j k l] fresh by (auto simp: run split: if_splits)
  ultimately show ?case
    using started.hyps nm_okD(1-3) [OF started.prems] by (auto simp: nm_ok_def enter_slot)
next
  case (start_failed i s)
  have sl: "slot i (mgr s) = Some None" using start_failed by (simp add: nm_ok_def)
  have "running j k (unplant i (mgr s)) \<longleftrightarrow> running j k (mgr s)" for j k
    using sl by (auto simp: running_def unplant_slot [OF sl])
  then show ?case using start_failed by (auto simp: nm_ok_def unplant_slot [OF sl])
next
  case (refresh f g nodes recs i s m)
  then show ?case by (simp add: nm_ok_def Refresh_slot [OF refresh.hyps])
next
  case (stop i s)
  have run: "running j k (NetworkManager_StopNetwork i (mgr s)) \<longleftrightarrow> j \<noteq> i \<and> running j k (mgr s)" for j k
    by (auto simp: running_def Stop_slot)
  note D = nm_okD [OF stop.prems]
  have lives: "k \<in> set (nm_live (NetworkManager_StopNetwork i (mgr s))) \<longleftrightarrow> (\<exists>j. j \<noteq> i \<and> running j k (mgr s))" for k
  proof (cases "\<exists>inst. slot i (mgr s) = Some (Some inst)")
    case True
    then obtain inst where inst: "slot i (mgr s) = Some (Some inst)" by blast
    then have "running i l (mgr s) \<longleftrightarrow> l = ni_serial inst" for l by (auto simp: running_def)
    then show ?thesis using D(2) D(4) [of k] D(6) inst by (simp add: Stop_slot) metis
  next
    case False
    then have "\<not> running i k (mgr s)" by (auto simp: running_def)
    then show ?thesis using D(4) [of k] False by (auto simp: Stop_slot split: option.splits)
  qed
  have "distinct (nm_live (NetworkManager_StopNetwork i (mgr s)))"
    using D(2) by (auto simp: Stop_slot split: option.splits)
  then show ?case using stop.hyps D(1,3,5,6) lives unfolding nm_ok_def by (auto simp: run Stop_slot)
qed

lemma nm_init_ok: "nm_ok nm_init"
  by (simp add: nm_ok_def nm_init_def running_def)

lemma nm_reachable_ok: "(nm_step True)\<^sup>*\<^sup>* nm_init s \<Longrightarrow> nm_ok s"
  by (induction rule: rtranclp_induct) (auto intro: nm_init_ok nm_step_ok)

text \<open>A call that runs alone is a run of the relation.\<close>

lemma StartNetwork_steps:
  "(nm_step True)\<^sup>*\<^sup>* s (s\<lparr>mgr := snd (NetworkManager_StartNetwork boot n (mgr s))\<rparr>)"
proof (cases "plant (n_id n) (mgr s)")
  case None
  then show ?thesis by (simp add: NetworkManager_StartNetwork_def)
next
  case (Some m)
  let ?s = "s\<lparr>mgr := m, booting := n_id n # booting s\<rparr>"
  have b: "nm_step True s ?s" by (rule begin_start [OF Some])
  have "nm_step True ?s (s\<lparr>mgr := snd (NetworkManager_StartNetwork boot n (mgr s))\<rparr>)"
  proof (cases "startInstance boot n m")
    case (Pair r m')
    show ?thesis
    proof (cases r)
      case None
      then obtain port where "m' = enter (new_instance boot n port (nm_next m)) m"
        using Pair by (auto simp: startInstance_def split: option.splits)
      then show ?thesis
        using started [of "n_id n" ?s "new_instance boot n port (nm_next m)" True] Some Pair None
        by (simp add: NetworkManager_StartNetwork_def new_instance_def)
    next
      case (Some e)
      then have "m' = m" using Pair by (auto simp: startInstance_def split: option.splits)
      then show ?thesis
        using start_failed [of "n_id n" ?s True] \<open>plant (n_id n) (mgr s) = Some m\<close> Pair Some
        by (simp add: NetworkManager_StartNetwork_def)
    qed
  qed
  with b show ?thesis by (meson converse_rtranclp_into_rtranclp r_into_rtranclp)
qed


definition sample_instance :: "nat \<Rightarrow> NetworkInstance" where
  "sample_instance k = \<lparr>ni_network_id = ''n1'', ni_slug = ''home'', ni_udp_port = 42001, ni_dns_domain = ''hop'',
     ni_dns = None, ni_serial = k\<rparr>"

definition booted :: nm_sys where
  "booted = \<lparr>mgr = \<lparr>nm_instances = [(''n1'', Some (sample_instance 0))], nm_live = [0], nm_next = 1\<rparr>, booting = []\<rparr>"

lemma boot_steps:
  "nm_step g nm_init (nm_init\<lparr>mgr := (mgr nm_init)\<lparr>nm_instances := [(''n1'', None)]\<rparr>, booting := [''n1'']\<rparr>)"
  "nm_step g (nm_init\<lparr>mgr := (mgr nm_init)\<lparr>nm_instances := [(''n1'', None)]\<rparr>, booting := [''n1'']\<rparr>) booted"
proof -
  show "nm_step g nm_init (nm_init\<lparr>mgr := (mgr nm_init)\<lparr>nm_instances := [(''n1'', None)]\<rparr>, booting := [''n1'']\<rparr>)"
    using begin_start [of "''n1''" nm_init _ g] by (simp add: nm_init_def plant_def)
  show "nm_step g (nm_init\<lparr>mgr := (mgr nm_init)\<lparr>nm_instances := [(''n1'', None)]\<rparr>, booting := [''n1'']\<rparr>) booted"
    using started [of "''n1''" "nm_init\<lparr>mgr := (mgr nm_init)\<lparr>nm_instances := [(''n1'', None)]\<rparr>, booting := [''n1'']\<rparr>"
        "sample_instance 0" g]
    by (simp add: nm_init_def enter_def sample_instance_def booted_def)
qed


text \<open>
  When a network is stopped while it is being started, the lighthouse that comes up afterwards stays:
  the stop removes the sentinel, a second start begins, and the instance of the first one is
  overwritten in the map. Its service runs on, and nothing can close it any more.
\<close>

lemma stop_while_starting_leaks:
  "\<exists>s. (nm_step False)\<^sup>*\<^sup>* nm_init s \<and> booting s = [] \<and> nm_live (mgr s) = [0, 1] \<and> (\<forall>i. \<not> running i 0 (mgr s))"
proof -
  let ?m = "\<lambda>sl live n. \<lparr>nm_instances = sl, nm_live = live, nm_next = n\<rparr>"
  let ?s1 = "\<lparr>mgr = ?m [(''n1'', None)] [] 0, booting = [''n1'']\<rparr>"
  let ?s2 = "\<lparr>mgr = ?m [] [] 0, booting = [''n1'']\<rparr>"
  let ?s3 = "\<lparr>mgr = ?m [(''n1'', None)] [] 0, booting = [''n1'', ''n1'']\<rparr>"
  let ?s4 = "\<lparr>mgr = ?m [(''n1'', Some (sample_instance 0))] [0] 1, booting = [''n1'']\<rparr>"
  let ?s5 = "\<lparr>mgr = ?m [(''n1'', Some (sample_instance 1))] [0, 1] 2, booting = []\<rparr>"
  have "nm_step False nm_init ?s1" using begin_start [of "''n1''" nm_init _ False] by (simp add: nm_init_def plant_def)
  moreover have "nm_step False ?s1 ?s2"
    using stop [of False "''n1''" ?s1] by (simp add: NetworkManager_StopNetwork_def)
  moreover have "nm_step False ?s2 ?s3" using begin_start [of "''n1''" ?s2 _ False] by (simp add: plant_def)
  moreover have "nm_step False ?s3 ?s4"
    using started [of "''n1''" ?s3 "sample_instance 0" False] by (simp add: enter_def sample_instance_def)
  moreover have "nm_step False ?s4 ?s5"
    using started [of "''n1''" ?s4 "sample_instance 1" False] by (simp add: enter_def sample_instance_def numeral_2_eq_2)
  ultimately have "(nm_step False)\<^sup>*\<^sup>* nm_init ?s5"
    by (meson converse_rtranclp_into_rtranclp r_into_rtranclp)
  moreover have "\<not> running i 0 (mgr ?s5)" for i by (simp add: running_def sample_instance_def)
  ultimately show ?thesis by (intro exI [of _ ?s5]) simp
qed

section \<open>Other facts\<close>

lemma collect_spec:
  "seen = set out \<Longrightarrow> distinct out \<Longrightarrow> collect valid eps (seen, out) = (seen', out') \<Longrightarrow>
     seen' = set out' \<and> distinct out' \<and> set out' = set out \<union> {e \<in> set eps. valid e}"
proof (induction valid eps "(seen, out)" arbitrary: seen out rule: collect.induct)
  case (2 valid ep eps seen out)
  show ?case
  proof (cases "\<not> valid ep \<or> ep \<in> seen")
    case True
    then show ?thesis using 2 by auto
  next
    case False
    then show ?thesis using "2.hyps"(2) [OF False] "2.prems" by auto
  qed
qed auto

lemma splitLines_clean: "l \<in> set (lines_from cur s) \<Longrightarrow> CHR 0x0A \<notin> set cur \<Longrightarrow> CHR 0x0A \<notin> set l"
  by (induction cur s rule: lines_from.induct) (auto split: if_splits)

end
