(* ===== verification/Forwards.thy ===== *)
theory Forwards
  imports NetworkManager
begin

text \<open>
  Port forwards (src/internal/mesh/forward.go): each is a local listener that relays connections to a
  port of a node. \<open>fm_forwards\<close> is the map of the manager; \<open>fm_open\<close> lists the forwards whose listener
  is open. Opening a listener and finding the network's instance are outside: their outcomes are
  arguments of \<open>Start\<close>. Times are in nanoseconds, except \<open>pf_created_at\<close> in seconds.
\<close>

record PortForward =
  pf_id :: string
  pf_network_id :: string
  pf_node_id :: string
  pf_remote_port :: int
  pf_local_port :: int
  pf_local_addr :: string
  pf_created_at :: int
  pf_nebula_ip :: string
  pf_active :: int
  pf_last_activity :: int

record ForwardManager =
  fm_forwards :: "(string \<times> PortForward) list"
  fm_open :: "string list"

definition isClosedConnErr :: "go_error option \<Rightarrow> bool" where
  "isClosedConnErr err =
     (case err of None \<Rightarrow> False
      | Some e \<Rightarrow> Contains (Error e) ''use of closed network connection''
          \<or> Contains (Error e) ''connection reset by peer'' \<or> e = ErrMsg ''EOF'')"

definition generateForwardID :: "string \<Rightarrow> string" where
  "generateForwardID b = ''fwd-'' @ EncodeToString b"

definition NewForwardManager :: ForwardManager where
  "NewForwardManager = \<lparr>fm_forwards = [], fm_open = []\<rparr>"

text \<open>\<open>inst\<close>: the error of \<open>GetInstance\<close>; \<open>lsn\<close>: the port and the address of the listener.\<close>

definition ForwardManager_Start ::
  "go_error option \<Rightarrow> (int \<times> string) res \<Rightarrow> string \<Rightarrow> int \<Rightarrow> int \<Rightarrow> string \<Rightarrow> string \<Rightarrow> string \<Rightarrow> int \<Rightarrow> int \<Rightarrow> ForwardManager
     \<Rightarrow> PortForward res \<times> ForwardManager" where
  "ForwardManager_Start inst lsn b now_s now networkID nodeID ip remotePort localPort fm =
     (case inst of
        Some e \<Rightarrow> (Inl (ErrWrap ''mesh instance'' e), fm)
      | None \<Rightarrow>
          (case lsn of
             Inl e \<Rightarrow> (Inl (ErrWrap (''listen on 127.0.0.1:'' @ dec localPort) e), fm)
           | Inr (actualPort, addr) \<Rightarrow>
               let ident = generateForwardID b;
                   pf = \<lparr>pf_id = ident, pf_network_id = networkID, pf_node_id = nodeID, pf_remote_port = remotePort,
                         pf_local_port = actualPort, pf_local_addr = addr, pf_created_at = now_s, pf_nebula_ip = ip,
                         pf_active = 0, pf_last_activity = now\<rparr>
               in (Inr pf, fm\<lparr>fm_forwards := AList.update ident pf (fm_forwards fm), fm_open := fm_open fm @ [ident]\<rparr>)))"

text \<open>\<open>drain\<close> closes the listener; it returns nil after the wait, whatever the connections do.\<close>

definition drain_forward :: "PortForward \<Rightarrow> ForwardManager \<Rightarrow> ForwardManager" where
  "drain_forward pf fm = fm\<lparr>fm_open := remove1 (pf_id pf) (fm_open fm)\<rparr>"

definition StopForNetwork :: "string \<Rightarrow> string \<Rightarrow> ForwardManager \<Rightarrow> go_error option \<times> ForwardManager" where
  "StopForNetwork networkID ident fm =
     (case map_of (fm_forwards fm) ident of
        None \<Rightarrow> (Some (ErrMsg (''port forward '' @ quoted ident @ '' not found'')), fm)
      | Some pf \<Rightarrow>
          if pf_network_id pf \<noteq> networkID then (Some (ErrMsg (''port forward '' @ quoted ident @ '' not found'')), fm)
          else (None, drain_forward pf (fm\<lparr>fm_forwards := AList.delete ident (fm_forwards fm)\<rparr>)))"

definition ForwardManager_Stop :: "string \<Rightarrow> ForwardManager \<Rightarrow> go_error option \<times> ForwardManager" where
  "ForwardManager_Stop ident fm =
     (case map_of (fm_forwards fm) ident of
        None \<Rightarrow> (Some (ErrMsg (''port forward '' @ quoted ident @ '' not found'')), fm)
      | Some pf \<Rightarrow> (None, drain_forward pf (fm\<lparr>fm_forwards := AList.delete ident (fm_forwards fm)\<rparr>)))"

text \<open>The three methods that take the forwards with a property out of the map and drain them.\<close>

definition stop_where :: "(PortForward \<Rightarrow> bool) \<Rightarrow> ForwardManager \<Rightarrow> ForwardManager" where
  "stop_where p fm =
     (let toStop = map snd (filter (\<lambda>(i, pf). p pf) (fm_forwards fm))
      in foldl (\<lambda>fm pf. drain_forward pf fm)
           (fm\<lparr>fm_forwards := filter (\<lambda>(i, pf). \<not> p pf) (fm_forwards fm)\<rparr>) toStop)"

definition ForwardManager_StopAllForNetwork :: "string \<Rightarrow> ForwardManager \<Rightarrow> ForwardManager" where
  "ForwardManager_StopAllForNetwork networkID fm = stop_where (\<lambda>pf. pf_network_id pf = networkID) fm"

definition StopAll :: "ForwardManager \<Rightarrow> ForwardManager" where
  "StopAll fm = stop_where (\<lambda>pf. True) fm"

definition forwardIdleTimeout :: int where
  "forwardIdleTimeout = 10 * 60 * 1000000000"

text \<open>The last activity is set when a forward starts, so it is never the zero time.\<close>

definition reapIdle :: "int \<Rightarrow> ForwardManager \<Rightarrow> ForwardManager" where
  "reapIdle now fm = stop_where (\<lambda>pf. pf_active pf = 0 \<and> now - pf_last_activity pf > forwardIdleTimeout) fm"

definition List_forwards :: "string \<Rightarrow> ForwardManager \<Rightarrow> PortForward list" where
  "List_forwards networkID fm =
     filter (\<lambda>pf. networkID = [] \<or> pf_network_id pf = networkID) (map snd (fm_forwards fm))"

text \<open>\<open>acceptLoop\<close>: a connection arrives at an open listener, and later ends.\<close>

definition accept_conn :: "int \<Rightarrow> string \<Rightarrow> ForwardManager \<Rightarrow> ForwardManager" where
  "accept_conn now ident fm =
     (if ident \<in> set (fm_open fm)
      then fm\<lparr>fm_forwards := map (\<lambda>(i, pf). (i, if i = ident then pf\<lparr>pf_last_activity := now, pf_active := pf_active pf + 1\<rparr> else pf))
                 (fm_forwards fm)\<rparr>
      else fm)"

definition end_conn :: "string \<Rightarrow> ForwardManager \<Rightarrow> ForwardManager" where
  "end_conn ident fm =
     fm\<lparr>fm_forwards := map (\<lambda>(i, pf). (i, if i = ident then pf\<lparr>pf_active := pf_active pf - 1\<rparr> else pf)) (fm_forwards fm)\<rparr>"

section \<open>Listeners and the map\<close>

text \<open>The map and the open listeners agree: one entry per identifier, and open are exactly the entries.\<close>

definition fm_ok :: "ForwardManager \<Rightarrow> bool" where
  "fm_ok fm \<longleftrightarrow> distinct (map fst (fm_forwards fm)) \<and> distinct (fm_open fm)
     \<and> set (fm_open fm) = fst ` set (fm_forwards fm) \<and> (\<forall>(i, pf) \<in> set (fm_forwards fm). pf_id pf = i)"

lemma drain_forwards:
  "fm_forwards (foldl (\<lambda>fm pf. drain_forward pf fm) fm pfs) = fm_forwards fm"
  "distinct (fm_open fm) \<Longrightarrow>
     distinct (fm_open (foldl (\<lambda>fm pf. drain_forward pf fm) fm pfs))
     \<and> set (fm_open (foldl (\<lambda>fm pf. drain_forward pf fm) fm pfs)) = set (fm_open fm) - pf_id ` set pfs"
  by (induction pfs arbitrary: fm) (auto simp: drain_forward_def)

lemma stop_where_forwards: "fm_forwards (stop_where p fm) = filter (\<lambda>(i, pf). \<not> p pf) (fm_forwards fm)"
  by (simp add: stop_where_def drain_forwards)

lemma stop_where_ok:
  assumes "fm_ok fm"
  shows "fm_ok (stop_where p fm)"
proof -
  let ?F = "fm_forwards fm"
  have d: "distinct (map fst ?F)" and o: "distinct (fm_open fm)" "set (fm_open fm) = fst ` set ?F"
    and i: "\<And>i pf. (i, pf) \<in> set ?F \<Longrightarrow> pf_id pf = i"
    using assms by (auto simp: fm_ok_def)
  have "pf_id ` set (map snd (filter (\<lambda>(i, pf). p pf) ?F)) = fst ` set (filter (\<lambda>(i, pf). p pf) ?F)"
    using i by (force simp: image_iff)
  moreover have "fst ` set ?F - fst ` set (filter (\<lambda>(i, pf). p pf) ?F) = fst ` set (filter (\<lambda>(i, pf). \<not> p pf) ?F)"
    using d by (auto simp: image_iff distinct_map inj_on_def)
  moreover have "distinct (map fst (filter (\<lambda>(i, pf). \<not> p pf) ?F))" using d by (simp add: distinct_map_filter)
  ultimately show ?thesis
    using drain_forwards(2) [of "fm\<lparr>fm_forwards := filter (\<lambda>(i, pf). \<not> p pf) ?F\<rparr>"
        "map snd (filter (\<lambda>(i, pf). p pf) ?F)"] o i
    by (auto simp: fm_ok_def stop_where_def drain_forwards(1) Let_def)
qed

lemma stop_one_ok:
  assumes "fm_ok fm" "map_of (fm_forwards fm) ident = Some pf"
  shows "fm_ok (drain_forward pf (fm\<lparr>fm_forwards := AList.delete ident (fm_forwards fm)\<rparr>))"
proof -
  have "pf_id pf = ident" using assms map_of_SomeD by (fastforce simp: fm_ok_def)
  then show ?thesis
    using assms(1) by (auto simp: fm_ok_def drain_forward_def AList.delete_eq distinct_map_filter image_iff)
qed

text \<open>The operations in the order in which they reach the mutex.\<close>

datatype fw_op =
    FwStart "go_error option" "(int \<times> string) res" string int int string string string int int
  | FwStop string string
  | FwStopAny string
  | FwStopAllFor string
  | FwReap int
  | FwAccept int string
  | FwEnd string

primrec fw_step :: "fw_op \<Rightarrow> ForwardManager \<Rightarrow> ForwardManager" where
  "fw_step (FwStart inst lsn b now_s now networkID nodeID ip rp lp) fm =
     snd (ForwardManager_Start inst lsn b now_s now networkID nodeID ip rp lp fm)"
| "fw_step (FwStop networkID ident) fm = snd (StopForNetwork networkID ident fm)"
| "fw_step (FwStopAny ident) fm = snd (ForwardManager_Stop ident fm)"
| "fw_step (FwStopAllFor networkID) fm = ForwardManager_StopAllForNetwork networkID fm"
| "fw_step (FwReap now) fm = reapIdle now fm"
| "fw_step (FwAccept now ident) fm = accept_conn now ident fm"
| "fw_step (FwEnd ident) fm = end_conn ident fm"

text \<open>The random bytes of a start are new: no forward in the map has that identifier.\<close>

primrec fresh_start :: "fw_op \<Rightarrow> ForwardManager \<Rightarrow> bool" where
  "fresh_start (FwStart inst lsn b now_s now networkID nodeID ip rp lp) fm =
     (generateForwardID b \<notin> fst ` set (fm_forwards fm))"
| "fresh_start (FwStop networkID ident) fm = True"
| "fresh_start (FwStopAny ident) fm = True"
| "fresh_start (FwStopAllFor networkID) fm = True"
| "fresh_start (FwReap now) fm = True"
| "fresh_start (FwAccept now ident) fm = True"
| "fresh_start (FwEnd ident) fm = True"

fun fresh_run :: "fw_op list \<Rightarrow> ForwardManager \<Rightarrow> bool" where
  "fresh_run [] fm = True"
| "fresh_run (x # xs) fm = (fresh_start x fm \<and> fresh_run xs (fw_step x fm))"

primrec starts_in :: "string \<Rightarrow> fw_op \<Rightarrow> bool" where
  "starts_in n (FwStart inst lsn b now_s now networkID nodeID ip rp lp) = (networkID = n)"
| "starts_in n (FwStop networkID ident) = False"
| "starts_in n (FwStopAny ident) = False"
| "starts_in n (FwStopAllFor networkID) = False"
| "starts_in n (FwReap now) = False"
| "starts_in n (FwAccept now ident) = False"
| "starts_in n (FwEnd ident) = False"

lemma fw_step_ok: "fm_ok fm \<Longrightarrow> fresh_start x fm \<Longrightarrow> fm_ok (fw_step x fm)"
proof (cases x)
  case (FwStart inst lsn b now_s now networkID nodeID ip rp lp)
  assume "fm_ok fm" "fresh_start x fm"
  then show ?thesis
    using FwStart by (auto simp: ForwardManager_Start_def fm_ok_def update_fresh Let_def split: option.splits sum.splits)
next
  case (FwStop networkID ident)
  assume "fm_ok fm"
  then show ?thesis using FwStop stop_one_ok by (auto simp: StopForNetwork_def split: option.splits)
next
  case (FwStopAny ident)
  assume "fm_ok fm"
  then show ?thesis using FwStopAny stop_one_ok by (auto simp: ForwardManager_Stop_def split: option.splits)
next
  case (FwStopAllFor networkID)
  assume "fm_ok fm"
  then show ?thesis using FwStopAllFor by (simp add: ForwardManager_StopAllForNetwork_def stop_where_ok)
next
  case (FwReap now)
  assume "fm_ok fm"
  then show ?thesis using FwReap by (simp add: reapIdle_def stop_where_ok)
qed (auto simp: accept_conn_def end_conn_def fm_ok_def comp_def case_prod_beta image_image)

lemma fresh_run_append: "fresh_run (xs @ ys) fm \<longleftrightarrow> fresh_run xs fm \<and> fresh_run ys (run fw_step xs fm)"
  by (induction xs arbitrary: fm) auto

lemma fw_run_ok: "fm_ok fm \<Longrightarrow> fresh_run xs fm \<Longrightarrow> fm_ok (run fw_step xs fm)"
  by (induction xs arbitrary: fm) (auto intro: fw_step_ok)

lemma fm_ok_init: "fm_ok NewForwardManager"
  by (simp add: fm_ok_def NewForwardManager_def)

text \<open>No operation but a start in the network brings in a forward of the network.\<close>

lemma fw_step_network:
  "\<not> starts_in n x \<Longrightarrow> (i, pf) \<in> set (fm_forwards (fw_step x fm)) \<Longrightarrow> pf_network_id pf = n \<Longrightarrow>
     \<exists>pf'. (i, pf') \<in> set (fm_forwards fm) \<and> pf_network_id pf' = n"
proof (cases x)
  case (FwStart inst lsn b now_s now networkID nodeID ip rp lp)
  assume "\<not> starts_in n x" "(i, pf) \<in> set (fm_forwards (fw_step x fm))" "pf_network_id pf = n"
  then show ?thesis
    using FwStart set_update_subset
    by (fastforce simp: ForwardManager_Start_def Let_def split: option.splits sum.splits)
qed (auto simp: StopForNetwork_def ForwardManager_Stop_def ForwardManager_StopAllForNetwork_def reapIdle_def
      stop_where_forwards drain_forward_def accept_conn_def end_conn_def AList.delete_eq
      split: option.splits if_splits)

lemma fw_run_network:
  "\<forall>x \<in> set xs. \<not> starts_in n x \<Longrightarrow> (i, pf) \<in> set (fm_forwards (run fw_step xs fm)) \<Longrightarrow> pf_network_id pf = n \<Longrightarrow>
     \<exists>pf'. (i, pf') \<in> set (fm_forwards fm) \<and> pf_network_id pf' = n"
proof (induction xs arbitrary: fm)
  case (Cons x xs)
  then obtain pf' where "(i, pf') \<in> set (fm_forwards (fw_step x fm))" "pf_network_id pf' = n" by auto
  then show ?case using fw_step_network Cons.prems(1) by force
qed auto

text \<open>
  Property C20. Deleting a network tears its forwards down for good. After \<open>StopAllForNetwork\<close>, and
  whatever happens afterwards except a new start in that network, the list of the network's forwards
  is empty, every open listener belongs to a forward of another network that is still in the map, and
  every forward in the map has its listener open.
\<close>

theorem forwards_torn_down:
  assumes fresh: "fresh_run (pre @ FwStopAllFor n # post) NewForwardManager"
    and no_start: "\<forall>x \<in> set post. \<not> starts_in n x" and n: "n \<noteq> []"
  shows "let fm = run fw_step (pre @ FwStopAllFor n # post) NewForwardManager in
    List_forwards n fm = []
    \<and> (\<forall>i \<in> set (fm_open fm). \<exists>pf. map_of (fm_forwards fm) i = Some pf \<and> pf_network_id pf \<noteq> n)
    \<and> (\<forall>(i, pf) \<in> set (fm_forwards fm). i \<in> set (fm_open fm))"
proof -
  define fm where "fm = run fw_step (pre @ FwStopAllFor n # post) NewForwardManager"
  have ok: "fm_ok fm" unfolding fm_def by (rule fw_run_ok [OF fm_ok_init fresh])
  have none: "pf_network_id pf \<noteq> n" if "(i, pf) \<in> set (fm_forwards fm)" for i pf
    using fw_run_network [OF no_start, of i pf "ForwardManager_StopAllForNetwork n (run fw_step pre NewForwardManager)"] that
    by (auto simp: fm_def ForwardManager_StopAllForNetwork_def stop_where_forwards)
  have "List_forwards n fm = []" using none n by (fastforce simp: List_forwards_def filter_empty_conv)
  moreover have "\<exists>pf. map_of (fm_forwards fm) i = Some pf \<and> pf_network_id pf \<noteq> n" if "i \<in> set (fm_open fm)" for i
  proof -
    have "i \<in> fst ` set (fm_forwards fm)" using that ok by (simp add: fm_ok_def)
    then obtain pf where "map_of (fm_forwards fm) i = Some pf" by (metis map_of_eq_None_iff option.exhaust)
    then show ?thesis using none map_of_SomeD by fast
  qed
  moreover have "\<forall>(i, pf) \<in> set (fm_forwards fm). i \<in> set (fm_open fm)" 
    using ok unfolding fm_ok_def by (metis (no_types, lifting) case_prodI2 fst_conv imageI)
  ultimately show ?thesis by (simp add: fm_def Let_def)
qed

definition sample_forwards :: "fw_op list" where
  "sample_forwards =
     [FwStart None (Inr (9000, ''127.0.0.1:9000'')) ''a'' 1 1 ''n1'' ''d1'' ''10.42.1.2'' 80 0,
      FwStart None (Inr (9001, ''127.0.0.1:9001'')) ''b'' 1 1 ''n2'' ''d2'' ''10.42.2.2'' 22 0]"

theorem forwards_torn_down_witness:
  "fm_open (run fw_step sample_forwards NewForwardManager) = [''fwd-61'', ''fwd-62'']
   \<and> fm_open (run fw_step (sample_forwards @ FwStopAllFor ''n1'' # [FwReap 5]) NewForwardManager) = [''fwd-62'']
   \<and> List_forwards ''n1'' (run fw_step (sample_forwards @ FwStopAllFor ''n1'' # [FwReap 5]) NewForwardManager) = []"
proof -
  have f: "fresh_run (sample_forwards @ FwStopAllFor ''n1'' # [FwReap 5]) NewForwardManager" by code_simp
  have "fm_open (run fw_step sample_forwards NewForwardManager) = [''fwd-61'', ''fwd-62'']" by code_simp
  moreover have "fm_open (run fw_step (sample_forwards @ FwStopAllFor ''n1'' # [FwReap 5]) NewForwardManager) = [''fwd-62'']"
    by code_simp
  ultimately show ?thesis using forwards_torn_down [OF f] by (simp add: Let_def)
qed

end
