(* ===== verification/EventHub.thy ===== *)
theory EventHub
  imports GoText
begin

text \<open>
  Real-time events (src/internal/api/events.go). A subscription is a channel with room for 16 events;
  \<open>hub_subs\<close> maps a network to its channels, \<open>hub_bufs\<close> holds what is in each channel and \<open>hub_closed\<close> the
  channels that were closed. Sending to a closed channel and closing a channel twice panic in Go;
  the operations then have no result (\<open>None\<close>).

  \<open>Publish\<close> takes the lock only to look the network up and then sends without it. The functions below
  run an operation as a whole. The relation at the end interleaves the sends of \<open>Publish\<close> with other
  operations, and shows what the missing lock allows.
\<close>

record Event =
  Type :: string
  Data :: "(string \<times> string) list"

record EventHub =
  hub_subs :: "(string \<times> nat list) list"
  hub_bufs :: "nat \<Rightarrow> Event list"
  hub_closed :: "nat list"
  hub_next :: nat

definition NewEventHub :: EventHub where
  "NewEventHub = \<lparr>hub_subs = [], hub_bufs = (\<lambda>_. []), hub_closed = [], hub_next = 0\<rparr>"

definition channel_cap :: nat where
  "channel_cap = 16"

definition subscribers :: "string \<Rightarrow> EventHub \<Rightarrow> nat list" where
  "subscribers networkID h = (case map_of (hub_subs h) networkID of None \<Rightarrow> [] | Some cs \<Rightarrow> cs)"

definition Subscribe :: "string \<Rightarrow> EventHub \<Rightarrow> nat \<times> EventHub" where
  "Subscribe networkID h =
     (let ch = hub_next h in
      (ch, h\<lparr>hub_subs := AList.update networkID (subscribers networkID h @ [ch]) (hub_subs h), hub_next := Suc ch\<rparr>))"

definition Unsubscribe :: "string \<Rightarrow> nat \<Rightarrow> EventHub \<Rightarrow> EventHub option" where
  "Unsubscribe networkID ch h =
     (let h = (case map_of (hub_subs h) networkID of
                 None \<Rightarrow> h
               | Some subs \<Rightarrow>
                   let subs = removeAll ch subs in
                   if length subs = 0 then h\<lparr>hub_subs := AList.delete networkID (hub_subs h)\<rparr>
                   else h\<lparr>hub_subs := AList.update networkID subs (hub_subs h)\<rparr>)
      in if ch \<in> set (hub_closed h) then None else Some (h\<lparr>hub_closed := ch # hub_closed h\<rparr>))"

definition send :: "Event \<Rightarrow> nat \<Rightarrow> EventHub \<Rightarrow> EventHub option" where
  "send ev ch h =
     (if ch \<in> set (hub_closed h) then None
      else if length (hub_bufs h ch) < channel_cap then Some (h\<lparr>hub_bufs := (hub_bufs h)(ch := hub_bufs h ch @ [ev])\<rparr>)
      else Some h)"

fun send_all :: "Event \<Rightarrow> nat list \<Rightarrow> EventHub \<Rightarrow> EventHub option" where
  "send_all ev [] h = Some h"
| "send_all ev (ch # chs) h = (case send ev ch h of None \<Rightarrow> None | Some h \<Rightarrow> send_all ev chs h)"

definition Hub_Publish :: "string \<Rightarrow> Event \<Rightarrow> EventHub \<Rightarrow> EventHub option" where
  "Hub_Publish networkID ev h = send_all ev (subscribers networkID h) h"

text \<open>The write pump of \<open>Connect\<close> takes the oldest event from its channel.\<close>

definition receive :: "nat \<Rightarrow> EventHub \<Rightarrow> Event option \<times> EventHub" where
  "receive ch h =
     (case hub_bufs h ch of [] \<Rightarrow> (None, h) | ev # evs \<Rightarrow> (Some ev, h\<lparr>hub_bufs := (hub_bufs h)(ch := evs)\<rparr>))"

section \<open>The origin of a WebSocket\<close>

fun containsOrigin :: "string list \<Rightarrow> string \<Rightarrow> bool" where
  "containsOrigin [] origin = False"
| "containsOrigin (x # xs) origin = (if x = ''*'' \<or> x = origin then True else containsOrigin xs origin)"

definition checkWebSocketOrigin :: "string list \<Rightarrow> string \<Rightarrow> string \<Rightarrow> bool" where
  "checkWebSocketOrigin allowed origin host \<longleftrightarrow>
     (if origin = [] then True
      else origin = ''http://'' @ host \<or> origin = ''https://'' @ host \<or> containsOrigin allowed origin)"

section \<open>Delivery\<close>

text \<open>Subscribed channels are open, numbered below the counter, and in one place of one network.\<close>

definition hub_ok :: "EventHub \<Rightarrow> bool" where
  "hub_ok h \<longleftrightarrow>
     (\<forall>n. distinct (subscribers n h))
     \<and> (\<forall>n. \<forall>ch \<in> set (subscribers n h). ch < hub_next h \<and> ch \<notin> set (hub_closed h))
     \<and> (\<forall>n m. n \<noteq> m \<longrightarrow> set (subscribers n h) \<inter> set (subscribers m h) = {})
     \<and> (\<forall>ch \<in> set (hub_closed h). ch < hub_next h)
     \<and> (\<forall>ch. length (hub_bufs h ch) \<le> channel_cap)"

lemma subscribers_Subscribe:
  "subscribers m (snd (Subscribe n h)) = (if m = n then subscribers n h @ [hub_next h] else subscribers m h)"
  by (simp add: Subscribe_def subscribers_def update_conv' Let_def)

lemma subscribers_Unsubscribe:
  assumes "Unsubscribe n ch h = Some h'"
  shows "subscribers m h' = (if m = n then removeAll ch (subscribers n h) else subscribers m h)"
    "hub_closed h' = ch # hub_closed h" "hub_bufs h' = hub_bufs h" "hub_next h' = hub_next h"
  using assms
  by (auto simp: Unsubscribe_def subscribers_def update_conv' delete_conv' Let_def split: option.splits if_splits)

lemma send_all_spec:
  "distinct chs \<Longrightarrow> set chs \<inter> set (hub_closed h) = {} \<Longrightarrow>
     \<exists>h'. send_all ev chs h = Some h' \<and> hub_subs h' = hub_subs h \<and> hub_closed h' = hub_closed h \<and> hub_next h' = hub_next h
       \<and> (\<forall>ch. hub_bufs h' ch = (if ch \<in> set chs \<and> length (hub_bufs h ch) < channel_cap
                                 then hub_bufs h ch @ [ev] else hub_bufs h ch))"
proof (induction chs arbitrary: h)
  case (Cons c chs)
  then obtain h1 where h1: "send ev c h = Some h1"
    by (cases "length (hub_bufs h c) < channel_cap") (auto simp: send_def)
  have s: "hub_subs h1 = hub_subs h" "hub_closed h1 = hub_closed h" "hub_next h1 = hub_next h"
    "hub_bufs h1 ch = (if ch = c \<and> length (hub_bufs h ch) < channel_cap then hub_bufs h ch @ [ev] else hub_bufs h ch)" for ch
    using h1 by (auto simp: send_def split: if_splits)
  obtain h' where h': "send_all ev chs h1 = Some h'" "hub_subs h' = hub_subs h1" "hub_closed h' = hub_closed h1"
      "hub_next h' = hub_next h1"
      "hub_bufs h' ch = (if ch \<in> set chs \<and> length (hub_bufs h1 ch) < channel_cap then hub_bufs h1 ch @ [ev] else hub_bufs h1 ch)" for ch
    using Cons.IH [of h1] Cons.prems s(2) by auto
  have "hub_bufs h' ch = (if ch \<in> set (c # chs) \<and> length (hub_bufs h ch) < channel_cap
      then hub_bufs h ch @ [ev] else hub_bufs h ch)" for ch
    using Cons.prems(1) by (simp add: h'(5) s(4))
  then show ?case using h1 h'(1-4) s(1-3) by simp
qed simp

lemma publish_spec:
  assumes "hub_ok h"
  shows "\<exists>h'. Hub_Publish n ev h = Some h' \<and> hub_ok h'
     \<and> (\<forall>ch. hub_bufs h' ch =
          (if ch \<in> set (subscribers n h) \<and> length (hub_bufs h ch) < 16 then hub_bufs h ch @ [ev] else hub_bufs h ch))
     \<and> (\<forall>m. subscribers m h' = subscribers m h)"
proof -
  have "distinct (subscribers n h)" "set (subscribers n h) \<inter> set (hub_closed h) = {}"
    using assms by (auto simp: hub_ok_def)
  from send_all_spec [OF this] obtain h' where h': "Hub_Publish n ev h = Some h'" "hub_subs h' = hub_subs h"
      "hub_closed h' = hub_closed h" "hub_next h' = hub_next h"
      "\<And>ch. hub_bufs h' ch = (if ch \<in> set (subscribers n h) \<and> length (hub_bufs h ch) < channel_cap
                                 then hub_bufs h ch @ [ev] else hub_bufs h ch)"
    by (auto simp: Hub_Publish_def)
  then have s: "subscribers m h' = subscribers m h" for m by (simp add: subscribers_def)
  have "length (hub_bufs h' ch) \<le> channel_cap" for ch
    using assms by (auto simp: h'(5) hub_ok_def)
  then have "hub_ok h'" using assms unfolding hub_ok_def by (simp only: s h'(3,4)) blast
  then show ?thesis using h'(1,5) s by (auto simp: channel_cap_def)
qed

text \<open>
  The histories of well-behaved clients, run operation by operation: a client leaves the network
  through which it subscribed, once, as the deferred call in \<open>Connect\<close> does.
\<close>

datatype hub_op = HSub string | HUnsub string nat | HPub string Event | HRecv nat

primrec hub_step :: "hub_op \<Rightarrow> EventHub \<Rightarrow> EventHub" where
  "hub_step (HSub n) h = snd (Subscribe n h)"
| "hub_step (HUnsub n ch) h =
     (if ch \<in> set (subscribers n h) then (case Unsubscribe n ch h of None \<Rightarrow> h | Some h' \<Rightarrow> h') else h)"
| "hub_step (HPub n ev) h = (case Hub_Publish n ev h of None \<Rightarrow> h | Some h' \<Rightarrow> h')"
| "hub_step (HRecv ch) h = snd (receive ch h)"

lemma hub_ok_Subscribe: "hub_ok h \<Longrightarrow> hub_ok (snd (Subscribe n h))"
proof -
  assume ok: "hub_ok h"
  have o: "hub_closed (snd (Subscribe n h)) = hub_closed h" "hub_next (snd (Subscribe n h)) = Suc (hub_next h)"
      "hub_bufs (snd (Subscribe n h)) = hub_bufs h"
    by (simp_all add: Subscribe_def Let_def)
  have "hub_next h \<notin> set (subscribers m h)" "hub_next h \<notin> set (hub_closed h)" for m
    using ok by (auto simp: hub_ok_def)
  then show ?thesis
    using ok unfolding hub_ok_def by (auto simp: subscribers_Subscribe o less_Suc_eq split: if_splits)
qed

lemma hub_ok_Unsubscribe:
  "hub_ok h \<Longrightarrow> ch \<in> set (subscribers n h) \<Longrightarrow> Unsubscribe n ch h = Some h' \<Longrightarrow> hub_ok h'"
proof -
  assume ok: "hub_ok h" and ch: "ch \<in> set (subscribers n h)" and u: "Unsubscribe n ch h = Some h'"
  note S = subscribers_Unsubscribe [OF u]
  have sub: "set (subscribers m h') \<subseteq> set (subscribers m h) - {ch}" for m
    using ok ch unfolding S(1) hub_ok_def by (auto simp: disjoint_iff)
  have "distinct (subscribers m h')" for m using ok by (auto simp: S(1) hub_ok_def distinct_removeAll)
  moreover have "c < hub_next h' \<and> c \<notin> set (hub_closed h')" if "c \<in> set (subscribers m h')" for m c
  proof -
    have "c \<in> set (subscribers m h)" "c \<noteq> ch" using that sub [of m] by auto
    then show ?thesis using ok by (auto simp: S(2,4) hub_ok_def)
  qed
  moreover have "set (subscribers m h') \<inter> set (subscribers k h') = {}" if "m \<noteq> k" for m k
    using that sub [of m] sub [of k] ok unfolding hub_ok_def by blast
  moreover have "c < hub_next h'" if "c \<in> set (hub_closed h')" for c
    using that ch ok by (auto simp: S(2,4) hub_ok_def)
  moreover have "length (hub_bufs h' c) \<le> channel_cap" for c using ok by (simp add: S(3) hub_ok_def)
  ultimately show ?thesis by (simp add: hub_ok_def)
qed

interpretation hub: stable_invariant hub_step hub_ok
proof
  fix h x assume ok: "hub_ok h"
  show "hub_ok (hub_step x h)"
  proof (cases x)
    case (HSub n)
    then show ?thesis using ok by (simp add: hub_ok_Subscribe)
  next
    case (HUnsub n ch)
    then show ?thesis using ok hub_ok_Unsubscribe by (auto split: option.splits)
  next
    case (HPub n ev)
    then show ?thesis using publish_spec [OF ok, of n ev] by auto
  next
    case (HRecv ch)
    have "length (hub_bufs (snd (receive ch h)) c) \<le> length (hub_bufs h c)" for c
      by (auto simp: receive_def split: list.splits)
    then have "length (hub_bufs (snd (receive ch h)) c) \<le> channel_cap" for c
      using ok order_trans unfolding hub_ok_def by blast
    moreover have "hub_subs (snd (receive ch h)) = hub_subs h" "hub_closed (snd (receive ch h)) = hub_closed h"
        "hub_next (snd (receive ch h)) = hub_next h"
      by (auto simp: receive_def split: list.splits)
    ultimately show ?thesis using ok HRecv by (simp add: hub_ok_def subscribers_def)
  qed
qed

lemma hub_ok_New: "hub_ok NewEventHub"
  by (simp add: hub_ok_def NewEventHub_def subscribers_def)


section \<open>What the missing lock allows\<close>

text \<open>
  \<open>Publish\<close> in small steps: it reads the subscribers under the lock and sends afterwards. When a
  subscriber leaves in between, its channel is closed and the send panics.
\<close>

inductive hub_race :: "string \<Rightarrow> Event \<Rightarrow> EventHub \<times> nat list \<Rightarrow> EventHub \<times> nat list \<Rightarrow> bool" for n :: string and ev :: Event where
  look: "hub_race n ev (h, []) (h, subscribers n h)"
| send_one: "send ev ch h = Some h' \<Longrightarrow> hub_race n ev (h, ch # chs) (h', chs)"
| leave: "ch \<in> set (subscribers n h) \<Longrightarrow> Unsubscribe n ch h = Some h' \<Longrightarrow> hub_race n ev (h, chs) (h', chs)"

lemma publish_can_panic:
  "\<exists>h ch. (hub_race ''n'' ev)\<^sup>*\<^sup>* (snd (Subscribe ''n'' NewEventHub), []) (h, [ch]) \<and> send ev ch h = None"
proof -
  let ?h = "snd (Subscribe ''n'' NewEventHub)"
  have s: "subscribers ''n'' ?h = [0]"
    by (simp add: subscribers_Subscribe) (simp add: NewEventHub_def subscribers_def)
  obtain h' where u: "Unsubscribe ''n'' 0 ?h = Some h'"
    by (simp add: Unsubscribe_def Subscribe_def NewEventHub_def subscribers_def Let_def)
  have "hub_race ''n'' ev (?h, []) (?h, [0])" using look [of "''n''" ev ?h] s by simp
  moreover have "hub_race ''n'' ev (?h, [0]) (h', [0])" by (rule leave [OF _ u]) (simp add: s)
  moreover have "send ev 0 h' = None" using subscribers_Unsubscribe(2) [OF u] by (simp add: send_def)
  ultimately show ?thesis by (meson converse_rtranclp_into_rtranclp r_into_rtranclp)
qed

end
