(* ===== verification/JsonValue.thy ===== *)
theory JsonValue
  imports Json Nodes
begin

text \<open>
  Reading JSON, as \<open>json.Unmarshal\<close> does for the texts that the control plane keeps in columns: the
  capabilities and the routes of a node. \<open>json_parse\<close> is a parser for whole documents; its fuel is twice
  the length of the text, which exceeds the number of calls on any path, since every second call
  consumes a character. Decoding into a Go type accepts \<open>null\<close> everywhere, ignores unknown keys, matches
  keys up to letter case, and lets the last occurrence of a key win. Strings are taken to be valid UTF-8.
\<close>

datatype json =
    JNull
  | JBool bool
  | JNum string
  | JStr string
  | JArr "json list"
  | JObj "(string \<times> json) list"

section \<open>Strings\<close>

definition hex_val :: "char \<Rightarrow> nat option" where
  "hex_val c =
     (let n = of_char c :: nat in
      if 48 \<le> n \<and> n \<le> 57 then Some (n - 48)
      else if 97 \<le> n \<and> n \<le> 102 then Some (n - 87)
      else if 65 \<le> n \<and> n \<le> 70 then Some (n - 55) else None)"

fun hex4 :: "string \<Rightarrow> (nat \<times> string) option" where
  "hex4 (a # b # c # d # s) =
     (case (hex_val a, hex_val b, hex_val c, hex_val d) of
        (Some w, Some x, Some y, Some z) \<Rightarrow> Some (((w * 16 + x) * 16 + y) * 16 + z, s)
      | _ \<Rightarrow> None)"
| "hex4 s = None"

definition utf8 :: "nat \<Rightarrow> string" where
  "utf8 n =
     (if n < 128 then [char_of n]
      else if n < 2048 then [char_of (192 + n div 64), char_of (128 + n mod 64)]
      else if n < 65536 then [char_of (224 + n div 4096), char_of (128 + n div 64 mod 64), char_of (128 + n mod 64)]
      else [char_of (240 + n div 262144), char_of (128 + n div 4096 mod 64), char_of (128 + n div 64 mod 64),
            char_of (128 + n mod 64)])"

text \<open>
  What follows a backslash and \<open>u\<close>: the bytes and the rest. A surrogate that does not open a pair becomes U+FFFD.
\<close>

definition unicode :: "string \<Rightarrow> (string \<times> string) option" where
  "unicode s =
     (case hex4 s of
        None \<Rightarrow> None
      | Some (u, r) \<Rightarrow>
          if u < 55296 \<or> 57343 < u then Some (utf8 u, r)
          else if u < 56320 then
            (case r of
               b # c # r' \<Rightarrow>
                 if b = CHR 0x5C \<and> c = CHR ''u'' then
                   (case hex4 r' of
                      Some (l, r'') \<Rightarrow>
                        if 56320 \<le> l \<and> l \<le> 57343 then Some (utf8 (65536 + (u - 55296) * 1024 + (l - 56320)), r'')
                        else Some (utf8 65533, r)
                    | None \<Rightarrow> Some (utf8 65533, r))
                 else Some (utf8 65533, r)
             | _ \<Rightarrow> Some (utf8 65533, r))
          else Some (utf8 65533, r))"

definition escape :: "char \<Rightarrow> string option" where
  "escape c =
     (if c = CHR 0x22 \<or> c = CHR 0x5C \<or> c = CHR ''/'' then Some [c]
      else if c = CHR ''b'' then Some [CHR 0x08] else if c = CHR ''f'' then Some [CHR 0x0C]
      else if c = CHR ''n'' then Some [CHR 0x0A] else if c = CHR ''r'' then Some [CHR 0x0D]
      else if c = CHR ''t'' then Some [CHR 0x09] else None)"

lemma hex4_length: "hex4 s = Some (n, r) \<Longrightarrow> length r < length s"
  by (induction s rule: hex4.induct) (auto split: option.splits)

lemma unicode_length: "unicode s = Some (t, r) \<Longrightarrow> length r < length s"
  by (auto simp: unicode_def split: option.splits if_splits list.splits prod.splits dest!: hex4_length)

text \<open>The text after an opening quote: the string and what follows its closing quote.\<close>

function str_body :: "string \<Rightarrow> (string \<times> string) option" where
  "str_body [] = None"
| "str_body (c # s) =
     (if c = CHR 0x22 then Some ([], s)
      else if (of_char c :: nat) < 32 then None
      else if c = CHR 0x5C then
        (case s of
           [] \<Rightarrow> None
         | k # r \<Rightarrow>
             (case (if k = CHR ''u'' then unicode r else map_option (\<lambda>t. (t, r)) (escape k)) of
                None \<Rightarrow> None
              | Some (t, r) \<Rightarrow> map_option (\<lambda>(u, rest). (t @ u, rest)) (str_body r)))
      else map_option (\<lambda>(u, rest). (c # u, rest)) (str_body s))"
  by pat_completeness auto
termination
  by (relation "measure length") (auto split: if_splits dest!: unicode_length)

section \<open>Values\<close>

definition ws :: "string \<Rightarrow> string" where
  "ws s = dropWhile (\<lambda>c. of_char c \<in> {32, 9, 10, 13 :: nat}) s"

definition digits :: "string \<Rightarrow> (string \<times> string) option" where
  "digits s = (let d = takeWhile is_digit s in if d = [] then None else Some (d, dropWhile is_digit s))"

text \<open>The three parts of a number; the fraction and the exponent may be absent.\<close>

definition json_int :: "string \<Rightarrow> (string \<times> string) option" where
  "json_int s =
     (let (sign, r) = (case s of c # r \<Rightarrow> if c = CHR ''-'' then (''-'', r) else ([], s) | [] \<Rightarrow> ([], s))
      in case r of
           c # r' \<Rightarrow> if c = CHR ''0'' then Some (sign @ ''0'', r') else map_option (\<lambda>(d, r). (sign @ d, r)) (digits r)
         | [] \<Rightarrow> None)"

definition json_frac :: "string \<Rightarrow> (string \<times> string) option" where
  "json_frac s =
     (case s of
        c # r \<Rightarrow> if c = CHR ''.'' then map_option (\<lambda>(d, r). (''.'' @ d, r)) (digits r) else Some ([], s)
      | [] \<Rightarrow> Some ([], s))"

definition json_exp :: "string \<Rightarrow> (string \<times> string) option" where
  "json_exp s =
     (case s of
        c # r \<Rightarrow>
          if c = CHR ''e'' \<or> c = CHR ''E'' then
            (case r of
               k # r' \<Rightarrow> if k = CHR ''+'' \<or> k = CHR ''-'' then map_option (\<lambda>(d, r). (c # k # d, r)) (digits r')
                          else map_option (\<lambda>(d, r). (c # d, r)) (digits r)
             | [] \<Rightarrow> None)
          else Some ([], s)
      | [] \<Rightarrow> Some ([], s))"

definition json_number :: "string \<Rightarrow> (json \<times> string) option" where
  "json_number s =
     (case json_int s of
        None \<Rightarrow> None
      | Some (i, r) \<Rightarrow>
          (case json_frac r of
             None \<Rightarrow> None
           | Some (f, r) \<Rightarrow> map_option (\<lambda>(e, r). (JNum (i @ f @ e), r)) (json_exp r)))"

definition json_literal :: "string \<Rightarrow> (json \<times> string) option" where
  "json_literal s =
     (if HasPrefix s ''null'' then Some (JNull, drop 4 s)
      else if HasPrefix s ''true'' then Some (JBool True, drop 4 s)
      else if HasPrefix s ''false'' then Some (JBool False, drop 5 s)
      else json_number s)"

fun parse_value :: "nat \<Rightarrow> string \<Rightarrow> (json \<times> string) option"
  and parse_elems :: "nat \<Rightarrow> string \<Rightarrow> (json list \<times> string) option"
  and parse_members :: "nat \<Rightarrow> string \<Rightarrow> ((string \<times> json) list \<times> string) option" where
  "parse_value 0 s = None"
| "parse_value (Suc n) s =
     (case ws s of
        [] \<Rightarrow> None
      | c # r \<Rightarrow>
          if c = CHR 0x22 then map_option (\<lambda>(x, r). (JStr x, r)) (str_body r)
          else if c = CHR ''['' then
            (case ws r of
               [] \<Rightarrow> None
             | k # r' \<Rightarrow> if k = CHR '']'' then Some (JArr [], r')
                          else map_option (\<lambda>(vs, r). (JArr vs, r)) (parse_elems n r))
          else if c = CHR ''{'' then
            (case ws r of
               [] \<Rightarrow> None
             | k # r' \<Rightarrow> if k = CHR ''}'' then Some (JObj [], r')
                          else map_option (\<lambda>(fs, r). (JObj fs, r)) (parse_members n r))
          else json_literal (c # r))"
| "parse_elems 0 s = None"
| "parse_elems (Suc n) s =
     (case parse_value n s of
        None \<Rightarrow> None
      | Some (v, r) \<Rightarrow>
          (case ws r of
             [] \<Rightarrow> None
           | k # r' \<Rightarrow> if k = CHR '','' then map_option (\<lambda>(vs, r). (v # vs, r)) (parse_elems n r')
                        else if k = CHR '']'' then Some ([v], r') else None))"
| "parse_members 0 s = None"
| "parse_members (Suc n) s =
     (case ws s of
        [] \<Rightarrow> None
      | q # r \<Rightarrow>
          if q \<noteq> CHR 0x22 then None
          else case str_body r of
            None \<Rightarrow> None
          | Some (key, r) \<Rightarrow>
              (case ws r of
                 [] \<Rightarrow> None
               | k # r' \<Rightarrow>
                   if k \<noteq> CHR '':'' then None
                   else case parse_value n r' of
                     None \<Rightarrow> None
                   | Some (v, r) \<Rightarrow>
                       (case ws r of
                          [] \<Rightarrow> None
                        | k # r' \<Rightarrow> if k = CHR '','' then map_option (\<lambda>(fs, r). ((key, v) # fs, r)) (parse_members n r')
                                     else if k = CHR ''}'' then Some ([(key, v)], r') else None)))"

definition json_parse :: "string \<Rightarrow> json option" where
  "json_parse s = (case parse_value (2 * length s + 2) s of None \<Rightarrow> None | Some (v, r) \<Rightarrow> if ws r = [] then Some v else None)"

section \<open>Decoding into Go types\<close>

text \<open>\<open>null\<close> leaves the zero value of the element.\<close>

fun as_string :: "json \<Rightarrow> string option" where
  "as_string JNull = Some []"
| "as_string (JStr s) = Some s"
| "as_string v = None"

fun all_some :: "'a option list \<Rightarrow> 'a list option" where
  "all_some [] = Some []"
| "all_some (x # xs) = (case x of None \<Rightarrow> None | Some y \<Rightarrow> map_option ((#) y) (all_some xs))"

text \<open>\<open>[]string\<close>: the outer \<open>None\<close> is an error; a nil slice and an empty one are the same to its readers.\<close>

definition string_slice :: "json \<Rightarrow> string list option" where
  "string_slice v = (case v of JNull \<Rightarrow> Some [] | JArr vs \<Rightarrow> all_some (map as_string vs) | _ \<Rightarrow> None)"

definition unmarshal_strings :: "string \<Rightarrow> string list option" where
  "unmarshal_strings s = (case json_parse s of None \<Rightarrow> None | Some v \<Rightarrow> string_slice v)"

fun json_list :: "string list \<Rightarrow> string" where
  "json_list [] = []"
| "json_list [x] = x"
| "json_list (x # y # ys) = x @ '','' @ json_list (y # ys)"

definition json_array :: "string list \<Rightarrow> string" where
  "json_array vs = ''['' @ json_list vs @ '']''"

definition marshal_strings :: "string list \<Rightarrow> string" where
  "marshal_strings xs = json_array (map json_quote xs)"

section \<open>What was printed is read back\<close>

lemma hex_val_digit: "n < 16 \<Longrightarrow> hex_val (hex_digit n) = Some n"
  by (auto simp: hex_val_def hex_digit_def Let_def)

lemma of_char_256: "(of_char c :: nat) < 256"
  by (metis of_char_mod_256 mod_less_divisor zero_less_numeral)

lemma unicode_byte:
  assumes "(of_char c :: nat) < 128"
  shows "unicode (''00'' @ hex_byte c @ r) = Some ([c], r)"
proof -
  have z: "hex_val CHR ''0'' = Some 0" by code_simp
  have "hex_val (hex_digit (of_char c div 16)) = Some (of_char c div 16)"
    by (rule hex_val_digit, rule less_mult_imp_div_less) (simp add: of_char_256)
  moreover have "hex_val (hex_digit (of_char c mod 16)) = Some (of_char c mod 16)"
    by (rule hex_val_digit) simp
  ultimately have "hex4 (''00'' @ hex_byte c @ r) = Some (of_char c, r)"
    by (simp add: hex_byte_def z)
  then show ?thesis using assms by (simp add: unicode_def utf8_def)
qed

lemma str_body_char:
  "str_body (json_char c @ s) = map_option (\<lambda>(u, rest). (c # u, rest)) (str_body s)"
proof -
  have small: "(of_char x :: nat) < 128" if "x \<in> {CHR ''<'', CHR ''>'', CHR ''&''}" for x using that by auto
  have u: "unicode (CHR ''0'' # CHR ''0'' # hex_byte c @ s) = Some ([c], s)"
    if "(of_char c :: nat) < 32 \<or> c \<in> {CHR ''<'', CHR ''>'', CHR ''&''}"
    using unicode_byte [of c s] that small [of c] by auto
  show ?thesis
    by (auto simp: json_char_def escape_def unicode_escape_def u)
qed

lemma str_body_separator:
  assumes "c = CHR 0xA8 \<or> c = CHR 0xA9"
  shows "str_body ([CHR 0x5C] @ ''u202'' @ (if c = CHR 0xA8 then ''8'' else ''9'') @ s)
       = map_option (\<lambda>(u, rest). (CHR 0xE2 # CHR 0x80 # c # u, rest)) (str_body s)"
proof -
  have "hex_val CHR ''2'' = Some 2" "hex_val CHR ''0'' = Some 0" "hex_val CHR ''8'' = Some 8" "hex_val CHR ''9'' = Some 9"
    by code_simp+
  moreover have "utf8 8232 = [CHR 0xE2, CHR 0x80, CHR 0xA8]" "utf8 8233 = [CHR 0xE2, CHR 0x80, CHR 0xA9]"
    by (simp_all add: utf8_def char_of_def bit_0)
  ultimately show ?thesis using assms by (auto simp: unicode_def)
qed

lemma str_body_chars: "str_body (json_chars s @ CHR 0x22 # r) = Some (s, r)"
proof (induction s rule: json_chars.induct)
  case (1 a b c s)
  show ?case
  proof (cases "a = CHR 0xE2 \<and> b = CHR 0x80 \<and> (c = CHR 0xA8 \<or> c = CHR 0xA9)")
    case True
    then show ?thesis
      using 1(1) str_body_separator [of c "json_chars s @ CHR 0x22 # r"] by auto
  next
    case False
    then have "str_body (json_chars (a # b # c # s) @ CHR 0x22 # r) = str_body (json_char a @ (json_chars (b # c # s) @ CHR 0x22 # r))"
      by auto
    then show ?thesis unfolding str_body_char using 1(2) [OF False] by simp
  qed
qed (simp_all add: str_body_char)

lemma ws_simps [simp]: "ws (CHR 0x22 # s) = CHR 0x22 # s" "ws (CHR '','' # s) = CHR '','' # s"
  "ws (CHR ''['' # s) = CHR ''['' # s" "ws (CHR '']'' # s) = CHR '']'' # s" "ws [] = []"
  by (simp_all add: ws_def)

lemma parse_quoted: "parse_value (Suc n) (json_quote x @ r) = Some (JStr x, r)"
  by (simp add: json_quote_def str_body_chars)

text \<open>
  Arrays: \<open>pr\<close> prints an element whose value is \<open>val\<close>, and \<open>k\<close> is the fuel one element needs.
\<close>

definition prints :: "nat \<Rightarrow> ('a \<Rightarrow> string) \<Rightarrow> ('a \<Rightarrow> json) \<Rightarrow> bool" where
  "prints k pr val \<longleftrightarrow>
     (\<forall>x n r. k \<le> n \<longrightarrow> parse_value n (pr x @ r) = Some (val x, r))
     \<and> (\<forall>x. \<exists>c u. pr x = c # u \<and> c \<noteq> CHR '']'' \<and> of_char c \<notin> {32, 9, 10, 13 :: nat})"

lemma parse_list:
  assumes "prints k pr val"
  shows "xs \<noteq> [] \<Longrightarrow> length xs + k \<le> n \<Longrightarrow> parse_elems n (json_list (map pr xs) @ CHR '']'' # r) = Some (map val xs, r)"
proof (induction xs arbitrary: n)
  case (Cons x xs)
  then obtain m where n: "n = Suc m" "k \<le> m" by (cases n) auto
  have v: "parse_value m (pr x @ s) = Some (val x, s)" for s
    using assms n(2) by (simp add: prints_def)
  show ?case
  proof (cases xs)
    case Nil
    then show ?thesis by (simp add: n v)
  next
    case (Cons y ys)
    have "parse_elems m (json_list (map pr xs) @ CHR '']'' # r) = Some (map val xs, r)"
      using Cons.prems n by (intro Cons.IH) (auto simp: Cons)
    then show ?thesis by (simp add: n v Cons)
  qed
qed simp

lemma json_list_length:
  assumes "prints k pr val"
  shows "length xs \<le> length (json_list (map pr xs))"
proof (induction xs)
  case (Cons x xs)
  have "1 \<le> length (pr x)" using assms by (metis One_nat_def Suc_leI length_greater_0_conv list.discI prints_def)
  then show ?case using Cons by (cases xs) auto
qed simp

lemma json_parse_array:
  assumes p: "prints k pr val" and k: "k \<le> 4"
  shows "json_parse (json_array (map pr xs)) = Some (JArr (map val xs))"
proof -
  let ?b = "json_list (map pr xs) @ CHR '']'' # []"
  obtain m where m: "2 * length (json_array (map pr xs)) + 2 = Suc m" "length xs + 4 \<le> m"
    using json_list_length [OF p, of xs] by (auto simp: json_array_def)
  have "parse_value (Suc m) (CHR ''['' # ?b) = Some (JArr (map val xs), [])"
  proof (cases xs)
    case (Cons y ys)
    obtain c u where c: "pr y = c # u" "c \<noteq> CHR '']''" "of_char c \<notin> {32, 9, 10, 13 :: nat}"
      using p unfolding prints_def by blast
    then obtain r where r: "?b = c # r" using Cons by (cases ys) auto
    have w: "ws (c # r) = c # r" using c(3) by (simp add: ws_def)
    have "parse_elems m ?b = Some (map val xs, [])" using m(2) k by (intro parse_list [OF p]) (auto simp: Cons)
    then show ?thesis unfolding r by (simp add: w c(2))
  qed simp
  then show ?thesis unfolding json_parse_def m(1) by (simp add: json_array_def del: parse_value.simps)
qed

lemma prints_quoted: "prints 1 json_quote JStr"
  unfolding prints_def
proof (intro conjI allI impI)
  fix x n r assume "1 \<le> (n :: nat)"
  then show "parse_value n (json_quote x @ r) = Some (JStr x, r)" using parse_quoted by (cases n) auto
qed (auto simp: json_quote_def)

lemma all_some_map: "all_some (map (\<lambda>x. Some (f x)) xs) = Some (map f xs)"
  by (induction xs) auto

lemma unmarshal_marshal: "unmarshal_strings (marshal_strings xs) = Some xs"
  using json_parse_array [OF prints_quoted, of xs] all_some_map [of "\<lambda>x. x" xs]
  by (simp add: unmarshal_strings_def marshal_strings_def string_slice_def comp_def)

end
