(* ===== verification/NodeSettings.thy ===== *)
theory NodeSettings
  imports JsonValue NodeStatus ProxyAuth
begin

text \<open>
  The settings of a node that are JSON columns of its row: the capabilities and the subnet routes
  (src/internal/db/nodes.go, src/internal/api/types.go, renew.go).
\<close>

section \<open>Capabilities\<close>

definition HasCapability :: "Node \<Rightarrow> string \<Rightarrow> bool" where
  "HasCapability n cap =
     (if nd_capabilities n = [] \<or> nd_capabilities n = ''null'' then False
      else case unmarshal_strings (nd_capabilities n) of None \<Rightarrow> False | Some caps \<Rightarrow> cap \<in> set caps)"

definition parseCapabilities :: "string \<Rightarrow> string list" where
  "parseCapabilities capsJSON =
     (if capsJSON = [] \<or> capsJSON = ''null'' then []
      else case unmarshal_strings capsJSON of None \<Rightarrow> [] | Some caps \<Rightarrow> caps)"

definition parseCapabilitiesForRenew :: "string \<Rightarrow> string \<Rightarrow> bool" where
  "parseCapabilitiesForRenew capsJSON =
     (if capsJSON = [] then (\<lambda>c. False)
      else case unmarshal_strings capsJSON of None \<Rightarrow> (\<lambda>c. False) | Some arr \<Rightarrow> (\<lambda>c. c \<in> set arr))"

definition UpdateNodeCapabilities :: "go_error option \<Rightarrow> string \<Rightarrow> string \<Rightarrow> nodes \<Rightarrow> go_error option \<times> nodes" where
  "UpdateNodeCapabilities fault caps ident t =
     exec fault t (Inr (update_where (\<lambda>r. d_id r = ident) (\<lambda>r. r\<lparr>d_capabilities := caps\<rparr>) t))"

text \<open>A nil slice is \<open>None\<close>; \<open>json.Marshal\<close> prints it as \<open>null\<close>.\<close>

definition NodeStore_UpdateCapabilities ::
  "go_error option \<Rightarrow> string \<Rightarrow> string list option \<Rightarrow> nodes \<Rightarrow> go_error option \<times> nodes" where
  "NodeStore_UpdateCapabilities fault ident caps t =
     UpdateNodeCapabilities fault (case caps of None \<Rightarrow> ''null'' | Some cs \<Rightarrow> marshal_strings cs) ident t"

section \<open>Routes\<close>

record NodeRoute =
  Route :: string

definition marshal_routes :: "NodeRoute list \<Rightarrow> string" where
  "marshal_routes rs = json_array (map (\<lambda>r. json_object [(''route'', json_quote (Route r))]) rs)"

text \<open>One object: the fields whose key is \<open>route\<close> up to letter case, in order; the last one stays.\<close>

fun route_of :: "json \<Rightarrow> NodeRoute option" where
  "route_of JNull = Some \<lparr>Route = []\<rparr>"
| "route_of (JObj fs) =
     foldl (\<lambda>acc f. case acc of None \<Rightarrow> None
              | Some r \<Rightarrow> if ToLower (fst f) \<noteq> ''route'' then Some r
                          else case snd f of JNull \<Rightarrow> Some r | JStr s \<Rightarrow> Some \<lparr>Route = s\<rparr> | _ \<Rightarrow> None)
       (Some \<lparr>Route = []\<rparr>) fs"
| "route_of v = None"

definition unmarshal_routes :: "string \<Rightarrow> NodeRoute list option" where
  "unmarshal_routes s =
     (case json_parse s of
        None \<Rightarrow> None
      | Some v \<Rightarrow> (case v of JNull \<Rightarrow> Some [] | JArr vs \<Rightarrow> all_some (map route_of vs) | _ \<Rightarrow> None))"

definition UpdateNodeRoutes :: "go_error option \<Rightarrow> string option \<Rightarrow> string \<Rightarrow> nodes \<Rightarrow> go_error option \<times> nodes" where
  "UpdateNodeRoutes fault routes ident t =
     exec fault t (Inr (update_where (\<lambda>r. d_id r = ident) (\<lambda>r. r\<lparr>d_routes := routes\<rparr>) t))"

definition GetNodeRoutes :: "go_error option \<Rightarrow> string \<Rightarrow> nodes \<Rightarrow> string option res" where
  "GetNodeRoutes fault ident t = (case query_one fault (\<lambda>r. d_id r = ident) t of Inl e \<Rightarrow> Inl e | Inr r \<Rightarrow> Inr (d_routes r))"

definition NodeStore_UpdateRoutes :: "go_error option \<Rightarrow> string \<Rightarrow> NodeRoute list \<Rightarrow> nodes \<Rightarrow> go_error option \<times> nodes" where
  "NodeStore_UpdateRoutes fault ident routes t =
     (if routes = [] then UpdateNodeRoutes fault None ident t
      else UpdateNodeRoutes fault (Some (marshal_routes routes)) ident t)"

text \<open>\<open>decode_error\<close> is the error of \<open>json.Unmarshal\<close>, whose text is not looked at.\<close>

definition decode_error :: go_error where
  "decode_error = ErrMsg ''json''"

definition GetRoutes :: "go_error option \<Rightarrow> string \<Rightarrow> nodes \<Rightarrow> NodeRoute list res" where
  "GetRoutes fault ident t =
     (case GetNodeRoutes fault ident t of
        Inl e \<Rightarrow> Inl (ErrWrap ''get node routes'' e)
      | Inr None \<Rightarrow> Inr []
      | Inr (Some raw) \<Rightarrow>
          if raw = [] then Inr []
          else case unmarshal_routes raw of
            None \<Rightarrow> Inl (ErrWrap ''decode node routes'' decode_error)
          | Some routes \<Rightarrow> Inr routes)"

section \<open>Peers reported by the agent\<close>

record PeerDetail =
  VpnAddr :: string
  Direct :: bool
  RemoteAddr :: string
  RTTms :: int

definition peer_field :: "PeerDetail option \<Rightarrow> string \<times> json \<Rightarrow> PeerDetail option" where
  "peer_field acc f =
     (case acc of
        None \<Rightarrow> None
      | Some p \<Rightarrow>
          let key = ToLower (fst f) in
          if key = ''vpnaddr'' then
            (case snd f of JNull \<Rightarrow> Some p | JStr v \<Rightarrow> Some (p\<lparr>VpnAddr := v\<rparr>) | _ \<Rightarrow> None)
          else if key = ''direct'' then
            (case snd f of JNull \<Rightarrow> Some p | JBool v \<Rightarrow> Some (p\<lparr>Direct := v\<rparr>) | _ \<Rightarrow> None)
          else if key = ''remoteaddr'' then
            (case snd f of JNull \<Rightarrow> Some p | JStr v \<Rightarrow> Some (p\<lparr>RemoteAddr := v\<rparr>) | _ \<Rightarrow> None)
          else if key = ''rttms'' then
            (case snd f of
               JNull \<Rightarrow> Some p
             | JNum v \<Rightarrow> if snd (Atoi v) then Some (p\<lparr>RTTms := fst (Atoi v)\<rparr>) else None
             | _ \<Rightarrow> None)
          else Some p)"

fun peer_of :: "json \<Rightarrow> PeerDetail option" where
  "peer_of JNull = Some \<lparr>VpnAddr = [], Direct = False, RemoteAddr = [], RTTms = 0\<rparr>"
| "peer_of (JObj fs) = foldl peer_field (Some \<lparr>VpnAddr = [], Direct = False, RemoteAddr = [], RTTms = 0\<rparr>) fs"
| "peer_of v = None"

definition parsePeerState :: "string option \<Rightarrow> PeerDetail list" where
  "parsePeerState raw =
     (case raw of
        None \<Rightarrow> []
      | Some r \<Rightarrow>
          if r = [] \<or> r = ''null'' then []
          else case json_parse r of
            Some (JArr vs) \<Rightarrow> (case all_some (map peer_of vs) of None \<Rightarrow> [] | Some ps \<Rightarrow> ps)
          | _ \<Rightarrow> [])"

section \<open>Settings are read back as they were written\<close>

lemma marshal_not_null: "marshal_strings xs \<noteq> []" "marshal_strings xs \<noteq> ''null''"
  by (simp_all add: marshal_strings_def json_array_def)

lemma HasCapability_marshal: "nd_capabilities n = marshal_strings cs \<Longrightarrow> HasCapability n c \<longleftrightarrow> c \<in> set cs"
  by (simp add: HasCapability_def marshal_not_null unmarshal_marshal)

lemma HasCapability_null: "nd_capabilities n = ''null'' \<Longrightarrow> \<not> HasCapability n c"
  by (simp add: HasCapability_def)

lemma ws_braces [simp]: "ws (CHR ''{'' # s) = CHR ''{'' # s" "ws (CHR ''}'' # s) = CHR ''}'' # s" "ws (CHR '':'' # s) = CHR '':'' # s"
  by (simp_all add: ws_def)

lemma parse_route:
  "parse_value (Suc (Suc (Suc n))) (json_object [(''route'', json_quote s)] @ r) = Some (JObj [(''route'', JStr s)], r)"
proof -
  have "json_chars ''route'' = ''route''" by code_simp
  then have key: "str_body (''route'' @ CHR 0x22 # u) = Some (''route'', u)" for u
    using str_body_chars [of "''route''" u] by simp
  have "parse_members (Suc (Suc n)) (json_quote ''route'' @ '':'' @ json_quote s @ ''}'' @ r) = Some ([(''route'', JStr s)], r)"
    using str_body_chars [of "''route''" "'':'' @ json_quote s @ ''}'' @ r"] parse_quoted [of n s "''}'' @ r"]
    by (simp add: json_quote_def del: str_body.simps)
  moreover have "ws (json_quote ''route'' @ '':'' @ json_quote s @ ''}'' @ r) = json_quote ''route'' @ '':'' @ json_quote s @ ''}'' @ r"
    by (simp add: json_quote_def)
  ultimately show ?thesis by (simp add: json_object_def json_quote_def del: parse_members.simps)
qed

lemma prints_route:
  "prints 3 (\<lambda>r. json_object [(''route'', json_quote (Route r))]) (\<lambda>r. JObj [(''route'', JStr (Route r))])"
  unfolding prints_def
proof (intro conjI allI impI)
  fix x n r assume "3 \<le> (n :: nat)"
  then obtain m where "n = Suc (Suc (Suc m))" by (metis Suc_le_D numeral_3_eq_3 Suc_le_mono)
  then show "parse_value n (json_object [(''route'', json_quote (Route x))] @ r) = Some (JObj [(''route'', JStr (Route x))], r)"
    using parse_route by simp
qed (auto simp: json_object_def)

lemma route_of_printed: "route_of (JObj [(''route'', JStr (Route r))]) = Some r"
proof -
  have "ToLower ''route'' = ''route''" by code_simp
  then show ?thesis by simp
qed

lemma unmarshal_routes_marshal: "unmarshal_routes (marshal_routes rs) = Some rs"
  using json_parse_array [OF prints_route, of rs] all_some_map [of "\<lambda>x. x" rs]
  by (simp add: unmarshal_routes_def marshal_routes_def comp_def route_of_printed del: route_of.simps)

lemma exec_update_None:
  "exec fault t (Inr (update_where P f t)) = (None, t') \<longleftrightarrow> fault = None \<and> t' = update_where P f t"
  by (auto simp: exec_def split: option.splits)

lemma update_where_others:
  "(\<And>r. d_id (f r) = d_id r) \<Longrightarrow>
     filter (\<lambda>r. d_id r \<noteq> ident) (update_where (\<lambda>r. d_id r = ident) f t) = filter (\<lambda>r. d_id r \<noteq> ident) t"
  by (induction t) (auto simp: update_where_def)

lemma UpdateRoutes_GetRoutes:
  assumes "NodeStore_UpdateRoutes fault ident rs t = (None, t'')" "ident \<in> d_id ` set t"
  shows "GetRoutes None ident t'' = Inr rs"
proof -
  let ?v = "if rs = [] then None else Some (marshal_routes rs)"
  have t'': "t'' = update_where (\<lambda>r. d_id r = ident) (\<lambda>r. r\<lparr>d_routes := ?v\<rparr>) t"
    using assms(1) by (auto simp: NodeStore_UpdateRoutes_def UpdateNodeRoutes_def exec_update_None split: if_splits)
  obtain r where r: "find (\<lambda>r. d_id r = ident) t = Some r"
    using assms(2) by (metis (mono_tags, lifting) find_None_conv imageE not_None_eq)
  then have "GetNodeRoutes None ident t'' = Inr ?v"
    using find_Some_conv [OF r] unfolding t'' by (simp add: GetNodeRoutes_def query_one_def select_one_def find_update)
  moreover have "marshal_routes rs \<noteq> []" by (simp add: marshal_routes_def json_array_def)
  ultimately show ?thesis by (auto simp: GetRoutes_def unmarshal_routes_marshal)
qed

text \<open>
  Settings survive the database. After \<open>UpdateCapabilities\<close> on a stored node, every later
  reading of this node has exactly the capabilities that were set, and a nil list means none; every
  other row is untouched. After \<open>UpdateRoutes\<close>, \<open>GetRoutes\<close> returns exactly the routes that were set,
  the empty list included. The names may contain any bytes that JSON has to escape.
\<close>

theorem node_settings_roundtrip:
  assumes caps: "NodeStore_UpdateCapabilities fault ident cs t = (None, t')"
    and node: "NodeStore_Get g enc f ident t' = Inr (Some n)"
    and routes: "NodeStore_UpdateRoutes fault' ident rs t = (None, t'')" "ident \<in> d_id ` set t"
  shows "(HasCapability n c \<longleftrightarrow> (\<exists>xs. cs = Some xs \<and> c \<in> set xs))
       \<and> parseCapabilities (nd_capabilities n) = (case cs of None \<Rightarrow> [] | Some xs \<Rightarrow> xs)
       \<and> filter (\<lambda>r. d_id r \<noteq> ident) t' = filter (\<lambda>r. d_id r \<noteq> ident) t
       \<and> GetRoutes None ident t'' = Inr rs"
proof -
  let ?js = "case cs of None \<Rightarrow> ''null'' | Some xs \<Rightarrow> marshal_strings xs"
  have t': "t' = update_where (\<lambda>r. d_id r = ident) (\<lambda>r. r\<lparr>d_capabilities := ?js\<rparr>) t"
    using caps by (simp add: NodeStore_UpdateCapabilities_def UpdateNodeCapabilities_def exec_update_None)
  obtain row where row: "row \<in> set t'" "d_id row = ident" "mapNodeRow g enc row = Inr n"
    by (rule NodeStore_Get_Some [OF node])
  from row(1) obtain x where "x \<in> set t" "row = (if d_id x = ident then x\<lparr>d_capabilities := ?js\<rparr> else x)"
    unfolding t' set_update_where by blast
  then have "d_capabilities row = ?js" using row(2) by (simp split: if_splits)
  then have n: "nd_capabilities n = ?js" using mapNodeRow_fields [OF row(3)] by (simp only:)
  have "HasCapability n c \<longleftrightarrow> (\<exists>xs. cs = Some xs \<and> c \<in> set xs)"
    using n by (cases cs) (auto simp: HasCapability_null HasCapability_marshal)
  moreover have "parseCapabilities (nd_capabilities n) = (case cs of None \<Rightarrow> [] | Some xs \<Rightarrow> xs)"
    using n by (cases cs) (simp_all add: parseCapabilities_def unmarshal_marshal marshal_not_null)
  moreover have "filter (\<lambda>r. d_id r \<noteq> ident) t' = filter (\<lambda>r. d_id r \<noteq> ident) t"
    unfolding t' by (rule update_where_others) simp
  moreover have "GetRoutes None ident t'' = Inr rs" by (rule UpdateRoutes_GetRoutes [OF routes])
  ultimately show ?thesis by blast
qed

theorem node_settings_roundtrip_witness:
  "\<exists>t' t'' n. NodeStore_UpdateCapabilities None ''d1'' (Some [''relay'']) sample_nodes = (None, t')
     \<and> NodeStore_UpdateRoutes None ''d1'' [\<lparr>Route = ''10.0.0.0/16''\<rparr>] sample_nodes = (None, t'')
     \<and> NodeStore_Get plain_gcm \<lparr>enc_key = replicate 32 CHR ''k''\<rparr> (\<lambda>i. None) ''d1'' t' = Inr (Some n)
     \<and> HasCapability n ''relay'' \<and> \<not> HasCapability n ''terminal'' \<and> GetRoutes None ''d1'' t'' = Inr [\<lparr>Route = ''10.0.0.0/16''\<rparr>]"
proof -
  obtain t' where c: "NodeStore_UpdateCapabilities None ''d1'' (Some [''relay'']) sample_nodes = (None, t')"
    by (simp add: NodeStore_UpdateCapabilities_def UpdateNodeCapabilities_def exec_def)
  obtain t'' where r: "NodeStore_UpdateRoutes None ''d1'' [\<lparr>Route = ''10.0.0.0/16''\<rparr>] sample_nodes = (None, t'')"
    by (simp add: NodeStore_UpdateRoutes_def UpdateNodeRoutes_def exec_def)
  have t: "t' = snd (NodeStore_UpdateCapabilities None ''d1'' (Some [''relay'']) sample_nodes)" using c by simp
  have "case NodeStore_Get plain_gcm \<lparr>enc_key = replicate 32 CHR ''k''\<rparr> (\<lambda>i. None) ''d1'' t' of Inr (Some n) \<Rightarrow> True | _ \<Rightarrow> False"
    unfolding t by code_simp
  then obtain n where n: "NodeStore_Get plain_gcm \<lparr>enc_key = replicate 32 CHR ''k''\<rparr> (\<lambda>i. None) ''d1'' t' = Inr (Some n)"
    by (auto split: sum.splits option.splits)
  have "map d_id sample_nodes = [''d1'']" by code_simp
  then have "''d1'' \<in> d_id ` set sample_nodes" by (metis list.set_intros(1) list.set_map)
  from node_settings_roundtrip [OF c n r this] show ?thesis using c r n by auto
qed

end
