(* ===== verification/NetworkApi.thy ===== *)
theory NetworkApi
  imports Enrollment NetworkManager NodeSettings
begin

text \<open>
  Networks (src/internal/api/networks.go). \<open>CreateNetwork\<close> draws a slug, a CA, a subnet, a server
  certificate and a lighthouse port, stores the network and makes the creator its administrator;
  \<open>DeleteNetwork\<close> takes everything down. The responses carry what the handlers compute; a nil slice of
  capabilities, as in the entry of the lighthouse, is \<open>None\<close>.
\<close>

section \<open>Slugs\<close>

definition slug_char :: "char \<Rightarrow> bool" where
  "slug_char c \<longleftrightarrow> (97 \<le> (of_char c :: nat) \<and> (of_char c :: nat) \<le> 122) \<or> is_digit c \<or> c = CHR ''-''"

text \<open>\<open>slugRe.ReplaceAllString(s, "-")\<close> for \<open>[^a-z0-9-]+\<close>: each maximal run of other bytes becomes one hyphen.\<close>

function slug_replace :: "string \<Rightarrow> string" where
  "slug_replace [] = []"
| "slug_replace (c # s) =
     (if slug_char c then c # slug_replace s else CHR ''-'' # slug_replace (dropWhile (\<lambda>c. \<not> slug_char c) s))"
  by pat_completeness auto
termination
  by (relation "measure length") (auto simp: le_imp_less_Suc length_dropWhile_le)

definition slugify :: "string \<Rightarrow> string" where
  "slugify name =
     (let s = ToLower (TrimSpace name);
          s = slug_replace s;
          s = trim_by (\<lambda>c. c = CHR ''-'') s;
          s = (if s = [] then ''network'' else s)
      in if length s > 60 then take 60 s else s)"

text \<open>\<open>left\<close> candidates are still to be tried, the number of the next suffix is \<open>attempt\<close>.\<close>

fun slug_attempts :: "(nat \<Rightarrow> go_error option) \<Rightarrow> string \<Rightarrow> networks \<Rightarrow> nat \<Rightarrow> nat \<Rightarrow> string \<Rightarrow> string res" where
  "slug_attempts fault base t 0 attempt slug =
     Inl (ErrMsg ''could not generate unique name, please choose a different one'')"
| "slug_attempts fault base t (Suc left) attempt slug =
     (if \<not> SlugExists (fault attempt) slug t then Inr slug
      else slug_attempts fault base t left (Suc attempt) (base @ ''-'' @ itoa attempt))"

definition uniqueSlug :: "(nat \<Rightarrow> go_error option) \<Rightarrow> string \<Rightarrow> networks \<Rightarrow> string res" where
  "uniqueSlug fault base t = slug_attempts fault base t 99 2 base"

section \<open>Creating a network\<close>

definition caDuration :: int where
  "caDuration = 10 * 365 * 24 * 60 * 60"

record network_created =
  nc_id :: string
  nc_name :: string
  nc_slug :: string
  nc_subnet :: string
  nc_port :: int
  nc_dns_domain :: string
  nc_role :: string

definition CreateNetwork ::
  "platform \<Rightarrow> request \<Rightarrow> UserProfile \<Rightarrow> (string \<times> string) option \<Rightarrow> server \<Rightarrow> network_created http \<times> server" where
  "CreateNetwork P e user body s =
     (case body of
        None \<Rightarrow> (Reject 400 ''name is required'', s)
      | Some (name, domain) \<Rightarrow>
          if name = [] then (Reject 400 ''name is required'', s)
          else
            let domain' = (if domain = [] then ''hop'' else domain) in
            case uniqueSlug (attempts e ''SlugExists'') (slugify name) (sv_networks s) of
              Inl err \<Rightarrow> (Reject 409 (Error err), s)
            | Inr slug \<Rightarrow>
                (case GenerateCA (certs P) (rand_bytes e) (clock e 0) (clock e 1) (''hopssh-'' @ slug) caDuration of
                   Inl err \<Rightarrow> (Reject 500 (''failed to generate CA: '' @ Error err), s)
                 | Inr ca \<Rightarrow>
                     (case AllocateSubnet (fails e ''AllocateSubnet'') (sv_networks s) of
                        Inl err \<Rightarrow> (Reject 500 (''failed to allocate subnet: '' @ Error err), s)
                      | Inr subnet \<Rightarrow>
                          (case ServerAddress subnet of
                             Inl err \<Rightarrow> (Reject 500 (''failed to compute server IP: '' @ Error err), s)
                           | Inr ip \<Rightarrow>
                               (case IssueCert (certs P) (key_bytes e 0) (clock e 2) (clock e 3) (CertPEM ca) (KeyPEM ca)
                                       ''hopssh-server'' ip [''admin'', ''node''] (caDuration - 60 * 60) of
                                  Inl err \<Rightarrow> (Reject 500 (''failed to issue server cert: '' @ Error err), s)
                                | Inr cert \<Rightarrow>
                                    (case AllocatePort (fails e ''AllocatePort'') (sv_networks s) of
                                       Inl err \<Rightarrow> (Reject 500 (''failed to allocate lighthouse port: '' @ Error err), s)
                                     | Inr port \<Rightarrow>
                                         let network =
                                               \<lparr>n_id = new_id e 0, n_user_id = p_id user, n_name = name, n_slug = slug,
                                                n_ca_cert = CertPEM ca, n_ca_key = KeyPEM ca, n_subnet = subnet,
                                                n_server_cert = CertPEM cert, n_server_key = KeyPEM cert,
                                                n_port = Some port, n_dns_domain = domain', n_created_at = 0\<rparr>
                                         in case NetworkStore_Create (aead P) (encryptor P) (nonce e 0) (nonce e 1)
                                                   (fails e ''Networks.Create'') (clock e 4) network (sv_networks s) of
                                              (Some err, t) \<Rightarrow>
                                                (if IsUniqueViolation (Some err)
                                                 then (Reject 409 ''network name or subnet conflict, please try again'', s\<lparr>sv_networks := t\<rparr>)
                                                 else (Reject 500 (''failed to create network: '' @ Error err), s\<lparr>sv_networks := t\<rparr>))
                                            | (None, t) \<Rightarrow>
                                                (Reply 201 \<lparr>nc_id = n_id network, nc_name = n_name network, nc_slug = n_slug network,
                                                   nc_subnet = n_subnet network, nc_port = port, nc_dns_domain = domain', nc_role = ''admin''\<rparr>,
                                                 emit (StartNetwork (n_id network))
                                                   (s\<lparr>sv_networks := t,
                                                      sv_members := snd (NetworkMemberStore_Add (fails e ''Members.Add'') (clock e 5)
                                                        (n_id network @ ''-owner'') (n_id network) (p_id user) ''admin'' (sv_members s))\<rparr>))))))))"

section \<open>Reading networks\<close>

record networkEntry =
  ne_id :: string
  ne_name :: string
  ne_slug :: string
  ne_subnet :: string
  ne_node_count :: int
  ne_port :: "int option"
  ne_dns_domain :: string
  ne_role :: string
  ne_created_at :: int

definition ListNetworks :: "platform \<Rightarrow> request \<Rightarrow> UserProfile \<Rightarrow> server \<Rightarrow> networkEntry list http" where
  "ListNetworks P e user s =
     (case NetworkStore_ListForUser (fails e ''Networks.ListForUser'') (p_id user) (sv_networks s) of
        Inl err \<Rightarrow> Reject 500 (Error err)
      | Inr owned \<Rightarrow>
          let memberIDs = (case ListNetworkIDsForUser (fails e ''Members.ListNetworkIDsForUser'') (p_id user) (sv_members s) of
                             Inl err \<Rightarrow> [] | Inr ids \<Rightarrow> ids);
              joined = List.map_filter (\<lambda>nid.
                         if nid \<in> set (map n_id owned) then None
                         else case NetworkStore_Get (aead P) (encryptor P) (attempts e (''Networks.Get:'' @ nid)) nid (sv_networks s) of
                                Inl err \<Rightarrow> None | Inr n \<Rightarrow> n) memberIDs
          in Reply 200 (map (\<lambda>n.
               \<lparr>ne_id = n_id n, ne_name = n_name n, ne_slug = n_slug n, ne_subnet = n_subnet n,
                ne_node_count = fst (CountForNetwork (fails e (''CountForNetwork:'' @ n_id n)) (n_id n) (sv_nodes s)),
                ne_port = n_port n, ne_dns_domain = n_dns_domain n,
                ne_role = (if n_user_id n = p_id user then ''admin'' else ''member''),
                ne_created_at = n_created_at n\<rparr>) (owned @ joined)))"

record NodeResponse =
  nq_id :: string
  nq_network_id :: string
  nq_hostname :: string
  nq_os :: string
  nq_arch :: string
  nq_ip :: string
  nq_real_ip :: "string option"
  nq_type :: string
  nq_exposed_ports :: "string option"
  nq_dns_name :: "string option"
  nq_capabilities :: "string list option"
  nq_status :: string
  nq_last_seen :: "int option"
  nq_created_at :: int
  nq_peers_direct :: "int option"
  nq_peers_relayed :: "int option"
  nq_peers_reported_at :: "int option"
  nq_agent_version :: "string option"
  nq_client_type :: "string option"
  nq_connectivity :: string
  nq_peers :: "PeerDetail list"

text \<open>The status a node is shown with: offline when its heartbeat is stale, degraded when it has no peers.\<close>

definition display_status :: "int \<Rightarrow> Node list \<Rightarrow> Node \<Rightarrow> string" where
  "display_status now nodes n =
     (let status = effectiveStatus now (nd_status n) (nd_last_seen n) in
      if status = ''online''
         \<and> isDegraded now status (nd_type n) (nd_created_at n) (nd_peers_reported_at n) (nd_peers_direct n) (nd_peers_relayed n)
             (countPotentialPeers now (map (\<lambda>m. (nd_id m, nd_type m, nd_status m, nd_last_seen m)) nodes) (nd_id n))
      then ''degraded'' else status)"

definition node_response :: "int \<Rightarrow> (string \<rightharpoonup> string) \<Rightarrow> Node list \<Rightarrow> Node \<Rightarrow> NodeResponse" where
  "node_response now clientTypes nodes n =
     \<lparr>nq_id = nd_id n, nq_network_id = nd_network_id n, nq_hostname = nd_hostname n, nq_os = nd_os n, nq_arch = nd_arch n,
      nq_ip = nd_ip n, nq_real_ip = nd_real_ip n, nq_type = nd_type n,
      nq_exposed_ports = nd_exposed_ports n, nq_dns_name = nd_dns_name n,
      nq_capabilities = Some (parseCapabilities (nd_capabilities n)), nq_status = display_status now nodes n, nq_last_seen = nd_last_seen n, nq_created_at = nd_created_at n,
      nq_peers_direct = nd_peers_direct n, nq_peers_relayed = nd_peers_relayed n,
      nq_peers_reported_at = nd_peers_reported_at n, nq_agent_version = nd_agent_version n,
      nq_client_type = (case clientTypes (nd_id n) of None \<Rightarrow> None | Some v \<Rightarrow> if v \<noteq> [] then Some v else None),
      nq_connectivity = deriveConnectivity (nd_peers_direct n) (nd_peers_relayed n) (nd_type n),
      nq_peers = parsePeerState (nd_peer_state n)\<rparr>"

definition lighthouse_response :: "int \<Rightarrow> Network \<Rightarrow> NodeResponse list" where
  "lighthouse_response now network =
     (case ServerAddress (n_subnet network) of
        Inl e \<Rightarrow> []
      | Inr p \<Rightarrow>
          [\<lparr>nq_id = ''lighthouse-'' @ n_id network, nq_network_id = n_id network, nq_hostname = ''lighthouse'', nq_os = [],
            nq_arch = [], nq_ip = addr_string (Addr p), nq_real_ip = None, nq_type = ''lighthouse'', nq_exposed_ports = None,
            nq_dns_name = None, nq_capabilities = None, nq_status = ''online'', nq_last_seen = Some now, nq_created_at = 0,
            nq_peers_direct = None, nq_peers_relayed = None, nq_peers_reported_at = None, nq_agent_version = None,
            nq_client_type = None,
            nq_connectivity = ''direct'', nq_peers = []\<rparr>])"

record network_page =
  np_network :: networkEntry
  np_nodes :: "NodeResponse list"

definition GetNetwork ::
  "platform \<Rightarrow> request \<Rightarrow> UserProfile \<Rightarrow> string \<Rightarrow> server \<Rightarrow> network_page http \<times> server" where
  "GetNetwork P e user networkID s =
     view_only P e user networkID s (\<lambda>network.
       let nodes = (case NodeStore_ListForNetwork (fails e ''Nodes.ListForNetwork'') networkID (sv_nodes s) of
                      Inl err \<Rightarrow> [] | Inr ns \<Rightarrow> ns);
           clientTypes = ClientTypesForNetwork (fails e ''ClientTypesForNetwork'') networkID (sv_nodes s);
           responses = map (node_response (clock e 1) clientTypes nodes) nodes @ lighthouse_response (clock e 0) network
       in (Reply 200
             \<lparr>np_network = \<lparr>ne_id = n_id network, ne_name = n_name network, ne_slug = n_slug network, ne_subnet = n_subnet network,
                ne_node_count = int (length responses) - int (length (lighthouse_response (clock e 0) network)),
                ne_port = n_port network, ne_dns_domain = n_dns_domain network,
                ne_role = Role (CheckAccess (Some user) (Some network) (Members_Get e networkID (p_id user) s)),
                ne_created_at = n_created_at network\<rparr>,
              np_nodes = responses\<rparr>, s))"

section \<open>Deleting a network\<close>

definition DeleteNetwork_handler ::
  "platform \<Rightarrow> request \<Rightarrow> UserProfile \<Rightarrow> string \<Rightarrow> server \<Rightarrow> unit http \<times> server" where
  "DeleteNetwork_handler P e user networkID s =
     owner_only P e user networkID s (\<lambda>network.
       let s = emit (StopNetwork networkID) (emit (StopAllForNetwork networkID) s);
           s = s\<lparr>sv_cache := InvalidateProxyCache networkID [] (sv_cache s)\<rparr>;
           s = with_nodes (snd (DeleteForNetwork (fails e ''Nodes.DeleteForNetwork'') networkID (sv_nodes s))) s
       in case NetworkStore_Delete (fails e ''Networks.Delete'') networkID (sv_networks s) of
            (Some err, t) \<Rightarrow> (Reject 500 (Error err), s\<lparr>sv_networks := t\<rparr>)
          | (None, t) \<Rightarrow> (Reply 204 (), s\<lparr>sv_networks := t\<rparr>))"

section \<open>Slugs are safe names\<close>

lemma slug_replace_char: "list_all slug_char (slug_replace s)"
  by (induction s rule: slug_replace.induct) (auto simp: slug_char_def)

lemma slug_char_hyphen_digits: "list_all slug_char (''-'' @ itoa n)"
  using itoa_digits [of n] by (auto simp: slug_char_def list_all_iff)

lemma slugify_safe: "slugify name \<noteq> [] \<and> list_all slug_char (slugify name) \<and> length (slugify name) \<le> 60"
proof -
  define m where "m = trim_by (\<lambda>c. c = CHR ''-'') (slug_replace (ToLower (TrimSpace name)))"
  define s where "s = (if m = [] then ''network'' else m)"
  have "list_all slug_char m"
    using trim_by_set slug_replace_char unfolding m_def list_all_iff by blast
  then have s: "list_all slug_char s" "s \<noteq> []" by (auto simp: s_def slug_char_def)
  have "slugify name = (if length s > 60 then take 60 s else s)"
    unfolding slugify_def Let_def m_def [symmetric] s_def by simp
  then show ?thesis using s by (auto simp: list_all_iff dest: in_set_takeD)
qed

lemma slug_attempts_shape:
  "slug_attempts f base t left k slug = Inr r
     \<Longrightarrow> r = slug \<or> (\<exists>n. k \<le> n \<and> Suc n < k + left \<and> r = base @ ''-'' @ itoa n)"
proof (induction left arbitrary: k slug)
  case (Suc left)
  show ?case
  proof (cases "SlugExists (f k) slug t")
    case True
    then have r: "slug_attempts f base t left (Suc k) (base @ ''-'' @ itoa k) = Inr r" using Suc.prems by simp
    then have "left \<noteq> 0" by (intro notI) simp
    then show ?thesis using Suc.IH [OF r] by (metis Suc_le_mono add_Suc_right add_Suc_shift le_SucI le_refl less_add_same_cancel1 neq0_conv Suc_less_eq Suc_leD)
  qed (use Suc.prems in simp)
qed simp

lemma slug_attempts_unused:
  "slug_attempts f base t left k slug = Inr r \<Longrightarrow> \<forall>i. f i = None \<Longrightarrow> r \<notin> nr_slug ` set t"
proof (induction left arbitrary: k slug)
  case (Suc left)
  then show ?case
    by (auto simp: SlugExists_def NetworkSlugExists_def split: if_splits dest!: affected_0_iff [THEN iffD1])
qed simp

lemma itoa_short: "n < 100 \<Longrightarrow> length (itoa n) \<le> 2"
  by (subst itoa.simps) (auto, subst itoa.simps, auto)

lemma uniqueSlug_safe:
  assumes "uniqueSlug f (slugify name) t = Inr slug"
  shows "slug \<noteq> [] \<and> list_all slug_char slug \<and> length slug \<le> 63"
proof -
  consider "slug = slugify name" | n where "n < 100" "slug = slugify name @ ''-'' @ itoa n"
    using slug_attempts_shape [OF assms [unfolded uniqueSlug_def]] by auto
  then show ?thesis
  proof cases
    case 2
    then show ?thesis using slugify_safe [of name] slug_char_hyphen_digits [of n] itoa_short [of n] by auto
  qed (use slugify_safe [of name] in auto)
qed

section \<open>What creating and deleting a network does\<close>

lemma NetworkStore_Create_cases:
  assumes "NetworkStore_Create g enc n1 n2 f now n t = r"
  shows "(\<exists>err. r = (Some err, t))
     \<or> (\<exists>row. r = (None, t @ [row]) \<and> nr_id row = n_id n \<and> nr_user_id row = n_user_id n \<and> nr_slug row = n_slug n
          \<and> nr_subnet row = Some (n_subnet n) \<and> nr_port row = n_port n \<and> (\<forall>x \<in> set t. \<not> network_clash row x))"
  using assms
  by (auto simp: NetworkStore_Create_def InsertNetwork_def exec_def insert_row_def split: sum.splits option.splits if_splits)

lemma AllocateSubnet_Inr:
  assumes "AllocateSubnet f t = Inr subnet" "subnets_ok t" "nr_subnet row = Some subnet"
  shows "subnets_ok (t @ [row])"
proof -
  have "f = None" using assms(1) by (auto simp: AllocateSubnet_def MaxSubnetOctet_def split: option.splits)
  then show ?thesis using AllocateSubnet_sound [OF assms(2)] assms(1,3) by auto
qed

lemma CreateNetwork_cases:
  assumes "CreateNetwork P e user body s = r"
  shows "(\<exists>code msg. r = (Reject code msg, s))
     \<or> (\<exists>name slug subnet port row b.
          uniqueSlug (attempts e ''SlugExists'') (slugify name) (sv_networks s) = Inr slug
        \<and> AllocateSubnet (fails e ''AllocateSubnet'') (sv_networks s) = Inr subnet
        \<and> nr_id row = new_id e 0 \<and> nr_user_id row = p_id user \<and> nr_slug row = slug \<and> nr_subnet row = Some subnet
        \<and> nr_port row = Some port \<and> (\<forall>x \<in> set (sv_networks s). \<not> network_clash row x)
        \<and> nc_id b = new_id e 0 \<and> nc_slug b = slug \<and> nc_subnet b = subnet \<and> nc_port b = port \<and> nc_role b = ''admin''
        \<and> r = (Reply 201 b, emit (StartNetwork (new_id e 0))
                 (s\<lparr>sv_networks := sv_networks s @ [row],
                    sv_members := snd (NetworkMemberStore_Add (fails e ''Members.Add'') (clock e 5)
                      (new_id e 0 @ ''-owner'') (new_id e 0) (p_id user) ''admin'' (sv_members s))\<rparr>)))"
proof (cases "\<exists>code msg. r = (Reject code msg, s)")
  case False
  obtain name domain where b: "body = Some (name, domain)" "name \<noteq> []"
    using assms False by (auto simp: CreateNetwork_def split: option.splits if_splits)
  note A = assms [unfolded b CreateNetwork_def, simplified b(2) option.case prod.case if_False, unfolded Let_def]
  obtain slug where slug: "uniqueSlug (attempts e ''SlugExists'') (slugify name) (sv_networks s) = Inr slug"
    using A False by (auto split: sum.splits)
  obtain subnet where subnet: "AllocateSubnet (fails e ''AllocateSubnet'') (sv_networks s) = Inr subnet"
    using A False b(2) by (simp add: slug split: sum.splits) auto
  obtain ca ip cert port where k:
      "GenerateCA (certs P) (rand_bytes e) (clock e 0) (clock e 1) (''hopssh-'' @ slug) caDuration = Inr ca"
      "ServerAddress subnet = Inr ip" "AllocatePort (fails e ''AllocatePort'') (sv_networks s) = Inr port"
      "IssueCert (certs P) (key_bytes e 0) (clock e 2) (clock e 3) (CertPEM ca) (KeyPEM ca)
         ''hopssh-server'' ip [''admin'', ''node''] (caDuration - 60 * 60) = Inr cert"
    using A False b(2) by (simp add: slug subnet split: sum.splits) auto
  define network where "network =
     \<lparr>n_id = new_id e 0, n_user_id = p_id user, n_name = name, n_slug = slug, n_ca_cert = CertPEM ca, n_ca_key = KeyPEM ca,
      n_subnet = subnet, n_server_cert = CertPEM cert, n_server_key = KeyPEM cert, n_port = Some port,
      n_dns_domain = (if domain = [] then ''hop'' else domain), n_created_at = 0\<rparr>"
  have n: "n_id network = new_id e 0" "n_user_id network = p_id user" "n_slug network = slug" "n_subnet network = subnet"
      "n_port network = Some port" "n_name network = name"
    by (simp_all add: network_def)
  note B = A [unfolded slug sum.case k subnet network_def [symmetric] n]
  show ?thesis
    using NetworkStore_Create_cases [OF refl, of "aead P" "encryptor P" "nonce e 0" "nonce e 1" "fails e ''Networks.Create''"
        "clock e 4" network "sv_networks s"]
  proof (elim disjE exE conjE)
    fix err assume "NetworkStore_Create (aead P) (encryptor P) (nonce e 0) (nonce e 1) (fails e ''Networks.Create'')
      (clock e 4) network (sv_networks s) = (Some err, sv_networks s)"
    then show ?thesis using B False by (auto split: if_splits)
  next
    fix row assume row: "NetworkStore_Create (aead P) (encryptor P) (nonce e 0) (nonce e 1) (fails e ''Networks.Create'')
      (clock e 4) network (sv_networks s) = (None, sv_networks s @ [row])"
      and f: "nr_id row = n_id network" "nr_user_id row = n_user_id network" "nr_slug row = n_slug network"
      "nr_subnet row = Some (n_subnet network)" "nr_port row = n_port network" "\<forall>x \<in> set (sv_networks s). \<not> network_clash row x"
    define b where "b = \<lparr>nc_id = new_id e 0, nc_name = name, nc_slug = slug, nc_subnet = subnet, nc_port = port,
      nc_dns_domain = (if domain = [] then ''hop'' else domain), nc_role = ''admin''\<rparr>"
    show ?thesis
      using f unfolding n
      by (intro disjI2 exI [of _ name] exI [of _ slug] exI [of _ subnet] exI [of _ port] exI [of _ row] exI [of _ b] conjI
          slug subnet) (simp_all add: b_def B [unfolded row option.case prod.case, symmetric])
  qed
qed auto

text \<open>
  Property C22. Creating a network is all or nothing. A request that is refused, for whatever reason,
  leaves the server as it was. A request that is answered with 201 appends one row, owned by the
  caller, whose slug is a safe name of at most 63 characters; id, slug, subnet and port are in use by
  no other network, the stored subnets keep their form, and the lighthouse is started. When no
  membership row stands in the way, the caller is recorded as administrator.
\<close>

theorem CreateNetwork_outcome:
  assumes "subnets_ok (sv_networks s)"
  shows "case CreateNetwork P e user body s of
           (Reject code msg, s') \<Rightarrow> s' = s
         | (Reply code b, s') \<Rightarrow>
             code = 201
           \<and> (\<exists>row. sv_networks s' = sv_networks s @ [row] \<and> nr_id row = nc_id b \<and> nr_user_id row = p_id user
               \<and> nr_slug row = nc_slug b \<and> nr_subnet row = Some (nc_subnet b) \<and> nr_port row = Some (nc_port b))
           \<and> nc_slug b \<noteq> [] \<and> list_all slug_char (nc_slug b) \<and> length (nc_slug b) \<le> 63
           \<and> nc_id b \<notin> nr_id ` set (sv_networks s) \<and> nc_slug b \<notin> nr_slug ` set (sv_networks s)
           \<and> Some (nc_subnet b) \<notin> nr_subnet ` set (sv_networks s) \<and> Some (nc_port b) \<notin> nr_port ` set (sv_networks s)
           \<and> subnets_ok (sv_networks s') \<and> owns (p_id user) (nc_id b) (sv_networks s')
           \<and> sv_trace s' = sv_trace s @ [StartNetwork (nc_id b)]
           \<and> (fails e ''Members.Add'' = None \<and> nc_id b \<notin> m_network_id ` set (sv_members s)
                \<and> nc_id b @ ''-owner'' \<notin> m_id ` set (sv_members s)
                \<longrightarrow> has_role (p_id user) (nc_id b) ''admin'' (sv_members s'))"
  using CreateNetwork_cases [OF refl, of P e user body s]
proof (elim disjE exE conjE)
  fix name slug subnet port row and b :: network_created
  assume "CreateNetwork P e user body s = (Reply 201 b, emit (StartNetwork (new_id e 0))
            (s\<lparr>sv_networks := sv_networks s @ [row],
               sv_members := snd (NetworkMemberStore_Add (fails e ''Members.Add'') (clock e 5)
                 (new_id e 0 @ ''-owner'') (new_id e 0) (p_id user) ''admin'' (sv_members s))\<rparr>))"
    and slug: "uniqueSlug (attempts e ''SlugExists'') (slugify name) (sv_networks s) = Inr slug"
    and subnet: "AllocateSubnet (fails e ''AllocateSubnet'') (sv_networks s) = Inr subnet"
    and row: "nr_id row = new_id e 0" "nr_user_id row = p_id user" "nr_slug row = slug" "nr_subnet row = Some subnet"
      "nr_port row = Some port" "\<forall>x \<in> set (sv_networks s). \<not> network_clash row x"
    and b: "nc_id b = new_id e 0" "nc_slug b = slug" "nc_subnet b = subnet" "nc_port b = port"
  moreover have "subnets_ok (sv_networks s @ [row])" by (rule AllocateSubnet_Inr [OF subnet assms row(4)])
  moreover have "new_id e 0 \<notin> m_network_id ` set (sv_members s) \<Longrightarrow> new_id e 0 @ ''-owner'' \<notin> m_id ` set (sv_members s)
      \<Longrightarrow> fails e ''Members.Add'' = None
      \<Longrightarrow> has_role (p_id user) (new_id e 0) ''admin'' (snd (NetworkMemberStore_Add (fails e ''Members.Add'') (clock e 5)
            (new_id e 0 @ ''-owner'') (new_id e 0) (p_id user) ''admin'' (sv_members s)))"
    by (auto simp: NetworkMemberStore_Add_def InsertNetworkMember_def exec_def insert_row_def member_clash_def has_role_def)
  ultimately show ?thesis
    using uniqueSlug_safe [OF slug] by (auto simp: network_clash_def owns_def image_iff)
qed auto

theorem CreateNetwork_outcome_witness:
  "(case CreateNetwork sample_platform sample_request sample_user (Some (''My Home!'', [])) empty_server of
      (Reject code msg, s') \<Rightarrow> False
    | (Reply code b, s') \<Rightarrow> nc_slug b = ''my-home'' \<and> nc_subnet b = ''10.42.1.0/24'' \<and> nc_port b = 42001
        \<and> subnets_ok (sv_networks s') \<and> owns ''u1'' (nc_id b) (sv_networks s'))"
proof -
  have "(case CreateNetwork sample_platform sample_request sample_user (Some (''My Home!'', [])) empty_server of
      (Reject code msg, s') \<Rightarrow> False
    | (Reply code b, s') \<Rightarrow> nc_slug b = ''my-home'' \<and> nc_subnet b = ''10.42.1.0/24'' \<and> nc_port b = 42001)"
    by code_simp
  moreover have "subnets_ok (sv_networks empty_server)" by (simp add: subnets_ok_def empty_server_def)
  moreover have "p_id sample_user = ''u1''" by (simp add: sample_user_def)
  ultimately show ?thesis
    using CreateNetwork_outcome [where s = empty_server and P = sample_platform and e = sample_request and user = sample_user
        and body = "Some (''My Home!'', [])"]
    by (auto split: prod.splits http.splits)
qed

text \<open>
  Property C23. Deleting a network. Only its owner can; anybody else changes nothing. A deletion that
  is answered with 204 has removed the network row and nothing else from the table of networks, has
  stopped the port forwards and then the lighthouse, has dropped every cached access decision of the
  network, and has removed the nodes of the network when that statement did not fail.
\<close>

theorem DeleteNetwork_complete:
  "case DeleteNetwork_handler P e user networkID s of
     (Reject code msg, s') \<Rightarrow> sv_networks s' = sv_networks s
        \<and> (\<not> owns (p_id user) networkID (sv_networks s) \<longrightarrow> code = 404 \<and> s' = s)
   | (Reply code b, s') \<Rightarrow>
        code = 204 \<and> owns (p_id user) networkID (sv_networks s)
      \<and> sv_networks s' = filter (\<lambda>r. nr_id r \<noteq> networkID) (sv_networks s)
      \<and> sv_trace s' = sv_trace s @ [StopAllForNetwork networkID, StopNetwork networkID]
      \<and> (\<forall>key entry. (key, entry) \<in> set (sv_cache s') \<longrightarrow> \<not> HasPrefix key (networkID @ '':''))
      \<and> (fails e ''Nodes.DeleteForNetwork'' = None \<longrightarrow> networkID \<notin> d_network_id ` set (sv_nodes s'))"
proof -
  have "DeleteNetwork_handler P e user networkID s = (Reject 404 ''network not found'', s)
     \<or> owns (p_id user) networkID (sv_networks s)"
    using owner_only_cases [OF refl] unfolding DeleteNetwork_handler_def by blast
  then show ?thesis
    using owner_only_cases [OF DeleteNetwork_handler_def [symmetric], of P e user networkID s]
    by (auto simp: Let_def NetworkStore_Delete_def DeleteNetwork_def exec_def delete_where_def DeleteForNetwork_def
        DeleteNodesForNetwork_def InvalidateProxyCache_def split: option.splits)
qed

theorem DeleteNetwork_complete_witness:
  "(let s = empty_server\<lparr>sv_networks := sample_networks\<rparr> in
    case DeleteNetwork_handler sample_platform sample_request sample_user ''n1'' s of
      (Reject code msg, s') \<Rightarrow> False
    | (Reply code b, s') \<Rightarrow> sv_networks s' = [] \<and> sv_trace s' = [StopAllForNetwork ''n1'', StopNetwork ''n1'']
        \<and> ''n1'' \<notin> d_network_id ` set (sv_nodes s'))"
proof -
  let ?s = "empty_server\<lparr>sv_networks := sample_networks\<rparr>"
  let ?r = "DeleteNetwork_handler sample_platform sample_request sample_user ''n1'' ?s"
  have f: "case ?r of (Reject code msg, s') \<Rightarrow> False | (Reply code b, s') \<Rightarrow> True" by code_simp
  have n: "filter (\<lambda>r. nr_id r \<noteq> ''n1'') (sv_networks ?s) = []" "sv_trace ?s = []" by code_simp+
  have "fails sample_request ''Nodes.DeleteForNetwork'' = None" by (simp add: sample_request_def)
  then show ?thesis
    using f n DeleteNetwork_complete [where P = sample_platform and e = sample_request and user = sample_user
        and networkID = "''n1''" and s = ?s]
    by (auto split: prod.splits http.splits)
qed

end
