(* ===== verification/AccountApi.thy ===== *)
theory AccountApi
  imports Server
begin

text \<open>
  Registration, login and logout (src/internal/api/auth.go). The password hash is \<open>bcrypt\<close> of
  \<open>x/crypto\<close>: the record \<open>bcrypt\<close>, an argument of the handlers, with the law \<open>bcrypt_ok\<close> that a hash
  accepts its own password. A handler that sets the session cookie returns it beside its body.
\<close>

record bcrypt =
  GenerateFromPassword :: "string \<Rightarrow> string res"
  CompareHashAndPassword :: "string \<Rightarrow> string \<Rightarrow> go_error option"

definition bcrypt_ok :: "bcrypt \<Rightarrow> bool" where
  "bcrypt_ok B \<longleftrightarrow> (\<forall>p h. GenerateFromPassword B p = Inr h \<longrightarrow> CompareHashAndPassword B h p = None)"

definition sessionTTL :: int where
  "sessionTTL = 30 * 24 * 60 * 60"

text \<open>\<open>strings.LastIndex(s, c)\<close> for one byte.\<close>

fun LastIndex :: "string \<Rightarrow> char \<Rightarrow> int" where
  "LastIndex [] c = - 1"
| "LastIndex (x # s) c = (if c \<in> set s then 1 + LastIndex s c else if x = c then 0 else - 1)"

definition isValidEmail :: "string \<Rightarrow> bool" where
  "isValidEmail email =
     (if length email > 254 then False
      else let at_sign = LastIndex email CHR ''@'' in
        if at_sign < 1 \<or> at_sign \<ge> int (length email) - 1 then False
        else let domain = drop (nat at_sign + 1) email in Contains domain ''.'')"

definition generateSessionToken :: "string \<Rightarrow> string" where
  "generateSessionToken b = EncodeToString b"

record cookie =
  ck_name :: string
  ck_value :: string
  ck_path :: string
  ck_max_age :: int
  ck_http_only :: bool
  ck_secure :: bool
  ck_same_site_lax :: bool

text \<open>The connection of a request: whether it came over TLS, and its \<open>X-Forwarded-Proto\<close> header.\<close>

record transport =
  tls :: bool
  forwarded_proto :: string

definition setSessionCookie :: "bool \<Rightarrow> transport \<Rightarrow> string \<Rightarrow> cookie" where
  "setSessionCookie trusted r token =
     (let secure = (tls r \<or> (trusted \<and> forwarded_proto r = ''https'')) in
      \<lparr>ck_name = ''session'', ck_value = token, ck_path = ''/'', ck_max_age = sessionTTL, ck_http_only = True,
       ck_secure = secure, ck_same_site_lax = True\<rparr>)"

record auth_response =
  ar_id :: string
  ar_email :: string
  ar_name :: string
  ar_token :: string

definition Register ::
  "platform \<Rightarrow> bcrypt \<Rightarrow> request \<Rightarrow> transport \<Rightarrow> (string \<times> string \<times> string) option \<Rightarrow> server
     \<Rightarrow> (auth_response \<times> cookie) http \<times> server" where
  "Register P B e r body s =
     (case body of
        None \<Rightarrow> (Reject 400 ''invalid request'', s)
      | Some (email, name, password) \<Rightarrow>
          if email = [] \<or> password = [] then (Reject 400 ''email and password are required'', s)
          else if \<not> isValidEmail email then (Reject 400 ''invalid email address'', s)
          else if length password < 8 \<or> length password > 72 then (Reject 400 ''password must be 8-72 characters'', s)
          else if (case GetByEmail (fails e ''Users.GetByEmail'') email (sv_users s) of Inr (Some u) \<Rightarrow> True | _ \<Rightarrow> False)
          then (Reject 409 ''email already registered'', s)
          else case GenerateFromPassword B password of
            Inl err \<Rightarrow> (Reject 500 ''internal error'', s)
          | Inr hash \<Rightarrow>
              (let user = \<lparr>u_id = new_id e 0, u_email = email, u_name = name, u_password_hash = hash, u_github_id = None,
                           u_created_at = 0\<rparr>
               in case UserStore_Create (fails e ''Users.Create'') (clock e 0) user (sv_users s) of
                    (Some err, t) \<Rightarrow> (Reject 500 ''failed to create user'', s\<lparr>sv_users := t\<rparr>)
                  | (None, t) \<Rightarrow>
                      let s = s\<lparr>sv_users := t\<rparr>; token = generateSessionToken (new_token e 0) in
                      (case SessionStore_Create (sha256 P) (fails e ''Sessions.Create'') (clock e 1) token (u_id user) sessionTTL
                              (sv_sessions s) of
                         (Some err, t) \<Rightarrow> (Reject 500 ''internal error'', s\<lparr>sv_sessions := t\<rparr>)
                       | (None, t) \<Rightarrow>
                           (Reply 200 (\<lparr>ar_id = u_id user, ar_email = u_email user, ar_name = u_name user, ar_token = token\<rparr>,
                                       setSessionCookie (trusted_proxy P) r token),
                            s\<lparr>sv_sessions := t,
                              sv_audit := AuditStore_Log (new_id e 1) (u_id user) ''register'' None None None (sv_audit s)\<rparr>))))"

definition Login ::
  "platform \<Rightarrow> bcrypt \<Rightarrow> request \<Rightarrow> transport \<Rightarrow> (string \<times> string) option \<Rightarrow> server
     \<Rightarrow> (auth_response \<times> cookie) http \<times> server" where
  "Login P B e r body s =
     (case body of
        None \<Rightarrow> (Reject 400 ''invalid request'', s)
      | Some (email, password) \<Rightarrow>
          (case GetByEmail (fails e ''Users.GetByEmail'') email (sv_users s) of
             Inl err \<Rightarrow> (Reject 401 ''invalid credentials'', s)
           | Inr None \<Rightarrow> (Reject 401 ''invalid credentials'', s)
           | Inr (Some user) \<Rightarrow>
               if CompareHashAndPassword B (u_password_hash user) password \<noteq> None
               then (Reject 401 ''invalid credentials'', s)
               else let token = generateSessionToken (new_token e 0) in
                 (case SessionStore_Create (sha256 P) (fails e ''Sessions.Create'') (clock e 0) token (u_id user) sessionTTL
                         (sv_sessions s) of
                    (Some err, t) \<Rightarrow> (Reject 500 ''internal error'', s\<lparr>sv_sessions := t\<rparr>)
                  | (None, t) \<Rightarrow>
                      (Reply 200 (\<lparr>ar_id = u_id user, ar_email = u_email user, ar_name = u_name user, ar_token = token\<rparr>,
                                  setSessionCookie (trusted_proxy P) r token),
                       s\<lparr>sv_sessions := t,
                         sv_audit := AuditStore_Log (new_id e 0) (u_id user) ''login'' None None None (sv_audit s)\<rparr>))))"

text \<open>The answer of \<open>Logout\<close> clears the cookie unless there was no user.\<close>

definition Logout ::
  "platform \<Rightarrow> request \<Rightarrow> UserProfile option \<Rightarrow> credentials \<Rightarrow> server \<Rightarrow> cookie option http \<times> server" where
  "Logout P e user c s =
     (case user of
        None \<Rightarrow> (Reply 200 None, s)
      | Some u \<Rightarrow>
          let s = (case session_cookie c of
                     Some v \<Rightarrow> s\<lparr>sv_sessions := snd (SessionStore_Delete (sha256 P) (fails e ''Sessions.Delete'') v (sv_sessions s))\<rparr>
                   | None \<Rightarrow>
                       if HasPrefix (authorization c) ''Bearer ''
                       then s\<lparr>sv_sessions := snd (SessionStore_Delete (sha256 P) (fails e ''Sessions.Delete'')
                                (TrimPrefix (authorization c) ''Bearer '') (sv_sessions s))\<rparr>
                       else s)
          in (Reply 200 (Some \<lparr>ck_name = ''session'', ck_value = [], ck_path = ''/'', ck_max_age = - 1, ck_http_only = False,
                                ck_secure = False, ck_same_site_lax = False\<rparr>), s))"

definition Me :: "UserProfile option \<Rightarrow> UserProfile http" where
  "Me user = (case user of None \<Rightarrow> Reject 401 ''unauthorized'' | Some u \<Rightarrow> Reply 200 u)"

definition Status :: "request \<Rightarrow> server \<Rightarrow> bool http" where
  "Status e s = Reply 200 (fst (UserStore_Count (fails e ''Users.Count'') (sv_users s)) > 0)"

text \<open>The router puts \<open>RequireAuth\<close> before every handler that acts for a user.\<close>

definition authenticated :: "platform \<Rightarrow> request \<Rightarrow> credentials \<Rightarrow> server \<Rightarrow> UserProfile option" where
  "authenticated P e c s =
     RequireAuth (sha256 P) (attempts e ''GetUserID'') (attempts e ''GetProfileByID'') (clock e 0) (sv_sessions s) (sv_users s) c"

section \<open>From registration to logout\<close>

lemma LastIndex_bounds: "LastIndex s c \<ge> - 1 \<and> LastIndex s c < int (length s)"
  by (induction s c rule: LastIndex.induct) auto

lemma LastIndex_nth: "c \<in> set s \<Longrightarrow> 0 \<le> LastIndex s c \<and> s ! nat (LastIndex s c) = c"
proof (induction s c rule: LastIndex.induct)
  case (2 x s c)
  then show ?case by (cases "c \<in> set s") (auto simp: nat_add_distrib)
qed simp

lemma SessionStore_Create_None:
  "SessionStore_Create sha f now token uid ttl t = (None, t') \<longleftrightarrow>
     f = None \<and> hashSessionToken sha token \<notin> s_token ` set t
   \<and> t' = t @ [\<lparr>s_token = hashSessionToken sha token, s_user_id = uid, s_created_at = now, s_expires_at = now + ttl\<rparr>]"
  by (auto simp: SessionStore_Create_def CreateSession_def exec_def insert_row_def session_clash_def split: option.splits)

lemma UserStore_Create_None:
  "UserStore_Create f now u t = (None, t') \<longleftrightarrow>
     f = None \<and> (\<forall>x \<in> set t. \<not> user_clash (u\<lparr>u_created_at := now\<rparr>) x) \<and> t' = t @ [u\<lparr>u_created_at := now\<rparr>]"
  by (cases u) (auto simp: UserStore_Create_def CreateUser_def exec_def insert_row_def split: option.splits)

lemma Register_ok:
  assumes "Register P B e r (Some (email, name, password)) s = (Reply code (b, ck), s')"
  shows "\<exists>hash. GenerateFromPassword B password = Inr hash
     \<and> (\<forall>x \<in> set (sv_users s). u_id x \<noteq> ar_id b \<and> u_email x \<noteq> email)
     \<and> sv_users s' = sv_users s @ [\<lparr>u_id = ar_id b, u_email = email, u_name = name, u_password_hash = hash,
          u_github_id = None, u_created_at = clock e 0\<rparr>]
     \<and> hashSessionToken (sha256 P) (ar_token b) \<notin> s_token ` set (sv_sessions s)
     \<and> sv_sessions s' = sv_sessions s @ [\<lparr>s_token = hashSessionToken (sha256 P) (ar_token b), s_user_id = ar_id b,
          s_created_at = clock e 1, s_expires_at = clock e 1 + sessionTTL\<rparr>]
     \<and> ar_token b = generateSessionToken (new_token e 0) \<and> ar_email b = email \<and> ar_name b = name \<and> ar_id b = new_id e 0
     \<and> code = 200 \<and> ck_value ck = ar_token b"
  using assms
  by (auto simp: Register_def Let_def SessionStore_Create_None UserStore_Create_None user_clash_def setSessionCookie_def
      split: if_splits sum.splits option.splits prod.splits)

lemma GetProfileByID_first:
  assumes "f 0 = None" "find (\<lambda>x. u_id x = uid) users = Some u"
  shows "GetProfileByID f uid users = Inr (Some \<lparr>p_id = u_id u, p_email = u_email u, p_name = u_name u\<rparr>)"
  using assms by (simp add: GetProfileByID_def numeral_eq_Suc GetUserProfileByID_def query_one_def select_one_def)

lemma authenticated_by:
  assumes "attempts e ''GetUserID'' 0 = None" "attempts e ''GetProfileByID'' 0 = None" "extractToken c \<noteq> []"
    and "find (\<lambda>x. s_token x = hashSessionToken (sha256 P) (extractToken c) \<and> s_expires_at x > clock e 0) (sv_sessions s) = Some x"
    and "s_user_id x \<noteq> []" "find (\<lambda>u. u_id u = s_user_id x) (sv_users s) = Some u"
  shows "authenticated P e c s = Some \<lparr>p_id = u_id u, p_email = u_email u, p_name = u_name u\<rparr>"
  using assms by (simp add: authenticated_def RequireAuth_def GetUserID_no_fault GetProfileByID_first)

lemma not_authenticated:
  assumes "hashSessionToken (sha256 P) (extractToken c) \<notin> s_token ` set (sv_sessions s)"
  shows "authenticated P e c s = None"
proof (cases "GetUserID (sha256 P) (attempts e ''GetUserID'') (clock e 0) (extractToken c) (sv_sessions s)")
  case (Pair uid err)
  have "err \<noteq> None \<or> uid = []"
    using GetUserID_sound [of "sha256 P" "attempts e ''GetUserID''" "clock e 0" "extractToken c" "sv_sessions s" uid] assms Pair
    by (metis image_eqI)
  then show ?thesis using Pair by (auto simp: authenticated_def RequireAuth_def Let_def)
qed

lemma Login_ok:
  assumes "fails e ''Users.GetByEmail'' = None" "fails e ''Sessions.Create'' = None"
    and "find (\<lambda>u. u_email u = email) (sv_users s) = Some u"
    and "CompareHashAndPassword B (u_password_hash u) password = None"
    and "hashSessionToken (sha256 P) (generateSessionToken (new_token e 0)) \<notin> s_token ` set (sv_sessions s)"
  shows "\<exists>ck s'. Login P B e r (Some (email, password)) s =
     (Reply 200 (\<lparr>ar_id = u_id u, ar_email = u_email u, ar_name = u_name u,
                  ar_token = generateSessionToken (new_token e 0)\<rparr>, ck), s')"
proof -
  let ?h = "hashSessionToken (sha256 P) (generateSessionToken (new_token e 0))"
  have "SessionStore_Create (sha256 P) None (clock e 0) (generateSessionToken (new_token e 0)) (u_id u) sessionTTL (sv_sessions s)
      = (None, sv_sessions s @ [\<lparr>s_token = ?h, s_user_id = u_id u, s_created_at = clock e 0, s_expires_at = clock e 0 + sessionTTL\<rparr>])"
    using assms(5) by (simp add: SessionStore_Create_None)
  then show ?thesis
    using assms by (simp add: Login_def GetByEmail_def GetUserByEmail_def query_one_def select_one_def or_nil_def Let_def)
qed

lemma find_snoc_fresh: "(\<forall>x \<in> set xs. \<not> P x) \<Longrightarrow> find P (xs @ [y]) = (if P y then Some y else None)"
  by (induction xs) auto


definition plain_bcrypt :: bcrypt where
  "plain_bcrypt = \<lparr>GenerateFromPassword = Inr, CompareHashAndPassword = (\<lambda>h p. if h = p then None else Some (ErrMsg ''mismatch''))\<rparr>"


end
