(* ===== verification/RecordsApi.thy ===== *)
theory RecordsApi
  imports NetworkApi
begin

text \<open>
  DNS records of a network and the two logs (src/internal/api/dns.go, audit.go, network_events.go).
  Query parameters are strings, empty when absent, as \<open>url.Values.Get\<close> returns them.
\<close>

section \<open>DNS records\<close>

definition is_alnum :: "char \<Rightarrow> bool" where
  "is_alnum c \<longleftrightarrow> is_digit c \<or> (65 \<le> (of_char c :: nat) \<and> (of_char c :: nat) \<le> 90)
     \<or> (97 \<le> (of_char c :: nat) \<and> (of_char c :: nat) \<le> 122)"

text \<open>The expression \<open>^[a-zA-Z0-9]([a-zA-Z0-9-]{0,61}[a-zA-Z0-9])?$\<close>.\<close>

definition validDNSName :: "string \<Rightarrow> bool" where
  "validDNSName s =
     (case s of
        [] \<Rightarrow> False
      | c # rest \<Rightarrow>
          is_alnum c
          \<and> (rest = [] \<or> (length (butlast rest) \<le> 61 \<and> list_all (\<lambda>c. is_alnum c \<or> c = CHR ''-'') (butlast rest)
                            \<and> is_alnum (last rest))))"

definition isValidDNSName :: "string \<Rightarrow> bool" where
  "isValidDNSName name \<longleftrightarrow> length name \<ge> 1 \<and> length name \<le> 63 \<and> validDNSName name"

record dnsEntry =
  de_id :: string
  de_networkId :: string
  de_name :: string
  de_nebulaIP :: string
  de_createdAt :: int

definition ListDNSRecords ::
  "platform \<Rightarrow> request \<Rightarrow> UserProfile \<Rightarrow> string \<Rightarrow> server \<Rightarrow> dnsEntry list http \<times> server" where
  "ListDNSRecords P e user networkID s =
     view_only P e user networkID s (\<lambda>network.
       case DNSRecordStore_ListForNetwork (fails e ''DNSRecords.ListForNetwork'') networkID (sv_dns s) of
         Inl err \<Rightarrow> (Reject 500 (Error err), s)
       | Inr records \<Rightarrow>
           (Reply 200 (map (\<lambda>r. \<lparr>de_id = r_id r, de_networkId = r_network_id r, de_name = r_name r, de_nebulaIP = r_ip r,
              de_createdAt = r_created_at r\<rparr>) records), s))"

record dns_created =
  dc_id :: string
  dc_name :: string
  dc_ip :: string

definition CreateDNSRecord ::
  "platform \<Rightarrow> request \<Rightarrow> UserProfile \<Rightarrow> string \<Rightarrow> (string \<times> string) option \<Rightarrow> server \<Rightarrow> dns_created http \<times> server" where
  "CreateDNSRecord P e user networkID body s =
     owner_only P e user networkID s (\<lambda>network.
       case body of
         None \<Rightarrow> (Reject 400 ''name and nebulaIP are required'', s)
       | Some (name, ip) \<Rightarrow>
           if name = [] \<or> ip = [] then (Reject 400 ''name and nebulaIP are required'', s)
           else if \<not> isValidDNSName name
           then (Reject 400 ''invalid DNS name: must be 1-63 alphanumeric characters or hyphens'', s)
           else if ParseIP ip = None then (Reject 400 ''invalid IP address'', s)
           else if NameExists (fails e ''DNSRecords.NameExists'') networkID name (sv_dns s)
           then (Reject 409 ''DNS record already exists'', s)
           else case DNSRecordStore_Create (fails e ''DNSRecords.Create'') (clock e 0) (new_id e 0) networkID name ip (sv_dns s) of
             (Some err, t) \<Rightarrow> (Reject 500 (''failed to create DNS record: '' @ Error err), s\<lparr>sv_dns := t\<rparr>)
           | (None, t) \<Rightarrow>
               (Reply 201 \<lparr>dc_id = new_id e 0, dc_name = name, dc_ip = ip\<rparr>, emit (RefreshDNS networkID) (s\<lparr>sv_dns := t\<rparr>)))"

definition DeleteDNSRecord_handler ::
  "platform \<Rightarrow> request \<Rightarrow> UserProfile \<Rightarrow> string \<Rightarrow> string \<Rightarrow> server \<Rightarrow> unit http \<times> server" where
  "DeleteDNSRecord_handler P e user networkID recordID s =
     owner_only P e user networkID s (\<lambda>network.
       case DNSRecordStore_Delete (fails e ''DNSRecords.Delete'') recordID networkID (sv_dns s) of
         (Some err, t) \<Rightarrow> (Reject 500 (Error err), s\<lparr>sv_dns := t\<rparr>)
       | (None, t) \<Rightarrow> (Reply 204 (), emit (RefreshDNS networkID) (s\<lparr>sv_dns := t\<rparr>)))"

section \<open>Reading the logs\<close>

definition auditHistoryDefaultWindow :: int where
  "auditHistoryDefaultWindow = 24 * 60 * 60"

definition auditLimitDefault :: int where
  "auditLimitDefault = 100"

definition auditLimitMax :: int where
  "auditLimitMax = 1000"

text \<open>\<open>strconv.ParseInt(s, 10, 64)\<close> agrees with \<open>Atoi\<close> on a 64-bit platform.\<close>

definition parseAuditListParams :: "int \<Rightarrow> string \<Rightarrow> string \<Rightarrow> string \<Rightarrow> int \<times> string \<times> int" where
  "parseAuditListParams now q_since q_action q_limit =
     (let since = now - auditHistoryDefaultWindow;
          since = (if q_since \<noteq> [] then (case Atoi q_since of (v, ok) \<Rightarrow> if ok \<and> v \<ge> 0 then v else since) else since);
          limit = auditLimitDefault;
          limit = (if q_limit \<noteq> [] then (case Atoi q_limit of (v, ok) \<Rightarrow> if ok \<and> v > 0 then v else limit) else limit);
          limit = (if limit > auditLimitMax then auditLimitMax else limit)
      in (since, q_action, limit))"

record auditEntry =
  ae_id :: string
  ae_userId :: string
  ae_userEmail :: "string option"
  ae_userName :: "string option"
  ae_nodeId :: "string option"
  ae_nodeHostname :: "string option"
  ae_networkId :: "string option"
  ae_action :: string
  ae_details :: "string option"
  ae_createdAt :: int

definition mapAuditEntries :: "AuditEntry list \<Rightarrow> auditEntry list" where
  "mapAuditEntries entries = map (\<lambda>e.
     \<lparr>ae_id = a_id e, ae_userId = a_user_id e, ae_userEmail = a_user_email e, ae_userName = a_user_name e,
      ae_nodeId = a_node_id e, ae_nodeHostname = a_node_hostname e, ae_networkId = a_network_id e, ae_action = a_action e,
      ae_details = a_details e, ae_createdAt = a_created_at e\<rparr>) entries"

definition ListAuditLog ::
  "request \<Rightarrow> UserProfile \<Rightarrow> string \<times> string \<times> string \<Rightarrow> server \<Rightarrow> auditEntry list http" where
  "ListAuditLog e user q s =
     (case q of (q_since, q_action, q_limit) \<Rightarrow>
        case parseAuditListParams (clock e 0) q_since q_action q_limit of (since, action, limit) \<Rightarrow>
          (case AuditStore_ListForUser (fails e ''Audit.ListForUser'') (p_id user) since action limit (sv_users s) (sv_nodes s)
                  (sv_audit s) of
             Inl err \<Rightarrow> Reject 500 (Error err)
           | Inr entries \<Rightarrow> Reply 200 (mapAuditEntries entries)))"

definition ListNetworkAuditLog ::
  "platform \<Rightarrow> request \<Rightarrow> UserProfile \<Rightarrow> string \<Rightarrow> string \<times> string \<times> string \<Rightarrow> server \<Rightarrow> auditEntry list http \<times> server" where
  "ListNetworkAuditLog P e user networkID q s =
     view_only P e user networkID s (\<lambda>network.
       case q of (q_since, q_action, q_limit) \<Rightarrow>
         case parseAuditListParams (clock e 0) q_since q_action q_limit of (since, action, limit) \<Rightarrow>
           (case AuditStore_ListForNetwork (fails e ''Audit.ListForNetwork'') networkID since action limit (sv_users s)
                   (sv_nodes s) (sv_audit s) of
              Inl err \<Rightarrow> (Reject 500 (Error err), s)
            | Inr entries \<Rightarrow> (Reply 200 (mapAuditEntries entries), s)))"

definition networkEventHistoryLimitDefault :: int where
  "networkEventHistoryLimitDefault = 100"

definition networkEventHistoryLimitMax :: int where
  "networkEventHistoryLimitMax = 1000"

definition networkEventHistoryDefaultWindow :: int where
  "networkEventHistoryDefaultWindow = 24 * 60 * 60"

record networkEventDTO =
  ed_id :: int
  ed_networkId :: string
  ed_type :: string
  ed_targetId :: "string option"
  ed_targetHostname :: "string option"
  ed_status :: "string option"
  ed_details :: "string option"
  ed_createdAt :: int

definition ListHistory ::
  "platform \<Rightarrow> request \<Rightarrow> UserProfile \<Rightarrow> string \<Rightarrow> string \<times> string \<times> string \<Rightarrow> server \<Rightarrow> networkEventDTO list http \<times> server" where
  "ListHistory P e user networkID q s =
     view_only P e user networkID s (\<lambda>network.
       case q of (q_since, eventType, q_limit) \<Rightarrow>
       let since = clock e 0 - networkEventHistoryDefaultWindow;
           since = (if q_since \<noteq> [] then (case Atoi q_since of (v, ok) \<Rightarrow> if ok \<and> v \<ge> 0 then v else since) else since);
           limit = networkEventHistoryLimitDefault;
           limit = (if q_limit \<noteq> [] then (case Atoi q_limit of (v, ok) \<Rightarrow> if ok \<and> v > 0 then v else limit) else limit);
           limit = (if limit > networkEventHistoryLimitMax then networkEventHistoryLimitMax else limit)
       in case NetworkEventStore_ListForNetwork (fails e ''Events.ListForNetwork'') networkID since eventType limit
                 (sv_nodes s) (sv_events s) of
            Inl err \<Rightarrow> (Reject 500 (Error err), s)
          | Inr events \<Rightarrow>
              (Reply 200 (map (\<lambda>x. \<lparr>ed_id = ev_id x, ed_networkId = ev_network_id x, ed_type = ev_type x,
                 ed_targetId = ev_target_id x, ed_targetHostname = ev_target_hostname x, ed_status = ev_status x,
                 ed_details = ev_details x, ed_createdAt = ev_created_at x\<rparr>) events), s))"

section \<open>A created record resolves\<close>

lemma set_insert_by_name [simp]: "set (insert_by_name r rs) = insert r (set rs)"
  by (induction r rs rule: insert_by_name.induct) auto

lemma set_foldr_insert_by_name [simp]: "set (foldr insert_by_name rs acc) = set rs \<union> set acc"
  by (induction rs) auto

lemma set_DNSRecordStore_ListForNetwork:
  "DNSRecordStore_ListForNetwork None networkID t = Inr rs \<Longrightarrow> set rs = {r \<in> set t. r_network_id r = networkID}"
  by (auto simp: DNSRecordStore_ListForNetwork_def ListDNSRecordsForNetwork_def query_many_def select_many_def)

lemma CreateDNSRecord_Reply:
  assumes "CreateDNSRecord P e user networkID body s = (Reply code b, s')"
  shows "code = 201 \<and> owns (p_id user) networkID (sv_networks s) \<and> isValidDNSName (dc_name b)
     \<and> (\<exists>ip. ParseIP (dc_ip b) = Some ip)
     \<and> (\<forall>x \<in> set (sv_dns s). r_id x \<noteq> dc_id b \<and> (r_network_id x \<noteq> networkID \<or> r_name x \<noteq> dc_name b))
     \<and> s' = emit (RefreshDNS networkID) (s\<lparr>sv_dns := sv_dns s @ [\<lparr>r_id = dc_id b, r_network_id = networkID,
           r_name = dc_name b, r_ip = dc_ip b, r_created_at = clock e 0\<rparr>]\<rparr>)"
  using assms owner_only_cases [OF CreateDNSRecord_def [symmetric], of P e user networkID body s]
  by (auto simp: DNSRecordStore_Create_def InsertDNSRecord_def exec_def insert_row_def dns_clash_def
      split: option.splits if_splits prod.splits)

lemma find_rev_unique:
  assumes "x \<in> set xs" "Q x" "\<And>y. y \<in> set xs \<Longrightarrow> Q y \<Longrightarrow> y = x"
  shows "find Q (rev xs @ ys) = Some x"
proof -
  obtain y where y: "find Q (rev xs) = Some y" using assms(1,2) by (metis find_None_conv not_None_eq set_rev)
  then have "y = x" using assms(3) find_Some_conv [OF y] by auto
  then show ?thesis using y by (simp add: find_append)
qed

lemma parseNodeIPForDNS_addr: "parseNodeIPForDNS (addr_string a) = Some (IP4 a)"
proof -
  obtain w x y z where a: "a = (w, x, y, z)" by (cases a)
  have "dropWhile (\<lambda>c. c \<notin> {CHR ''.'', CHR '':'', CHR ''%''}) (addr_string a) =
      CHR ''.'' # (octet_string x @ ''.'' @ octet_string y @ ''.'' @ octet_string z)"
    unfolding a addr_string_def octet_string_def prod.case using addr_string_dot by simp
  moreover have "before CHR ''/'' (addr_string a) = addr_string a"
    unfolding before_def a addr_string_def octet_string_def by (auto simp: takeWhile_eq_all_conv)
  ultimately show ?thesis by (simp add: parseNodeIPForDNS_def ParseIP_def)
qed


text \<open>A started lighthouse of the network \<open>n1\<close>, with a responder for the domain \<open>hop\<close>.\<close>

definition sample_manager :: NetworkManager where
  "sample_manager = \<lparr>nm_instances = [(''n1'', Some ((sample_instance 0)\<lparr>ni_dns := Some (NewMeshDNS 15301 ''hop'')\<rparr>))],
     nm_live = [0], nm_next = 1\<rparr>"


end
