(* ===== verification/HtmlRewrite.thy ===== *)
theory HtmlRewrite
  imports GoText
begin

text \<open>
  The rewriting of proxied pages (src/internal/api/proxy.go, from \<open>NodeProxy\<close>'s \<open>ModifyResponse\<close> to
  \<open>rewriteCSSURLs\<close>). A page of a node is served below a path prefix of the control plane, so absolute
  paths in attributes, \<open>srcset\<close> lists and style sheets receive that prefix. The loops are written with
  their accumulator \<open>result\<close>, as \<open>partial_function (option)\<close>: a loop that makes no progress has the value
  \<open>None\<close>, and that the page rewriting always returns is a theorem. Letter case is that of ASCII
  (theory \<open>GoText\<close>).
\<close>

section \<open>Searching\<close>

text \<open>\<open>bytes.Index(s, sub)\<close>; \<open>None\<close> is -1.\<close>

fun Index :: "string \<Rightarrow> string \<Rightarrow> nat option" where
  "Index [] sub = (if sub = [] then Some 0 else None)"
| "Index (c # s) sub = (if HasPrefix (c # s) sub then Some 0 else map_option Suc (Index s sub))"

text \<open>\<open>TrimLeft\<close> with the cut set of the caller.\<close>

definition is_blank :: "char \<Rightarrow> bool" where
  "is_blank c \<longleftrightarrow> of_char c \<in> {32, 9, 10, 13 :: nat}"

text \<open>The guard of every rewrite: an absolute path that is neither protocol-relative nor already proxied.\<close>

definition unproxied :: "string \<Rightarrow> string \<Rightarrow> bool" where
  "unproxied prefix v \<longleftrightarrow> v \<noteq> [] \<and> hd v = CHR ''/'' \<and> \<not> HasPrefix v ''//'' \<and> \<not> HasPrefix v prefix"

section \<open>The loops\<close>

partial_function (option) attr_loop :: "string \<Rightarrow> string \<Rightarrow> string \<Rightarrow> string \<Rightarrow> string option" where
  "attr_loop attr prefix result remaining =
     (case Index remaining attr of
        None \<Rightarrow> Some (result @ remaining)
      | Some idx \<Rightarrow>
          let attrEnd = idx + length attr;
              result = result @ take attrEnd remaining;
              remaining = drop attrEnd remaining
          in attr_loop attr prefix (if unproxied prefix remaining then result @ prefix else result) remaining)"

definition rewriteAttrPaths :: "string \<Rightarrow> string \<Rightarrow> string \<Rightarrow> string option" where
  "rewriteAttrPaths html attr prefix = attr_loop attr prefix [] html"

definition srcset_entry :: "string \<Rightarrow> string \<Rightarrow> string" where
  "srcset_entry prefix entry =
     (let trimmed = dropWhile is_blank entry;
          leading = take (length entry - length trimmed) entry
      in leading @ (if unproxied prefix trimmed then prefix else []) @ trimmed)"

fun join_comma :: "string list \<Rightarrow> string" where
  "join_comma [] = []"
| "join_comma [x] = x"
| "join_comma (x # y # ys) = x @ '','' @ join_comma (y # ys)"

partial_function (option) srcset_loop :: "string \<Rightarrow> string \<Rightarrow> string \<Rightarrow> string \<Rightarrow> string option" where
  "srcset_loop attr prefix result remaining =
     (case Index remaining attr of
        None \<Rightarrow> Some (result @ remaining)
      | Some idx \<Rightarrow>
          let quote = last attr;
              attrEnd = idx + length attr;
              result = result @ take attrEnd remaining;
              remaining = drop attrEnd remaining
          in case Index remaining [quote] of
               None \<Rightarrow> Some (result @ remaining)
             | Some closeIdx \<Rightarrow>
                 let entries = Split CHR '','' (take closeIdx remaining) in
                 srcset_loop attr prefix (result @ join_comma (map (srcset_entry prefix) entries)) (drop closeIdx remaining))"

definition rewriteSrcsetPaths :: "string \<Rightarrow> string \<Rightarrow> string \<Rightarrow> string option" where
  "rewriteSrcsetPaths html attr prefix = srcset_loop attr prefix [] html"

partial_function (option) css_loop :: "string \<Rightarrow> string \<Rightarrow> string \<Rightarrow> string option" where
  "css_loop prefix result remaining =
     (case Index remaining ''url('' of
        None \<Rightarrow> Some (result @ remaining)
      | Some idx \<Rightarrow>
          let urlStart = idx + 4;
              result = result @ take urlStart remaining;
              remaining = drop urlStart remaining;
              ws = length (takeWhile (\<lambda>c. of_char c \<in> {32, 9 :: nat}) remaining);
              result = result @ take ws remaining;
              remaining = drop ws remaining;
              q = (remaining \<noteq> [] \<and> of_char (hd remaining) \<in> {39, 34 :: nat});
              result = (if q then result @ [hd remaining] else result);
              remaining = (if q then tl remaining else remaining)
          in css_loop prefix (if unproxied prefix remaining then result @ prefix else result) remaining)"

definition rewriteCSSURLs :: "string \<Rightarrow> string \<Rightarrow> string option" where
  "rewriteCSSURLs css prefix = css_loop prefix [] css"

partial_function (option) style_loop :: "string \<Rightarrow> string \<Rightarrow> string \<Rightarrow> string option" where
  "style_loop prefix result remaining =
     (let lowerRemaining = ToLower remaining in
      case Index lowerRemaining ''<style'' of
        None \<Rightarrow> Some (result @ remaining)
      | Some styleOpen \<Rightarrow>
          (case Index (drop styleOpen lowerRemaining) ''>'' of
             None \<Rightarrow> Some (result @ remaining)
           | Some tagClose \<Rightarrow>
               let contentStart = styleOpen + tagClose + 1 in
               (case Index (drop contentStart lowerRemaining) ''</style'' of
                  None \<Rightarrow> Some (result @ remaining)
                | Some styleClose \<Rightarrow>
                    let styleEnd = contentStart + styleClose in
                    (case rewriteCSSURLs (take styleClose (drop contentStart remaining)) prefix of
                       None \<Rightarrow> None
                     | Some rewritten \<Rightarrow>
                         style_loop prefix (result @ take contentStart remaining @ rewritten) (drop styleEnd remaining)))))"

definition rewriteStyleURLs :: "string \<Rightarrow> string \<Rightarrow> string option" where
  "rewriteStyleURLs html prefix = style_loop prefix [] html"

section \<open>The page\<close>

text \<open>The quotes of an attribute: the double one (0x22) and the single one (0x27).\<close>

definition attributes :: "string list \<Rightarrow> string list" where
  "attributes names = concat (map (\<lambda>n. [n @ ''='' @ [CHR 0x22], n @ ''='' @ [CHR 0x27]]) names)"

fun for_each :: "(string \<Rightarrow> string \<Rightarrow> string option) \<Rightarrow> string list \<Rightarrow> string \<Rightarrow> string option" where
  "for_each f [] html = Some html"
| "for_each f (a # as) html = (case f html a of None \<Rightarrow> None | Some html \<Rightarrow> for_each f as html)"

definition rewriteHTMLPaths :: "string \<Rightarrow> string \<Rightarrow> string option" where
  "rewriteHTMLPaths html proxyPrefix =
     (case for_each (\<lambda>h a. rewriteAttrPaths h a proxyPrefix) (attributes [''src'', ''href'', ''action'']) html of
        None \<Rightarrow> None
      | Some html \<Rightarrow>
          (case for_each (\<lambda>h a. rewriteSrcsetPaths h a proxyPrefix) (attributes [''srcset'']) html of
             None \<Rightarrow> None
           | Some html \<Rightarrow> rewriteStyleURLs html proxyPrefix))"

definition proxyBootstrapSnippet :: "string \<Rightarrow> string" where
  "proxyBootstrapSnippet proxyPrefix =
     ''<script src='' @ [CHR 0x22] @ ''/sw-bootstrap.js?base='' @ proxyPrefix @ [CHR 0x22] @ ''></script>''"

definition injectIntoHead :: "string \<Rightarrow> string \<Rightarrow> string" where
  "injectIntoHead html snippet =
     (let lower = ToLower html in
      case Index lower ''<head>'' of
        Some idx \<Rightarrow> (let insertAt = idx + 6 in take insertAt html @ snippet @ drop insertAt html)
      | None \<Rightarrow>
          (case Index lower ''<head'' of
             None \<Rightarrow> snippet @ html
           | Some idx \<Rightarrow>
               (case Index (drop idx lower) ''>'' of
                  None \<Rightarrow> snippet @ html
                | Some closeIdx \<Rightarrow> (let insertAt = idx + closeIdx + 1 in take insertAt html @ snippet @ drop insertAt html))))"

text \<open>The rewriting of the \<open>Location\<close> header; \<open>port\<close> is the port of the service on the node.\<close>

definition rewrite_location :: "string \<Rightarrow> nat \<Rightarrow> string \<Rightarrow> string" where
  "rewrite_location proxyPrefix port location =
     (if HasPrefix location ''/'' then proxyPrefix @ location
      else case find (HasPrefix location) [''http://127.0.0.1:'' @ itoa port, ''http://localhost:'' @ itoa port] of
        None \<Rightarrow> location
      | Some lhPrefix \<Rightarrow>
          (let path = TrimPrefix location lhPrefix; path = (if path = [] then ''/'' else path) in proxyPrefix @ path))"

text \<open>
  A response of the agent, with the headers that are looked at (\<open>None\<close> when absent). \<open>gunzip\<close> are
  \<open>gzip.NewReader\<close> (the outer error) and \<open>io.ReadAll\<close> (the inner one); a body that cannot be read is an
  error too. The result is the error of \<open>ModifyResponse\<close> and the response to be sent.
\<close>

record response =
  rs_location :: "string option"
  rs_frame_options :: "string option"
  rs_csp :: "string option"
  rs_csp_report :: "string option"
  rs_content_type :: string
  rs_encoding :: "string option"
  rs_length :: "string option"
  rs_body :: "string res"

definition serve_page :: "string \<Rightarrow> response \<Rightarrow> string \<Rightarrow> (go_error option \<times> response) option" where
  "serve_page proxyPrefix resp body =
     (case rewriteHTMLPaths body proxyPrefix of
        None \<Rightarrow> None
      | Some body \<Rightarrow>
          let modified = injectIntoHead body (proxyBootstrapSnippet proxyPrefix) in
          Some (None, resp\<lparr>rs_encoding := None, rs_body := Inr modified, rs_length := Some (itoa (length modified))\<rparr>))"

definition ModifyResponse ::
  "(string \<Rightarrow> (string res) res) \<Rightarrow> string \<Rightarrow> nat \<Rightarrow> response \<Rightarrow> (go_error option \<times> response) option" where
  "ModifyResponse gunzip proxyPrefix port resp =
     (let resp = (case rs_location resp of
                    None \<Rightarrow> resp
                  | Some location \<Rightarrow>
                      if location = [] then resp else resp\<lparr>rs_location := Some (rewrite_location proxyPrefix port location)\<rparr>);
          resp = resp\<lparr>rs_frame_options := None, rs_csp := None, rs_csp_report := None\<rparr>
      in if \<not> Contains (rs_content_type resp) ''text/html'' then Some (None, resp)
         else if rs_encoding resp = Some ''gzip''
         then (case rs_body resp of
                 Inl err \<Rightarrow> Some (None, resp)
               | Inr raw \<Rightarrow>
                   (case gunzip raw of
                      Inl err \<Rightarrow> Some (None, resp)
                    | Inr (Inl err) \<Rightarrow> Some (Some err, resp)
                    | Inr (Inr body) \<Rightarrow> serve_page proxyPrefix resp body))
         else (case rs_body resp of
                 Inl err \<Rightarrow> Some (Some err, resp)
               | Inr body \<Rightarrow> serve_page proxyPrefix resp body))"

section \<open>Every rewriting returns\<close>

lemma Index_Some:
  "Index s sub = Some i \<Longrightarrow> i + length sub \<le> length s \<and> take (length sub) (drop i s) = sub"
proof (induction s sub arbitrary: i rule: Index.induct)
  case (2 c s sub)
  show ?case
  proof (cases "HasPrefix (c # s) sub")
    case True
    then have "length (take (length sub) (c # s)) = length sub" by (simp only: HasPrefix_def)
    then show ?thesis using True 2 by (auto simp: HasPrefix_def)
  next
    case False
    then show ?thesis using 2 by auto
  qed
qed (auto split: if_splits)

lemma Index_split:
  assumes "Index s sub = Some i"
  shows "s = take i s @ sub @ drop (i + length sub) s"
  using Index_Some [OF assms] by (metis add.commute append_take_drop_id drop_drop)

lemma attr_loop_returns: "attr \<noteq> [] \<Longrightarrow> \<exists>y. attr_loop attr prefix result remaining = Some y"
proof (induction "length remaining" arbitrary: result remaining rule: less_induct)
  case less
  show ?case
  proof (cases "Index remaining attr")
    case (Some idx)
    then have "length (drop (idx + length attr) remaining) < length remaining"
      using Index_Some [OF Some] less.prems by (cases attr) auto
    then show ?thesis using less.hyps less.prems Some by (subst attr_loop.simps) (simp add: Let_def)
  qed (subst attr_loop.simps, simp)
qed

lemma srcset_loop_returns: "attr \<noteq> [] \<Longrightarrow> \<exists>y. srcset_loop attr prefix result remaining = Some y"
proof (induction "length remaining" arbitrary: result remaining rule: less_induct)
  case less
  show ?case
  proof (cases "Index remaining attr")
    case (Some idx)
    then have "length (drop (k + (idx + length attr)) remaining) < length remaining" for k
      using Index_Some [OF Some] less.prems by (cases attr) auto
    then show ?thesis
      using less.hyps less.prems Some
      by (subst srcset_loop.simps) (simp add: Let_def split: option.split)
  qed (subst srcset_loop.simps, simp)
qed

lemma css_loop_returns: "\<exists>y. css_loop prefix result remaining = Some y"
proof (induction "length remaining" arbitrary: result remaining rule: less_induct)
  case less
  show ?case
  proof (cases "Index remaining ''url(''")
    case (Some idx)
    have "length (drop k (drop (idx + 4) remaining)) < length remaining" for k
      using Index_Some [OF Some] by (cases remaining) auto
    moreover from this have "length (tl (drop k (drop (idx + 4) remaining))) < length remaining" for k
      by (metis diff_le_self length_tl order_le_less_trans)
    ultimately show ?thesis using less Some by (subst css_loop.simps) (simp add: Let_def del: drop_drop)
  qed (subst css_loop.simps, simp)
qed

lemma style_loop_returns: "\<exists>y. style_loop prefix result remaining = Some y"
proof (induction "length remaining" arbitrary: result remaining rule: less_induct)
  case less
  have css: "\<exists>y. rewriteCSSURLs c prefix = Some y" for c by (simp add: rewriteCSSURLs_def css_loop_returns)
  show ?case
  proof (cases "Index (ToLower remaining) ''<style''")
    case (Some i)
    then have "remaining \<noteq> []" by (auto simp: ToLower_def)
    then have "length (drop (i + j + 1 + k) remaining) < length remaining" for j k by simp
    then have IH: "\<exists>y. style_loop prefix r (drop (i + j + 1 + k) remaining) = Some y" for r j k by (rule less)
    show ?thesis
    proof (cases "Index (drop i (ToLower remaining)) ''>''")
      case tag: (Some j)
      show ?thesis
      proof (cases "Index (drop (i + j + 1) (ToLower remaining)) ''</style''")
        case close: (Some k)
        obtain c where "rewriteCSSURLs (take k (drop (i + j + 1) remaining)) prefix = Some c" using css by blast
        then show ?thesis using IH Some tag close by (subst style_loop.simps) (simp add: Let_def)
      qed (use Some tag in \<open>subst style_loop.simps, simp add: Let_def\<close>)
    qed (use Some in \<open>subst style_loop.simps, simp add: Let_def\<close>)
  qed (subst style_loop.simps, simp add: Let_def)
qed

lemma for_each_returns:
  "(\<And>h a. a \<in> set as \<Longrightarrow> \<exists>y. f h a = Some y) \<Longrightarrow> \<exists>y. for_each f as html = Some y"
proof (induction as arbitrary: html)
  case (Cons a as)
  obtain y where "f html a = Some y" using Cons.prems by force
  then show ?case using Cons by simp
qed simp


section \<open>What the rewriting of attributes achieves\<close>

text \<open>No occurrence of the attribute in \<open>s\<close> is followed by a path that still has to be proxied.\<close>

definition proxied :: "string \<Rightarrow> string \<Rightarrow> string \<Rightarrow> bool" where
  "proxied attr prefix s \<longleftrightarrow> (\<forall>u v. s = u @ attr @ v \<longrightarrow> \<not> unproxied prefix v)"

text \<open>
  An attribute marker ends with its only quote and has no slash; the prefix has no quote.
\<close>

definition marker :: "string \<Rightarrow> string \<Rightarrow> bool" where
  "marker attr prefix \<longleftrightarrow>
     (\<exists>a q. attr = a @ [q] \<and> a \<noteq> [] \<and> q \<notin> set a \<and> q \<notin> set prefix \<and> CHR ''/'' \<notin> set attr)"

lemma Index_minimal: "Index s sub = Some i \<Longrightarrow> s = u @ sub @ v \<Longrightarrow> i \<le> length u"
proof (induction s sub arbitrary: i u rule: Index.induct)
  case (2 c s sub)
  show ?case
  proof (cases "HasPrefix (c # s) sub")
    case False
    then obtain j where j: "Index s sub = Some j" "i = Suc j" using 2(2) by auto
    moreover obtain u' where "u = c # u'" using False 2(3) by (cases u) (auto simp: HasPrefix_def)
    ultimately show ?thesis using 2(1) [OF False j(1), of u'] 2(3) by simp
  qed (use 2(2) in simp)
qed simp

lemma Index_None: "Index s sub = None \<Longrightarrow> s \<noteq> u @ sub @ v"
proof (induction s sub arbitrary: u rule: Index.induct)
  case (2 c s sub)
  then show ?case by (cases u) (auto simp: HasPrefix_def split: if_splits)
qed (auto split: if_splits)

lemma attr_loop_acc:
  "attr \<noteq> [] \<Longrightarrow> attr_loop attr prefix result remaining = map_option ((@) result) (attr_loop attr prefix [] remaining)"
proof (induction "length remaining" arbitrary: result remaining rule: less_induct)
  case less
  show ?case
  proof (cases "Index remaining attr")
    case (Some idx)
    let ?r = "drop (idx + length attr) remaining"
    have "length ?r < length remaining" using Index_Some [OF Some] less.prems by (cases attr) auto
    note IH = less.hyps [OF this less.prems]
    show ?thesis
      using Some IH [of "result @ take (idx + length attr) remaining @ prefix"] IH [of "result @ take (idx + length attr) remaining"]
        IH [of "take (idx + length attr) remaining @ prefix"] IH [of "take (idx + length attr) remaining"]
      by (subst (1 2) attr_loop.simps) (auto simp: Let_def option.map_comp comp_def intro!: option.map_cong)
  qed (subst (1 2) attr_loop.simps, simp)
qed

text \<open>One round of the loop, for a non-empty marker.\<close>

lemma attr_loop_step:
  assumes "attr \<noteq> []" "attr_loop attr prefix [] s = Some y"
  shows "(Index s attr = None \<and> y = s)
     \<or> (\<exists>i y'. Index s attr = Some i \<and> attr_loop attr prefix [] (drop (i + length attr) s) = Some y'
          \<and> y = take i s @ attr @ (if unproxied prefix (drop (i + length attr) s) then prefix else []) @ y'
          \<and> length (drop (i + length attr) s) < length s)"
proof (cases "Index s attr")
  case (Some i)
  let ?r = "drop (i + length attr) s"
  have len: "length ?r < length s" using Index_Some [OF Some] assms(1) by (cases attr) auto
  have "take (i + length attr) s = take i s @ attr" using Index_Some [OF Some] by (simp add: take_add)
  then show ?thesis
    using assms(2) Some len attr_loop_acc [OF assms(1), of prefix "take i s @ attr @ prefix" ?r]
      attr_loop_acc [OF assms(1), of prefix "take i s @ attr" ?r]
    by (subst (asm) attr_loop.simps) (auto simp: Let_def split: if_splits)
qed (use assms(2) in \<open>subst (asm) attr_loop.simps, simp\<close>)

lemma occurrence_cases:
  assumes m: "marker attr prefix" and eq: "u @ attr @ v = pre @ attr @ ins @ y"
    and ins: "ins = [] \<or> (ins = prefix \<and> y \<noteq> [] \<and> hd y = CHR ''/'')"
  shows "(\<exists>w. pre @ attr = u @ attr @ w \<and> w \<noteq> []) \<or> v = ins @ y \<or> (\<exists>u'. y = u' @ attr @ v)"
proof -
  obtain a q where q: "attr = a @ [q]" "q \<notin> set a" "q \<notin> set prefix" "CHR ''/'' \<notin> set attr"
    using m by (auto simp: marker_def)
  consider w where "pre @ attr = u @ attr @ w" "v = w @ ins @ y" | w where "u @ attr = pre @ attr @ w" "w @ v = ins @ y" "w \<noteq> []"
    using eq by (fastforce simp: append_eq_append_conv2 [of "u @ attr" v "pre @ attr" "ins @ y", simplified])
  then show ?thesis
  proof cases
    case 1
    then show ?thesis by (cases "w = []") auto
  next
    case 2
    then have "u @ a @ [q] = pre @ a @ [q] @ w" using q(1) by simp
    then consider u' where "u = pre @ a @ [q] @ u'" "w = u' @ attr"
      | b where "b \<noteq> []" "pre @ a @ [q] = u @ b" "a @ [q] = b @ w"
      using q(1) by (fastforce simp: append_eq_append_conv2 [of u "a @ [q]" "pre @ a @ [q]" w, simplified])
    then show ?thesis
    proof cases
      case (1 u')
      then have B: "u' @ attr @ v = ins @ y" using 2(2) by simp
      show ?thesis
      proof (cases "ins = []")
        case False
        then have i: "ins = prefix" "y \<noteq> []" "hd y = CHR ''/''" using ins by auto
        consider z where "y = z @ attr @ v" | z where "z \<noteq> []" "prefix = u' @ z" "attr @ v = z @ y"
          using B i(1) by (fastforce simp: append_eq_append_conv2 [of u' "attr @ v" prefix y, simplified])
        then show ?thesis
        proof cases
          case (2 z)
          then consider c where "attr = z @ c" "c @ v = y" | c where "z = attr @ c"
            by (fastforce simp: append_eq_append_conv2)
          then show ?thesis
          proof cases
            case (1 c)
            then have "c = [] \<or> hd y \<in> set attr" by (cases c) auto
            then show ?thesis using 1 2 q i(3) by auto
          qed (use 2 q in auto)
        qed auto
      qed (use B in auto)
    next
      case (2 b)
      then have "last b = q" by (metis last_append append_is_Nil_conv last_snoc append.assoc not_Cons_self)
      moreover have "b = a @ [q] \<or> set b \<subseteq> set a" using 2(3) \<open>w \<noteq> []\<close>
        by (metis append_butlast_last_id butlast_append butlast_snoc le_sup_iff order_refl set_append)
      ultimately show ?thesis using 2 q(2) \<open>w \<noteq> []\<close> by (metis append_self_conv last_in_set subsetD)
    qed
  qed
qed

text \<open>The rewritten rest starts like the rest: rewriting cannot make a path unproxied.\<close>

lemma attr_loop_start:
  assumes m: "marker attr prefix" and y: "attr_loop attr prefix [] s = Some y"
  shows "s = [] \<Longrightarrow> y = []" "s \<noteq> [] \<Longrightarrow> y \<noteq> [] \<and> hd y = hd s" "\<not> unproxied prefix s \<Longrightarrow> \<not> unproxied prefix y"
proof -
  obtain a q where q: "attr = a @ [q]" "a \<noteq> []" "q \<notin> set prefix" using m by (auto simp: marker_def)
  from attr_loop_step [OF _ y] q(1)
  consider "y = s" | i z where "y = (take i s @ attr) @ z" "Index s attr = Some i" by fastforce
  note C = this
  show "s = [] \<Longrightarrow> y = []" using C q(1) by cases auto
  show st: "s \<noteq> [] \<Longrightarrow> y \<noteq> [] \<and> hd y = hd s"
  proof (use C in cases)
    case (2 i z)
    then show ?thesis using Index_split [OF 2(2)] q(1)
      by (metis append_is_Nil_conv append.assoc hd_append2 not_Cons_self2)
  qed auto
  show "\<not> unproxied prefix y" if no: "\<not> unproxied prefix s"
  proof (use C in cases)
    case (2 i z)
    define k where "k = i + length attr"
    have s: "s = (take i s @ attr) @ drop k s" using Index_split [OF 2(2)] by (simp add: k_def)
    have len: "length (take i s @ attr) = k" "2 \<le> k" using Index_Some [OF 2(2)] q(1,2) by (cases a; auto simp: k_def)+
    have keep: "HasPrefix y p" if "HasPrefix s p" "length p \<le> k" for p
    proof -
      have "take (length p) s = take (length p) (take i s @ attr)" using that(2) len(1) by (subst s) simp
      moreover have "take (length p) y = take (length p) (take i s @ attr)" using that(2) len(1) 2(1) by simp
      ultimately show ?thesis using that(1) by (simp add: HasPrefix_def)
    qed
    have "HasPrefix y prefix" if "HasPrefix s prefix"
    proof (cases "length prefix \<le> k")
      case False
      have "take k (take (length prefix) s) = take k prefix" using that by (simp add: HasPrefix_def)
      then have "take k s = take k prefix" using False by (simp add: min_def)
      moreover have "take k s = take i s @ attr" using Index_Some [OF 2(2)] by (simp add: k_def take_add)
      ultimately have "take k prefix = take i s @ a @ [q]" using q(1) by simp
      then have "q \<in> set (take k prefix)" by simp
      then have "q \<in> set prefix" by (rule in_set_takeD)
      then show ?thesis using q(3) by simp
    qed (use keep that in auto)
    moreover have "HasPrefix y ''//''" if "HasPrefix s ''//''" using keep [OF that] len(2) by simp
    moreover have "y \<noteq> [] \<Longrightarrow> hd y = hd s \<and> s \<noteq> []" using 2 Index_Some [OF 2(2)] q(1) st by (cases s) auto
    ultimately show ?thesis using no by (auto simp: unproxied_def)
  qed (use no in auto)
qed

lemma attr_loop_proxied:
  "marker attr prefix \<Longrightarrow> attr_loop attr prefix [] s = Some y \<Longrightarrow> proxied attr prefix y"
proof (induction "length s" arbitrary: s y rule: less_induct)
  case less
  have attr: "attr \<noteq> []" using less.prems(1) by (auto simp: marker_def)
  from attr_loop_step [OF attr less.prems(2)] show ?case
  proof (elim disjE exE conjE)
    assume "Index s attr = None" "y = s"
    then show ?thesis using Index_None by (auto simp: proxied_def)
  next
    fix i y' assume i: "Index s attr = Some i" and y': "attr_loop attr prefix [] (drop (i + length attr) s) = Some y'"
      and y: "y = take i s @ attr @ (if unproxied prefix (drop (i + length attr) s) then prefix else []) @ y'"
      and len: "length (drop (i + length attr) s) < length s"
    let ?r = "drop (i + length attr) s" and ?ins = "if unproxied prefix (drop (i + length attr) s) then prefix else []"
    have IH: "proxied attr prefix y'" by (rule less.hyps [OF len less.prems(1) y'])
    have first: "False" if "take i s @ attr = u @ attr @ w" "w \<noteq> []" for u w
    proof -
      have "s = u @ attr @ (w @ ?r)" using that(1) Index_split [OF i] by (metis append.assoc)
      then have "i \<le> length u" by (rule Index_minimal [OF i])
      moreover have "length (take i s @ attr) = i + length attr" using Index_Some [OF i] by simp
      moreover have "length (take i s @ attr) = length u + length attr + length w" using arg_cong [OF that(1), of length] by simp
      ultimately show False using that(2) by simp
    qed
    have ins: "?ins = [] \<or> (?ins = prefix \<and> y' \<noteq> [] \<and> hd y' = CHR ''/'')"
      using attr_loop_start(2) [OF less.prems(1) y'] by (auto simp: unproxied_def)
    have here: "\<not> unproxied prefix (?ins @ y')"
      using attr_loop_start(3) [OF less.prems(1) y'] by (auto simp: unproxied_def)
    show ?thesis
      unfolding proxied_def
    proof (intro allI impI)
      fix u v assume "y = u @ attr @ v"
      then have "u @ attr @ v = take i s @ attr @ ?ins @ y'" using y by simp
      from occurrence_cases [OF less.prems(1) this ins] show "\<not> unproxied prefix v"
        using first here IH by (auto simp: proxied_def)
    qed
  qed
qed

lemma proxied_fixed:
  "attr \<noteq> [] \<Longrightarrow> proxied attr prefix s \<Longrightarrow> attr_loop attr prefix [] s = Some y \<Longrightarrow> y = s"
proof (induction "length s" arbitrary: s y rule: less_induct)
  case less
  from attr_loop_step [OF less.prems(1,3)] show ?case
  proof (elim disjE exE conjE)
    fix i y' assume i: "Index s attr = Some i" and y': "attr_loop attr prefix [] (drop (i + length attr) s) = Some y'"
      and y: "y = take i s @ attr @ (if unproxied prefix (drop (i + length attr) s) then prefix else []) @ y'"
      and len: "length (drop (i + length attr) s) < length s"
    note s = Index_split [OF i]
    have "proxied attr prefix (drop (i + length attr) s)"
      using less.prems(2) s unfolding proxied_def by (metis append.assoc)
    from less.hyps [OF len less.prems(1) this y'] have "y' = drop (i + length attr) s" .
    moreover have "\<not> unproxied prefix (drop (i + length attr) s)" using less.prems(2) s unfolding proxied_def by blast
    ultimately show ?thesis using y s by simp
  qed
qed

text \<open>The page with the prefix inserted at some cuts, and nothing else changed.\<close>

definition cuts :: "string \<Rightarrow> (string \<times> bool) list \<Rightarrow> string" where
  "cuts prefix ps = concat (map (\<lambda>(x, b). x @ (if b then prefix else [])) ps)"

lemma attr_loop_cuts:
  "attr \<noteq> [] \<Longrightarrow> attr_loop attr prefix [] s = Some y \<Longrightarrow> \<exists>ps. s = concat (map fst ps) \<and> y = cuts prefix ps"
proof (induction "length s" arbitrary: s y rule: less_induct)
  case less
  from attr_loop_step [OF less.prems] show ?case
  proof (elim disjE exE conjE)
    assume "y = s"
    then show ?thesis by (intro exI [of _ "[(s, False)]"]) (simp add: cuts_def)
  next
    fix i y' assume i: "Index s attr = Some i" and y': "attr_loop attr prefix [] (drop (i + length attr) s) = Some y'"
      and y: "y = take i s @ attr @ (if unproxied prefix (drop (i + length attr) s) then prefix else []) @ y'"
      and len: "length (drop (i + length attr) s) < length s"
    obtain ps where "drop (i + length attr) s = concat (map fst ps)" "y' = cuts prefix ps"
      using less.hyps [OF len less.prems(1) y'] by blast
    then show ?thesis using y Index_split [OF i]
      by (intro exI [of _ "(take i s @ attr, unproxied prefix (drop (i + length attr) s)) # ps"]) (auto simp: cuts_def)
  qed
qed

text \<open>
  Property C27. The rewriting of one attribute is complete, minimal and stable. For a marker such as
  \<open>src=\<close> with its quote, and a prefix without that quote: the rewritten page exists; after every
  occurrence of the attribute stands no absolute path that is still outside the prefix; the page is the
  original with copies of the prefix inserted and nothing else changed; rewriting it again changes
  nothing.
\<close>

theorem rewriteAttrPaths_correct:
  assumes "marker attr prefix"
  shows "\<exists>page. rewriteAttrPaths html attr prefix = Some page \<and> proxied attr prefix page
     \<and> (\<exists>ps. html = concat (map fst ps) \<and> page = cuts prefix ps) \<and> rewriteAttrPaths page attr prefix = Some page"
proof -
  have attr: "attr \<noteq> []" using assms by (auto simp: marker_def)
  obtain page where p: "attr_loop attr prefix [] html = Some page" using attr_loop_returns [OF attr] by blast
  then have "proxied attr prefix page" by (rule attr_loop_proxied [OF assms])
  moreover obtain page' where "attr_loop attr prefix [] page = Some page'" using attr_loop_returns [OF attr] by blast
  ultimately show ?thesis
    using p proxied_fixed [OF attr] attr_loop_cuts [OF attr p] by (auto simp: rewriteAttrPaths_def)
qed

lemma markers:
  assumes "attr \<in> set (attributes [''src'', ''href'', ''action''])"
    and "CHR 0x22 \<notin> set prefix" "CHR 0x27 \<notin> set prefix"
  shows "marker attr prefix"
  using assms by (auto simp: attributes_def marker_def)

theorem rewriteAttrPaths_correct_witness:
  "\<exists>page. rewriteAttrPaths (''<img src='' @ [CHR 0x22] @ ''/a.png'') (''src='' @ [CHR 0x22]) ''/p/80'' = Some page
     \<and> proxied (''src='' @ [CHR 0x22]) ''/p/80'' page"
proof -
  have "marker (''src='' @ [CHR 0x22]) ''/p/80''"
    by (rule markers) (simp_all add: attributes_def)
  then show ?thesis using rewriteAttrPaths_correct by blast
qed

end
