(* ===== verification/NetAddr.thy ===== *)
theory NetAddr
  imports NetIP
begin

text \<open>
  Package \<open>net/netip\<close> of the Go library as far as the control plane uses it beyond IPv4: addresses of
  both families with a zone, address-port pairs and prefixes, with their parsers, printers and
  classification (Go 1.25, where the classification looks through IPv4-mapped addresses). The results of
  parsing are \<open>None\<close> for an error, whose text is not looked at.
\<close>

datatype addr = A4 ipv4 | A6 string string

section \<open>Addresses\<close>

definition netip_ParseAddr :: "string \<Rightarrow> addr option" where
  "netip_ParseAddr s =
     (case dropWhile (\<lambda>c. c \<notin> {CHR ''.'', CHR '':'', CHR ''%''}) s of
        [] \<Rightarrow> None
      | c # r \<Rightarrow>
          if c = CHR ''.'' then map_option A4 (ParseAddr s)
          else if c = CHR '':'' then
            let host = before CHR ''%'' s; zone = drop (length host + 1) s in
            if CHR ''%'' \<in> set s \<and> zone = [] then None
            else map_option (\<lambda>b. A6 b zone) (parseIPv6 host)
          else None)"

text \<open>The four bytes of an IPv4-mapped address.\<close>

fun Unmap :: "addr \<Rightarrow> ipv4 option" where
  "Unmap (A4 a) = Some a"
| "Unmap (A6 b z) = To4 (from16 b)"

fun netip_String :: "addr \<Rightarrow> string" where
  "netip_String (A4 a) = addr_string a"
| "netip_String (A6 b z) =
     (case To4 (from16 b) of Some a \<Rightarrow> ''::ffff:'' @ addr_string a | None \<Rightarrow> ip_string (IP6 b))
     @ (if z = [] then [] else ''%'' @ z)"

definition IsLoopback :: "addr \<Rightarrow> bool" where
  "IsLoopback ip =
     (case Unmap ip of
        Some (a, b, c, d) \<Rightarrow> a = 127
      | None \<Rightarrow> (case ip of A6 b z \<Rightarrow> b = replicate 15 (CHR 0x00) @ [CHR 0x01] | A4 a \<Rightarrow> False))"

definition first_group :: "addr \<Rightarrow> nat" where
  "first_group ip = (case ip of A6 (x # y # s) z \<Rightarrow> 256 * of_char x + of_char y | _ \<Rightarrow> 0)"

definition IsLinkLocalUnicast :: "addr \<Rightarrow> bool" where
  "IsLinkLocalUnicast ip =
     (case Unmap ip of
        Some (a, b, c, d) \<Rightarrow> a = 169 \<and> b = 254
      | None \<Rightarrow> first_group ip div 64 = 1018)"

definition IsMulticast :: "addr \<Rightarrow> bool" where
  "IsMulticast ip =
     (case Unmap ip of
        Some (a, b, c, d) \<Rightarrow> unat a div 16 = 14
      | None \<Rightarrow> first_group ip div 256 = 255)"

section \<open>Address and port\<close>

type_synonym addr_port = "addr \<times> nat"

definition AddrPort_String :: "addr_port \<Rightarrow> string" where
  "AddrPort_String ap =
     (case ap of
        (A4 a, port) \<Rightarrow> addr_string a @ '':'' @ itoa port
      | (ip, port) \<Rightarrow> ''['' @ netip_String ip @ '']:'' @ itoa port)"

text \<open>\<open>strconv.ParseUint(s, 10, 16)\<close>.\<close>

definition parse_port :: "string \<Rightarrow> nat option" where
  "parse_port s = (if s \<noteq> [] \<and> list_all is_digit s \<and> dec_val s < 65536 then Some (dec_val s) else None)"

lemma parse_port_code [code]:
  "parse_port s = (if s \<noteq> [] \<and> list_all is_digit s \<and> dec_val s div 256 < 256 then Some (dec_val s) else None)"
  by (simp add: parse_port_def div_less_iff_less_mult)

definition ParseAddrPort :: "string \<Rightarrow> addr_port option" where
  "ParseAddrPort s =
     (if CHR '':'' \<notin> set s then None
      else
        let port = rev (takeWhile (\<lambda>c. c \<noteq> CHR '':'') (rev s));
            ip = take (length s - length port - 1) s;
            v6 = (ip \<noteq> [] \<and> hd ip = CHR ''['');
            host = (if v6 then butlast (tl ip) else ip)
        in if ip = [] \<or> port = [] then None
           else if v6 \<and> (length ip < 2 \<or> List.last ip \<noteq> CHR '']'') then None
           else case parse_port port of
             None \<Rightarrow> None
           | Some p \<Rightarrow>
               (case netip_ParseAddr host of
                  None \<Rightarrow> None
                | Some (A4 a) \<Rightarrow> if v6 then None else Some (A4 a, p)
                | Some (A6 b z) \<Rightarrow> if v6 then Some (A6 b z, p) else None))"

section \<open>Prefixes\<close>

type_synonym addr_prefix = "addr \<times> nat"

definition netip_ParsePrefix :: "string \<Rightarrow> addr_prefix option" where
  "netip_ParsePrefix s =
     (if CHR ''/'' \<notin> set s then None
      else
        let bits = rev (takeWhile (\<lambda>c. c \<noteq> CHR ''/'') (rev s));
            ip = take (length s - length bits - 1) s
        in case netip_ParseAddr ip of
             None \<Rightarrow> None
           | Some a \<Rightarrow>
               if (case a of A6 b z \<Rightarrow> z \<noteq> [] | A4 q \<Rightarrow> False) then None
               else if 1 < length bits \<and> \<not> (is_digit (hd bits) \<and> hd bits \<noteq> CHR ''0'') then None
               else case Atoi bits of (n, ok) \<Rightarrow>
                 if \<not> ok \<or> n < 0 \<or> n > (case a of A4 q \<Rightarrow> 32 | A6 b z \<Rightarrow> 128) then None
                 else Some (a, nat n))"

text \<open>The first \<open>bits\<close> bits of a list of bytes, the others cleared.\<close>

fun mask_bytes :: "nat \<Rightarrow> nat list \<Rightarrow> nat list" where
  "mask_bytes bits [] = []"
| "mask_bytes bits (b # bs) =
     (if 8 \<le> bits then b # mask_bytes (bits - 8) bs
      else (b div 2 ^ (8 - bits) * 2 ^ (8 - bits)) # map (\<lambda>_. 0) bs)"

definition quad_nats :: "ipv4 \<Rightarrow> nat list" where
  "quad_nats a = (case a of (p, q, r, s) \<Rightarrow> [unat p, unat q, unat r, unat s])"

fun nats_quad :: "nat list \<Rightarrow> ipv4" where
  "nats_quad [p, q, r, s] = (of_nat p, of_nat q, of_nat r, of_nat s)"
| "nats_quad ns = (0, 0, 0, 0)"

definition Masked :: "addr_prefix \<Rightarrow> addr_prefix" where
  "Masked p =
     (case p of
        (A4 a, bits) \<Rightarrow> (A4 (nats_quad (mask_bytes bits (quad_nats a))), bits)
      | (A6 b z, bits) \<Rightarrow> (A6 (map char_of (mask_bytes bits (map of_char b))) [], bits))"

definition Prefix_String :: "addr_prefix \<Rightarrow> string" where
  "Prefix_String p = netip_String (fst p) @ ''/'' @ itoa (snd p)"

section \<open>Facts\<close>

lemma mask_bytes_length [simp]: "length (mask_bytes bits bs) = length bs"
  by (induction bits bs rule: mask_bytes.induct) auto

lemma mask_bytes_zeros: "mask_bytes bits (map (\<lambda>_. 0) bs) = map (\<lambda>_. 0) bs"
  by (induction bs arbitrary: bits) auto

lemma mask_bytes_idem [simp]: "mask_bytes bits (mask_bytes bits bs) = mask_bytes bits bs"
  by (induction bits bs rule: mask_bytes.induct) (auto simp: mask_bytes_zeros)

lemma mask_bytes_bound: "\<forall>b \<in> set bs. b < 256 \<Longrightarrow> \<forall>b \<in> set (mask_bytes bits bs). b < 256"
proof (induction bits bs rule: mask_bytes.induct)
  case (2 bits b bs)
  have "b div 2 ^ (8 - bits) * 2 ^ (8 - bits) \<le> b" by (rule div_times_less_eq_dividend)
  moreover have "b < 256" using 2(2) by simp
  ultimately have "b div 2 ^ (8 - bits) * 2 ^ (8 - bits) < 256" by (rule le_less_trans)
  then show ?case using 2 by auto
qed simp

end
