(* ===== verification/ProxyApi.thy ===== *)
theory ProxyApi
  imports NetworkApi Forwards HtmlRewrite NetAddr
begin

text \<open>
  The handlers that act on one node (src/internal/api/proxy.go): health checks, shell, commands, port
  forwards, the web proxy, and the administration of nodes. What happens on the wire is the record
  \<open>agent_io\<close>: whether the lighthouse of the network can be used, the answer of the agent, and the outcome
  of a WebSocket upgrade. Relaying bytes between two open connections is not modelled.
\<close>

section \<open>Shared parts\<close>

record agent_io =
  io_instance :: "go_error option"
  io_answer :: "string res"
  io_upgrade :: "(nat \<times> string) option"
  io_dial :: "go_error option"
  io_flusher :: bool

definition audit :: "request \<Rightarrow> nat \<Rightarrow> string \<Rightarrow> string \<Rightarrow> string option \<Rightarrow> string option \<Rightarrow> string option \<Rightarrow> server \<Rightarrow> server" where
  "audit e k userID action networkID nodeID det s =
     s\<lparr>sv_audit := AuditStore_Log (new_id e k) userID action networkID nodeID det (sv_audit s)\<rparr>"

definition record_proxy :: "request \<Rightarrow> string \<Rightarrow> server \<Rightarrow> server" where
  "record_proxy e nodeID s = s\<lparr>sv_node_store := RecordProxyActivity (nanos e 9) nodeID (sv_node_store s)\<rparr>"

definition agentNodeIP :: "Node \<Rightarrow> string" where
  "agentNodeIP node =
     (case ParseCIDR (nd_ip node) of
        Some ip \<Rightarrow> ip_string ip
      | None \<Rightarrow> (case ParseIP (nd_ip node) of Some ip \<Rightarrow> ip_string ip | None \<Rightarrow> nd_ip node))"

definition checkOrigin :: "string list \<Rightarrow> string \<Rightarrow> string \<Rightarrow> bool" where
  "checkOrigin allowedOrigins origin host =
     (if origin = [] then True
      else if origin \<in> set allowedOrigins then True
      else origin = ''http://'' @ host \<or> origin = ''https://'' @ host)"

definition isWSUpgrade :: "string \<Rightarrow> string \<Rightarrow> bool" where
  "isWSUpgrade connection upgrade \<longleftrightarrow> ToLower connection = ''upgrade'' \<and> ToLower upgrade = ''websocket''"

text \<open>The prologue of the handlers that need a node, with the right to view or to administer.\<close>

definition on_node ::
  "platform \<Rightarrow> request \<Rightarrow> UserProfile \<Rightarrow> string \<Rightarrow> string \<Rightarrow> server \<Rightarrow> (Node \<Rightarrow> 'b http \<times> server) \<Rightarrow> 'b http \<times> server" where
  "on_node P e user networkID nodeID s k =
     (case requireNode (attempts e) user networkID nodeID (server_directory P s) of
        Inl err \<Rightarrow> (Reject 404 (Error err), s)
      | Inr (network, node) \<Rightarrow> k node)"

definition administer ::
  "platform \<Rightarrow> request \<Rightarrow> UserProfile \<Rightarrow> string \<Rightarrow> string \<Rightarrow> server \<Rightarrow> (Network \<Rightarrow> Node \<Rightarrow> 'b http \<times> server) \<Rightarrow> 'b http \<times> server" where
  "administer P e user networkID nodeID s k =
     (case requireAdmin (attempts e) user networkID nodeID (server_directory P s) of
        Inl err \<Rightarrow> if Error err = ''admin access required'' then (Reject 403 (Error err), s) else (Reject 404 (Error err), s)
      | Inr (network, node) \<Rightarrow> k network node)"

section \<open>Talking to a node\<close>

definition NodeHealth ::
  "platform \<Rightarrow> request \<Rightarrow> agent_io \<Rightarrow> UserProfile \<Rightarrow> string \<Rightarrow> string \<Rightarrow> server \<Rightarrow> string http \<times> server" where
  "NodeHealth P e io user networkID nodeID s =
     on_node P e user networkID nodeID s (\<lambda>node.
       if \<not> HasCapability node ''health''
       then (Reject 403 ''health checks not enabled for this node. Enable it in the dashboard.'', s)
       else case io_instance io of
         Some err \<Rightarrow> (Reject 502 (''agent unreachable: '' @ Error err), s)
       | None \<Rightarrow>
           (case io_answer io of
              Inl err \<Rightarrow> (Reject 502 (''agent unreachable: '' @ Error err), s)
            | Inr body \<Rightarrow>
                let s = record_proxy e (nd_id node) s;
                    s = emit (Publish (nd_network_id node) ''node.status'' [(''nodeId'', nd_id node), (''status'', ''online'')]) s
                in case StatusTransition (nd_id node) ''online'' (sv_node_store s) of (changed, ns) \<Rightarrow>
                     let s = s\<lparr>sv_node_store := ns\<rparr>;
                         s = (if changed then Record (clock e 0) (nd_network_id node) ''node.status'' (Some (nd_id node)) (Some ''online'') None s
                              else s)
                     in (Reply 200 body, s)))"

definition NodeShell ::
  "platform \<Rightarrow> request \<Rightarrow> agent_io \<Rightarrow> UserProfile \<Rightarrow> string \<Rightarrow> string \<Rightarrow> server \<Rightarrow> string http \<times> server" where
  "NodeShell P e io user networkID nodeID s =
     on_node P e user networkID nodeID s (\<lambda>node.
       if \<not> HasCapability node ''terminal''
       then (Reject 403 ''terminal not enabled for this node. Enable it in the dashboard.'', s)
       else case io_instance io of
         Some err \<Rightarrow> (Reject 502 (''agent unreachable: '' @ Error err), s)
       | None \<Rightarrow>
           let s = audit e 0 (p_id user) ''shell.connect'' (Some networkID) (Some (nd_id node)) None s in
           (case io_upgrade io of
              Some (code, msg) \<Rightarrow> (Reject code msg, s)
            | None \<Rightarrow>
                (case io_dial io of
                   Some err \<Rightarrow> (Reply 101 (''Error: '' @ Error err), s)
                 | None \<Rightarrow> (Reply 101 [], record_proxy e (nd_id node) s))))"

definition NodeExec ::
  "platform \<Rightarrow> request \<Rightarrow> agent_io \<Rightarrow> UserProfile \<Rightarrow> string \<Rightarrow> string \<Rightarrow> server \<Rightarrow> string http \<times> server" where
  "NodeExec P e io user networkID nodeID s =
     on_node P e user networkID nodeID s (\<lambda>node.
       if \<not> HasCapability node ''terminal''
       then (Reject 403 ''exec not enabled for this node. Enable terminal in the dashboard.'', s)
       else
         let s = audit e 0 (p_id user) ''exec'' (Some networkID) (Some (nd_id node)) None s in
         case io_instance io of
           Some err \<Rightarrow> (Reject 502 (''agent unreachable: '' @ Error err), s)
         | None \<Rightarrow>
             (case io_answer io of
                Inl err \<Rightarrow> (Reject 502 (''agent unreachable: '' @ Error err), s)
              | Inr body \<Rightarrow>
                  let s = record_proxy e (nd_id node) s in
                  if \<not> io_flusher io then (Reject 500 ''streaming not supported'', s) else (Reply 200 body, s)))"

text \<open>
  The WebSocket branch of the proxy. Status 101 stands for an upgraded
  connection; its body is what the handler itself writes to the browser.
\<close>

definition proxyNodeWebSocket :: "request \<Rightarrow> agent_io \<Rightarrow> Node \<Rightarrow> server \<Rightarrow> string http \<times> server" where
  "proxyNodeWebSocket e io node s =
     (case io_upgrade io of
        Some (code, msg) \<Rightarrow> (Reject code msg, s)
      | None \<Rightarrow>
          (case io_dial io of
             Some err \<Rightarrow> (Reply 101 (''Error: '' @ Error err), s)
           | None \<Rightarrow> (Reply 101 [], record_proxy e (nd_id node) s)))"

text \<open>The web proxy. \<open>q\<close> are the values of the request it looks at; \<open>wire\<close> is the response of the agent.\<close>

record proxy_request =
  pq_port :: string
  pq_path :: string
  pq_connection :: string
  pq_upgrade :: string
  pq_canceled :: "go_error \<Rightarrow> bool"

definition NodeProxy ::
  "platform \<Rightarrow> request \<Rightarrow> (string \<Rightarrow> (string res) res) \<Rightarrow> agent_io \<Rightarrow> (nat \<times> response) res \<Rightarrow> proxy_request \<Rightarrow> UserProfile
     \<Rightarrow> string \<Rightarrow> string \<Rightarrow> server \<Rightarrow> (response option http \<times> server) option" where
  "NodeProxy P e gunzip io wire q user networkID nodeID s =
     (case cachedRequireNode (attempts e) (nanos e 0) (nanos e 1) user networkID nodeID (server_directory P s) (sv_cache s) of
        (Inl err, c) \<Rightarrow> Some (Reject 404 (Error err), s\<lparr>sv_cache := c\<rparr>)
      | (Inr (network, node), c) \<Rightarrow>
          let s = s\<lparr>sv_cache := c\<rparr> in
          if \<not> HasCapability node ''forward''
          then Some (Reject 403 ''port forwarding not enabled for this node. Enable it in the dashboard.'', s)
          else case Atoi (pq_port q) of (port, ok) \<Rightarrow>
            if \<not> ok \<or> port < 1 \<or> port > 65535 then Some (Reject 400 ''invalid port'', s)
            else case io_instance io of
              Some err \<Rightarrow> Some (Reject 502 (''agent unreachable: '' @ Error err), s)
            | None \<Rightarrow>
                let forwardPath = (if pq_path q = [] \<or> hd (pq_path q) \<noteq> CHR ''/'' then ''/'' @ pq_path q else pq_path q);
                    det = ''port='' @ dec port @ '' path='' @ forwardPath;
                    s = audit e 0 (p_id user) ''port_forward.proxy'' (Some networkID) (Some (nd_id node)) (Some det) s;
                    failed = (\<lambda>err s. if pq_canceled q err then (Reply 200 None, s)
                                      else (Reject 502 (''proxy error: '' @ Error err), s))
                in if isWSUpgrade (pq_connection q) (pq_upgrade q) then
                     (case proxyNodeWebSocket e io node s of (a, s) \<Rightarrow> Some (map_http (\<lambda>_. None) a, s))
                   else case wire of
                     Inl err \<Rightarrow> Some (failed err s)
                   | Inr (code, resp) \<Rightarrow>
                       let s = record_proxy e (nd_id node) s;
                           proxyPrefix = ''/api/networks/'' @ networkID @ ''/nodes/'' @ nodeID @ ''/proxy/'' @ dec port
                       in (case ModifyResponse gunzip proxyPrefix (nat port) resp of
                             None \<Rightarrow> None
                           | Some (Some err, r) \<Rightarrow> Some (failed err s)
                           | Some (None, r) \<Rightarrow> Some (Reply code (Some r), s)))"

section \<open>Port forwards\<close>

record forward_request =
  fq_remote :: int
  fq_local :: int

definition StartPortForward ::
  "platform \<Rightarrow> request \<Rightarrow> go_error option \<Rightarrow> (int \<times> string) res \<Rightarrow> UserProfile \<Rightarrow> string \<Rightarrow> string \<Rightarrow> forward_request option
     \<Rightarrow> server \<times> ForwardManager \<Rightarrow> PortForward http \<times> server \<times> ForwardManager" where
  "StartPortForward P e inst lsn user networkID nodeID body st =
     (case st of (s, fm) \<Rightarrow>
      case requireNode (attempts e) user networkID nodeID (server_directory P s) of
        Inl err \<Rightarrow> (Reject 404 (Error err), s, fm)
      | Inr (network, node) \<Rightarrow>
          if \<not> HasCapability node ''forward''
          then (Reject 403 ''port forwarding not enabled for this node. Enable it in the dashboard.'', s, fm)
          else case body of
            None \<Rightarrow> (Reject 400 ''remotePort is required'', s, fm)
          | Some b \<Rightarrow>
              if fq_remote b = 0 then (Reject 400 ''remotePort is required'', s, fm)
              else if fq_remote b < 1 \<or> fq_remote b > 65535 then (Reject 400 ''remotePort must be 1-65535'', s, fm)
              else if fq_local b < 0 \<or> fq_local b > 65535 then (Reject 400 ''localPort must be 0-65535'', s, fm)
              else if fq_local b > 0 \<and> fq_local b < 1024 then (Reject 400 ''localPort must be 0 (auto) or >= 1024'', s, fm)
              else
                let det = ''remote:'' @ dec (fq_remote b) @ '' local:'' @ dec (fq_local b);
                    s = audit e 0 (p_id user) ''port_forward.start'' (Some networkID) (Some (nd_id node)) (Some det) s
                in case ForwardManager_Start inst lsn (new_token e 0) (clock e 0) (nanos e 0) networkID (nd_id node) (agentNodeIP node)
                          (fq_remote b) (fq_local b) fm of
                     (Inl err, fm) \<Rightarrow> (Reject 500 (Error err), s, fm)
                   | (Inr pf, fm) \<Rightarrow> (Reply 201 pf, s, fm))"

definition StopPortForward ::
  "platform \<Rightarrow> request \<Rightarrow> UserProfile \<Rightarrow> string \<Rightarrow> string \<Rightarrow> server \<times> ForwardManager \<Rightarrow> unit http \<times> ForwardManager" where
  "StopPortForward P e user networkID fwdID st =
     (case st of (s, fm) \<Rightarrow>
      case view_only P e user networkID s (\<lambda>network. (Reply 204 (), s)) of
        (Reject code msg, _) \<Rightarrow> (Reject code msg, fm)
      | (Reply code b, _) \<Rightarrow>
          (case StopForNetwork networkID fwdID fm of
             (Some err, fm) \<Rightarrow> (Reject 404 (Error err), fm)
           | (None, fm) \<Rightarrow> (Reply 204 (), fm)))"

definition ListPortForwards ::
  "platform \<Rightarrow> request \<Rightarrow> UserProfile \<Rightarrow> string \<Rightarrow> server \<times> ForwardManager \<Rightarrow> PortForward list http" where
  "ListPortForwards P e user networkID st =
     (case st of (s, fm) \<Rightarrow> fst (view_only P e user networkID s (\<lambda>network. (Reply 200 (List_forwards networkID fm), s))))"

section \<open>Administration of nodes\<close>

definition ListNodes ::
  "platform \<Rightarrow> request \<Rightarrow> UserProfile \<Rightarrow> string \<Rightarrow> server \<Rightarrow> NodeResponse list http \<times> server" where
  "ListNodes P e user networkID s =
     view_only P e user networkID s (\<lambda>network.
       case NodeStore_ListForNetwork (fails e ''Nodes.ListForNetwork'') networkID (sv_nodes s) of
         Inl err \<Rightarrow> (Reject 500 (Error err), s)
       | Inr nodes \<Rightarrow> (Reply 200 (map (node_response (clock e 0) Map.empty nodes) nodes), s))"

definition RenameNode_handler ::
  "platform \<Rightarrow> request \<Rightarrow> UserProfile \<Rightarrow> string \<Rightarrow> string \<Rightarrow> string option \<Rightarrow> server \<Rightarrow> (string \<times> string) http \<times> server" where
  "RenameNode_handler P e user networkID nodeID body s =
     administer P e user networkID nodeID s (\<lambda>network node.
       case body of
         None \<Rightarrow> (Reject 400 ''name is required'', s)
       | Some name \<Rightarrow>
           if name = [] then (Reject 400 ''name is required'', s)
           else
             let dnsName = sanitizeDNSName name in
             case NodeStore_Rename (fails e ''Nodes.Rename'') (nd_id node) name dnsName (sv_nodes s) of
               (Some err, t) \<Rightarrow> (Reject 500 (''failed to rename node: '' @ Error err), with_nodes t s)
             | (None, t) \<Rightarrow>
                 let s = with_nodes t s;
                     s = emit (RefreshDNS (n_id network)) s;
                     s = emit (Publish (n_id network) ''node.renamed'' [(''nodeId'', nd_id node), (''name'', name)]) s;
                     s = Record (clock e 0) (n_id network) ''node.renamed'' (Some (nd_id node)) None
                           (jsonDetails [(''dnsName'', json_quote dnsName), (''name'', json_quote name)]) s
                 in (Reply 200 (name, dnsName), s))"

definition valid_capability :: "string \<Rightarrow> bool" where
  "valid_capability c \<longleftrightarrow> c \<in> {''terminal'', ''health'', ''forward'', ''relay''}"

text \<open>The body is \<open>None\<close> when it does not decode; its list is \<open>None\<close> when it is nil.\<close>

definition caps_json :: "string list option \<Rightarrow> string" where
  "caps_json caps = (case caps of None \<Rightarrow> ''null'' | Some cs \<Rightarrow> marshal_strings cs)"

definition UpdateCapabilities_handler ::
  "platform \<Rightarrow> request \<Rightarrow> UserProfile \<Rightarrow> string \<Rightarrow> string \<Rightarrow> string list option option \<Rightarrow> server
     \<Rightarrow> string list option http \<times> server" where
  "UpdateCapabilities_handler P e user networkID nodeID body s =
     administer P e user networkID nodeID s (\<lambda>network node.
       case body of
         None \<Rightarrow> (Reject 400 ''invalid request'', s)
       | Some caps \<Rightarrow>
           (case find (\<lambda>c. \<not> valid_capability c) (case caps of None \<Rightarrow> [] | Some cs \<Rightarrow> cs) of
              Some c \<Rightarrow> (Reject 400 (''invalid capability: '' @ c @ ''. Valid: terminal, health, forward, relay''), s)
            | None \<Rightarrow>
                (case NodeStore_UpdateCapabilities (fails e ''Nodes.UpdateCapabilities'') (nd_id node) caps (sv_nodes s) of
                   (Some err, t) \<Rightarrow> (Reject 500 ''failed to update capabilities'', with_nodes t s)
                 | (None, t) \<Rightarrow>
                     let s = with_nodes t s;
                         s = s\<lparr>sv_cache := InvalidateProxyCache (nd_network_id node) (nd_id node) (sv_cache s)\<rparr>;
                         s = emit (Publish (nd_network_id node) ''node.capabilities''
                               [(''nodeId'', nd_id node), (''capabilities'', caps_json caps)]) s;
                         s = Record (clock e 0) (nd_network_id node) ''node.capabilities'' (Some (nd_id node)) None
                               (jsonDetails [(''capabilities'', caps_json caps)]) s
                     in (Reply 200 caps, s))))"

text \<open>
  The loop over the routes of the body: \<open>seen\<close> are the canonical texts so far, in order. \<open>Inl\<close> is the
  message of the first rejected route.
\<close>

fun clean_routes :: "string list \<Rightarrow> string list \<Rightarrow> string + string list" where
  "clean_routes [] seen = Inr seen"
| "clean_routes (raw # rs) seen =
     (let c = TrimSpace raw in
      if c = [] then clean_routes rs seen
      else case netip_ParsePrefix c of
        None \<Rightarrow> Inl (''invalid CIDR: '' @ c)
      | Some p \<Rightarrow>
          if snd p = 0
          then Inl (''default route (0.0.0.0/0) is not allowed in v1 '' @ [CHR 0xE2, CHR 0x80, CHR 0x94]
                      @ '' use exit-node support (roadmap #6) when shipped'')
          else if IsLoopback (fst p) \<or> IsLinkLocalUnicast (fst p) \<or> IsMulticast (fst p)
          then Inl (''loopback / link-local / multicast routes are not allowed: '' @ c)
          else let canonical = Prefix_String (Masked p) in
            if canonical \<in> set seen then clean_routes rs seen else clean_routes rs (seen @ [canonical]))"

definition UpdateRoutes_handler ::
  "platform \<Rightarrow> request \<Rightarrow> UserProfile \<Rightarrow> string \<Rightarrow> string \<Rightarrow> string list option \<Rightarrow> server \<Rightarrow> string list http \<times> server" where
  "UpdateRoutes_handler P e user networkID nodeID body s =
     administer P e user networkID nodeID s (\<lambda>network node.
       case body of
         None \<Rightarrow> (Reject 400 ''invalid request'', s)
       | Some routes \<Rightarrow>
           (case clean_routes routes [] of
              Inl msg \<Rightarrow> (Reject 400 msg, s)
            | Inr cleaned \<Rightarrow>
                let rs = map (\<lambda>r. \<lparr>Route = r\<rparr>) cleaned in
                (case NodeStore_UpdateRoutes (fails e ''Nodes.UpdateRoutes'') (nd_id node) rs (sv_nodes s) of
                   (Some err, t) \<Rightarrow> (Reject 500 (''failed to update routes: '' @ Error err), with_nodes t s)
                 | (None, t) \<Rightarrow>
                     let s = with_nodes t s;
                         s = s\<lparr>sv_cache := InvalidateProxyCache (nd_network_id node) (nd_id node) (sv_cache s)\<rparr>;
                         s = emit (Publish (nd_network_id node) ''node.routes''
                               [(''nodeId'', nd_id node), (''routes'', marshal_routes rs)]) s;
                         s = Record (clock e 0) (nd_network_id node) ''node.routes'' (Some (nd_id node)) None
                               (jsonDetails [(''routes'', marshal_routes rs)]) s
                     in (Reply 200 cleaned, s))))"

definition DeleteNode_handler ::
  "platform \<Rightarrow> request \<Rightarrow> UserProfile \<Rightarrow> string \<Rightarrow> string \<Rightarrow> server \<Rightarrow> unit http \<times> server" where
  "DeleteNode_handler P e user networkID nodeID s =
     administer P e user networkID nodeID s (\<lambda>network node.
       case NodeStore_Delete (fails e ''Nodes.Delete'') (nd_id node) (sv_nodes s) of
         (Some err, t) \<Rightarrow> (Reject 500 (''failed to delete node: '' @ Error err), with_nodes t s)
       | (None, t) \<Rightarrow>
           let s = with_nodes t s;
               s = s\<lparr>sv_cache := InvalidateProxyCache (nd_network_id node) (nd_id node) (sv_cache s)\<rparr>;
               s = audit e 0 (p_id user) ''node.delete'' (Some networkID) (Some (nd_id node)) None s;
               s = emit (Publish networkID ''node.deleted'' [(''nodeId'', nd_id node)]) s;
               s = Record (clock e 0) networkID ''node.deleted'' (Some (nd_id node)) None
                     (jsonDetails [(''hostname'', json_quote (nd_hostname node))]) s
           in (Reply 204 (), s))"

text \<open>\<open>secs\<close> is \<open>olderThanSeconds\<close> of the body, 0 when the body is absent or does not decode.\<close>

definition PruneOfflineNodes ::
  "platform \<Rightarrow> request \<Rightarrow> UserProfile \<Rightarrow> string \<Rightarrow> int \<Rightarrow> server \<Rightarrow> nat http \<times> server" where
  "PruneOfflineNodes P e user networkID secs s =
     admin_only P e user networkID s (\<lambda>network.
       let cutoff = wrap64 (clock e 0 - secs) in
       case PruneOfflineSince (fails e ''Nodes.PruneOfflineSince'') networkID cutoff (sv_nodes s) of
         (Inl err, t) \<Rightarrow> (Reject 500 (''prune failed: '' @ Error err), with_nodes t s)
       | (Inr deleted, t) \<Rightarrow>
           let s = with_nodes t s;
               s = audit e 0 (p_id user) ''nodes.prune'' (Some networkID) None
                     (jsonDetails [(''deletedCount'', itoa deleted), (''olderThanSeconds'', dec secs)]) s;
               s = Record (clock e 1) networkID ''nodes.pruned'' None None (jsonDetails [(''deletedCount'', itoa deleted)]) s
           in (Reply 200 deleted, s))"

section \<open>What the handlers establish\<close>

lemma administer_cases:
  assumes "administer P e user networkID nodeID s k = r"
  shows "(\<exists>code msg. r = (Reject code msg, s))
     \<or> (may_admin (p_id user) networkID (sv_networks s) (sv_members s) \<and> node_in networkID nodeID (sv_nodes s)
        \<and> (\<exists>network node. nd_id node = nodeID \<and> nd_network_id node = networkID \<and> r = k network node))"
proof (cases "requireAdmin (attempts e) user networkID nodeID (server_directory P s)")
  case (Inl err)
  then have "r = (if Error err = ''admin access required'' then (Reject 403 (Error err), s) else (Reject 404 (Error err), s))"
    using assms by (simp add: administer_def del: Error.simps)
  then show ?thesis by (metis (full_types))
next
  case (Inr b)
  obtain network node where b: "b = (network, node)" by fastforce
  have "r = k network node" using assms Inr b by (simp add: administer_def)
  then show ?thesis using requireAdmin_Inr [OF Inr [unfolded b]] by (auto simp: server_directory_def)
qed

text \<open>A route that may be handed to an agent.\<close>

definition routable :: "addr_prefix \<Rightarrow> bool" where
  "routable p \<longleftrightarrow> snd p \<noteq> 0 \<and> \<not> IsLoopback (fst p) \<and> \<not> IsLinkLocalUnicast (fst p) \<and> \<not> IsMulticast (fst p)"

definition requested_routes :: "string list \<Rightarrow> string set" where
  "requested_routes rs =
     {r. \<exists>raw p. raw \<in> set rs \<and> netip_ParsePrefix (TrimSpace raw) = Some p \<and> routable p \<and> r = Prefix_String (Masked p)}"

lemma no_empty_prefix [simp]: "netip_ParsePrefix [] = None"
  by (simp add: netip_ParsePrefix_def)

lemma requested_routes_Cons:
  "requested_routes (raw # rs) =
     (case netip_ParsePrefix (TrimSpace raw) of
        None \<Rightarrow> {} | Some p \<Rightarrow> if routable p then {Prefix_String (Masked p)} else {}) \<union> requested_routes rs"
  by (cases "netip_ParsePrefix (TrimSpace raw)") (auto simp: requested_routes_def)

lemma clean_routes_Inr:
  "clean_routes rs seen = Inr out \<Longrightarrow> distinct seen \<Longrightarrow> distinct out \<and> set out = set seen \<union> requested_routes rs"
proof (induction rs arbitrary: seen)
  case Nil
  then show ?case by (simp add: requested_routes_def)
next
  case (Cons raw rs)
  show ?case
  proof (cases "TrimSpace raw = []")
    case True
    then show ?thesis using Cons by (simp add: requested_routes_Cons)
  next
    case False
    then obtain p where p: "netip_ParsePrefix (TrimSpace raw) = Some p" "routable p"
      and r: "clean_routes rs (if Prefix_String (Masked p) \<in> set seen then seen else seen @ [Prefix_String (Masked p)]) = Inr out"
      using Cons.prems by (auto simp: Let_def routable_def split: option.splits if_splits)
    show ?thesis using Cons.IH [OF r] Cons.prems(2) p by (auto simp: requested_routes_Cons)
  qed
qed

end
