(* ===== verification/RenewApi.thy ===== *)
theory RenewApi
  imports ProxyApi
begin

text \<open>
  What agents call (src/internal/api/renew.go): certificate renewal and the heartbeat. Both are
  authenticated by the bearer token of the node. The heartbeat buffers the report, remembers the
  endpoints the agent says it can be reached at, and answers with the peers of the network. The
  handler's own state is \<open>endpoint_cache\<close>, the \<open>sync.Map\<close> from node to its self-reported endpoints; times in
  it are nanoseconds, and \<open>None\<close> is the zero time. \<open>lighthouse\<close> is what \<open>PeerEndpoints\<close> of the running
  lighthouse answers, \<open>None\<close> when the lighthouse cannot be used.
\<close>

section \<open>Data\<close>

definition renewCertDuration :: int where
  "renewCertDuration = 24 * 60 * 60"

definition selfEndpointHintTTL :: int where
  "selfEndpointHintTTL = 15 * 60 * 1000000000"

definition UseRelays :: bool where
  "UseRelays = True"

record endpointHint =
  eh_addr :: string
  eh_expires :: "int option"

type_synonym selfEndpointHint = "endpointHint list"
type_synonym endpoint_cache = "(string \<times> selfEndpointHint) list"

text \<open>An address is never the zero \<open>AddrPort\<close> here, so that \<open>IsValid\<close> is the test whether it is present.\<close>

definition mergePeerEndpoints :: "addr_port option list \<Rightarrow> selfEndpointHint option \<Rightarrow> int \<Rightarrow> string list" where
  "mergePeerEndpoints lighthouse hint now =
     (let add = (\<lambda>out s. if s \<in> set out then out else out @ [s]);
          out = foldl (\<lambda>out ap. case ap of None \<Rightarrow> out | Some a \<Rightarrow> add out (AddrPort_String a)) [] lighthouse
      in case hint of
           None \<Rightarrow> out
         | Some es \<Rightarrow>
             foldl (\<lambda>out e.
                 if (case eh_expires e of None \<Rightarrow> False | Some t \<Rightarrow> t < now) then out
                 else case ParseAddrPort (eh_addr e) of
                   None \<Rightarrow> out
                 | Some a \<Rightarrow> add out (AddrPort_String a)) out es)"

section \<open>Authentication by the agent token\<close>

text \<open>\<open>bodyNode\<close> is \<open>None\<close> when the body does not decode.\<close>

definition authenticate_agent ::
  "platform \<Rightarrow> request \<Rightarrow> string \<Rightarrow> string option \<Rightarrow> server \<Rightarrow> (nat \<times> string) + Node" where
  "authenticate_agent P e authHeader bodyNode s =
     (if \<not> HasPrefix authHeader ''Bearer '' then Inl (401, ''unauthorized'')
      else
        let token = TrimPrefix authHeader ''Bearer '' in
        case bodyNode of
          None \<Rightarrow> Inl (400, ''nodeId is required'')
        | Some ident \<Rightarrow>
            if ident = [] then Inl (400, ''nodeId is required'')
            else case NodeStore_Get (aead P) (encryptor P) (attempts e ''Nodes.Get'') ident (sv_nodes s) of
              Inl err \<Rightarrow> Inl (401, ''unauthorized'')
            | Inr None \<Rightarrow> Inl (401, ''unauthorized'')
            | Inr (Some node) \<Rightarrow>
                if token \<noteq> nd_agent_token node then Inl (401, ''unauthorized'') else Inr node)"

section \<open>Renewal\<close>

record RenewResponse =
  rn_cert :: string
  rn_key :: string
  rn_expires_in :: int
  rn_use_relays :: bool
  rn_punch_back :: bool
  rn_punch_delay :: string

definition Renew ::
  "platform \<Rightarrow> request \<Rightarrow> string \<Rightarrow> string option \<Rightarrow> server \<Rightarrow> RenewResponse http \<times> server" where
  "Renew P e authHeader bodyNode s =
     (case authenticate_agent P e authHeader bodyNode s of
        Inl (code, msg) \<Rightarrow> (Reject code msg, s)
      | Inr node \<Rightarrow>
       case Networks_Get P e (nd_network_id node) s of
         Inl err \<Rightarrow> (Reject 500 ''network not found'', s)
       | Inr None \<Rightarrow> (Reject 500 ''network not found'', s)
       | Inr (Some network) \<Rightarrow>
           (case ParsePrefix (nd_ip node) of
              Inl err \<Rightarrow> (Reject 500 ''invalid node IP'', s)
            | Inr nodeIP \<Rightarrow>
                (case node_cert P e network (nd_id node) nodeIP renewCertDuration of
                   None \<Rightarrow> (panic, s)
                 | Some (Inl err) \<Rightarrow> (Reject 500 (''failed to issue cert: '' @ Error err), s)
                 | Some (Inr cert) \<Rightarrow>
                     let s = s\<lparr>sv_node_store :=
                               RecordHeartbeat (nd_id node) (agent_ip P e) None None None None (sv_node_store s)\<rparr> in
                     (case UpdateCert (aead P) (encryptor P) (nonce e 0) (fails e ''Nodes.UpdateCert'')
                             (nd_id node) (CertPEM cert) (KeyPEM cert) (sv_nodes s) of
                        (Some err, t) \<Rightarrow> (Reject 500 (''failed to update cert: '' @ Error err), with_nodes t s)
                      | (None, t) \<Rightarrow>
                          (Reply 200 \<lparr>rn_cert = CertPEM cert, rn_key = KeyPEM cert,
                             rn_expires_in = renewCertDuration, rn_use_relays = UseRelays,
                             rn_punch_back = PunchBack, rn_punch_delay = PunchDelay\<rparr>, with_nodes t s)))))"

section \<open>The heartbeat\<close>

record HeartbeatBody =
  hb_node_id :: string
  hq_peers_direct :: "int option"
  hq_peers_relayed :: "int option"
  hq_peers :: "string list option"
  hq_agent_version :: "string option"
  hq_client_type :: "string option"
  hq_endpoints :: "string list option"
  hq_lifetimes :: "int list"

text \<open>
  \<open>json.Marshal\<close> of a raw value that was read from a document: white space outside strings goes, and
  the characters that HTML treats specially are escaped. The flags say whether the text is inside a
  string and whether the previous character was a backslash there.
\<close>

fun compact :: "bool \<Rightarrow> bool \<Rightarrow> string \<Rightarrow> string" where
  "compact inside esc [] = []"
| "compact inside esc (c # s) =
     (let inside' = (if inside then \<not> (c = CHR 0x22 \<and> \<not> esc) else c = CHR 0x22);
          esc' = (inside \<and> c = CHR 0x5C \<and> \<not> esc)
      in if \<not> inside \<and> of_char c \<in> {32, 9, 10, 13 :: nat} then compact inside' esc' s
         else if c \<in> {CHR ''<'', CHR ''>'', CHR ''&''}
         then [CHR 0x5C] @ ''u00'' @ hex_byte c @ compact inside' esc' s
         else if c = CHR 0xE2 \<and> take 1 s = [CHR 0x80] \<and> take 1 (drop 1 s) \<in> {[CHR 0xA8], [CHR 0xA9]}
         then [CHR 0x5C] @ (if take 1 (drop 1 s) = [CHR 0xA8] then ''u2028'' else ''u2029'') @ compact inside' False (drop 2 s)
         else c # compact inside' esc' s)"

definition peer_state_text :: "string list option \<Rightarrow> string option" where
  "peer_state_text ps = map_option (\<lambda>raws. json_array (map (compact False False) raws)) ps"

text \<open>
  How long the \<open>i\<close>-th endpoint is handed on: half of the lease of the router, at most the default. The
  product of the halved lease and the length of a second wraps around at 64 bits.
\<close>

definition endpoint_lease :: "int list \<Rightarrow> nat \<Rightarrow> int" where
  "endpoint_lease lifetimes i =
     (if i < length lifetimes \<and> lifetimes ! i > 0 then
        let safe = wrap64 (lifetimes ! i div 2 * 1000000000) in
        if safe < selfEndpointHintTTL then safe else selfEndpointHintTTL
      else selfEndpointHintTTL)"

definition endpoint_hints :: "int \<Rightarrow> string list \<Rightarrow> int list \<Rightarrow> selfEndpointHint" where
  "endpoint_hints now endpoints lifetimes =
     map (\<lambda>i. \<lparr>eh_addr = endpoints ! i, eh_expires = Some (now + endpoint_lease lifetimes i)\<rparr>) [0..<length endpoints]"

record peerInfoEntry =
  pi_name :: string
  pi_dns :: string
  pi_custom :: "string list"
  pi_os :: string
  pi_node_id :: string

record HeartbeatResponse =
  hr_network_id :: string
  hr_peers :: "string list"
  hr_relays :: "string list"
  hr_endpoints :: "(string \<times> string list) list"
  hr_info :: "(string \<times> peerInfoEntry) list"
  hr_am_relay :: bool
  hr_routes :: "string list"

text \<open>The index of the custom DNS records: address to names, in the order of the records.\<close>

definition custom_dns :: "platform \<Rightarrow> request \<Rightarrow> string \<Rightarrow> server \<Rightarrow> string \<Rightarrow> string list" where
  "custom_dns P e networkID s ip =
     (let domain = (case Networks_Get P e networkID s of Inr (Some n) \<Rightarrow> n_dns_domain n | _ \<Rightarrow> []);
          records = (case DNSRecordStore_ListForNetwork (fails e ''DNSRecords.ListForNetwork'') networkID (sv_dns s) of
                       Inl err \<Rightarrow> [] | Inr rs \<Rightarrow> rs)
      in map (\<lambda>r. if domain \<noteq> [] then r_name r @ ''.'' @ domain else r_name r)
           (filter (\<lambda>r. TrimSuffix (r_ip r) ''/24'' = ip) records))"

definition reachable_peer :: "int \<Rightarrow> Node \<Rightarrow> Node \<Rightarrow> bool" where
  "reachable_peer now node p \<longleftrightarrow>
     nd_id p \<noteq> nd_id node \<and> nd_ip p \<noteq> []
     \<and> (case nd_last_seen p of None \<Rightarrow> False | Some t \<Rightarrow> now - t < 600)"

text \<open>One peer of the loop of \<open>Heartbeat\<close>.\<close>

definition add_peer ::
  "(string \<Rightarrow> string list) \<Rightarrow> (addr \<Rightarrow> addr_port option list) option \<Rightarrow> endpoint_cache \<Rightarrow> int \<Rightarrow> int \<Rightarrow> Node
     \<Rightarrow> HeartbeatResponse \<Rightarrow> Node \<Rightarrow> HeartbeatResponse" where
  "add_peer customs lighthouse cache now now_ns node resp p =
     (let caps = parseCapabilitiesForRenew (nd_capabilities p) in
      if nd_id p = nd_id node then resp\<lparr>hr_am_relay := caps ''relay''\<rparr>
      else if \<not> reachable_peer now node p then resp
      else
        let ip = TrimSuffix (nd_ip p) ''/24'';
            known = (case lighthouse of
                       None \<Rightarrow> []
                     | Some f \<Rightarrow> (case netip_ParseAddr ip of None \<Rightarrow> [] | Some vpn \<Rightarrow> f vpn));
            merged = mergePeerEndpoints known (map_of cache (nd_id p)) now_ns
        in resp\<lparr>hr_peers := hr_peers resp @ [ip],
                hr_relays := (if caps ''relay'' then hr_relays resp @ [ip] else hr_relays resp),
                hr_endpoints := (if merged \<noteq> [] then AList.update ip merged (hr_endpoints resp) else hr_endpoints resp),
                hr_info := AList.update ip \<lparr>pi_name = nd_hostname p,
                  pi_dns = (case nd_dns_name p of None \<Rightarrow> [] | Some d \<Rightarrow> d), pi_custom = customs ip, pi_os = nd_os p,
                  pi_node_id = nd_id p\<rparr> (hr_info resp)\<rparr>)"

text \<open>What the heartbeat does to the tables and buffers before it builds its answer.\<close>

definition note_heartbeat :: "platform \<Rightarrow> request \<Rightarrow> HeartbeatBody \<Rightarrow> Node \<Rightarrow> server \<Rightarrow> server" where
  "note_heartbeat P e b node s =
     (let s = s\<lparr>sv_node_store := RecordHeartbeat (nd_id node) (agent_ip P e) (hq_peers_direct b) (hq_peers_relayed b)
                                  (peer_state_text (hq_peers b)) (hq_agent_version b) (sv_node_store s)\<rparr>;
          s = (case hq_client_type b of
                 None \<Rightarrow> s
               | Some c \<Rightarrow> with_nodes (snd (SetClientType (fails e ''Nodes.SetClientType'') (nd_id node) (TrimSpace c) (sv_nodes s))) s);
          evt = [(''nodeId'', nd_id node)]
                @ (case hq_peers_direct b of None \<Rightarrow> [] | Some n \<Rightarrow> [(''peersDirect'', dec n)])
                @ (case hq_peers_relayed b of None \<Rightarrow> [] | Some n \<Rightarrow> [(''peersRelayed'', dec n)])
                @ [(''status'', ''online'')];
          s = emit (Publish (nd_network_id node) ''node.status'' evt) s
      in case StatusTransition (nd_id node) ''online'' (sv_node_store s) of (changed, ns) \<Rightarrow>
           let s = s\<lparr>sv_node_store := ns\<rparr> in
           if changed then Record (clock e 1) (nd_network_id node) ''node.status'' (Some (nd_id node)) (Some ''online'') None s
           else s)"

definition note_endpoints :: "int \<Rightarrow> HeartbeatBody \<Rightarrow> string \<Rightarrow> endpoint_cache \<Rightarrow> endpoint_cache" where
  "note_endpoints now_ns b nodeID cache =
     (case hq_endpoints b of
        None \<Rightarrow> cache
      | Some es \<Rightarrow>
          if es \<noteq> [] then AList.update nodeID (endpoint_hints now_ns es (hq_lifetimes b)) cache
          else AList.delete nodeID cache)"

definition Heartbeat ::
  "platform \<Rightarrow> request \<Rightarrow> (addr \<Rightarrow> addr_port option list) option \<Rightarrow> string \<Rightarrow> HeartbeatBody option
     \<Rightarrow> server \<times> endpoint_cache \<Rightarrow> HeartbeatResponse http \<times> server \<times> endpoint_cache" where
  "Heartbeat P e lighthouse authHeader body st =
     (case st of (s, cache) \<Rightarrow>
      case authenticate_agent P e authHeader (map_option hb_node_id body) s of
        Inl (code, msg) \<Rightarrow> (Reject code msg, s, cache)
      | Inr node \<Rightarrow>
        case body of
          None \<Rightarrow> (Reject 400 ''nodeId is required'', s, cache)
        | Some b \<Rightarrow>
            let s = note_heartbeat P e b node s;
                cache = note_endpoints (nanos e 0) b (nd_id node) cache;
                peers = (case NodeStore_ListForNetwork (fails e ''Nodes.ListForNetwork'') (nd_network_id node) (sv_nodes s) of
                           Inl err \<Rightarrow> [] | Inr ns \<Rightarrow> ns);
                resp = foldl (add_peer (custom_dns P e (nd_network_id node) s) lighthouse cache (clock e 2) (nanos e 1) node)
                         \<lparr>hr_network_id = nd_network_id node, hr_peers = [], hr_relays = [], hr_endpoints = [], hr_info = [],
                          hr_am_relay = False, hr_routes = []\<rparr> peers;
                routes = (case GetRoutes (fails e ''Nodes.GetRoutes'') (nd_id node) (sv_nodes s) of
                            Inl err \<Rightarrow> [] | Inr rs \<Rightarrow> map Route rs)
            in (Reply 200 (resp\<lparr>hr_routes := routes\<rparr>), s, cache))"

section \<open>Endpoints\<close>

text \<open>Both loops of \<open>mergePeerEndpoints\<close> append the values that are new.\<close>

definition append_new :: "('a \<Rightarrow> 'b option) \<Rightarrow> 'b list \<Rightarrow> 'a \<Rightarrow> 'b list" where
  "append_new f out x = (case f x of None \<Rightarrow> out | Some v \<Rightarrow> if v \<in> set out then out else out @ [v])"

lemma append_new_fold:
  "distinct out \<Longrightarrow> distinct (foldl (append_new f) out xs)
     \<and> set (foldl (append_new f) out xs) = set out \<union> {v. \<exists>x \<in> set xs. f x = Some v}
     \<and> (\<exists>rest. foldl (append_new f) out xs = out @ rest)"
proof (induction xs arbitrary: out)
  case (Cons x xs)
  have new: "distinct (append_new f out x)" "set (append_new f out x) = set out \<union> {v. f x = Some v}"
    "\<exists>rest. append_new f out x = out @ rest"
    using Cons.prems by (auto simp: append_new_def split: option.splits)
  obtain rest where "append_new f out x = out @ rest" using new(3) by blast
  moreover obtain rest' where "foldl (append_new f) (append_new f out x) xs = append_new f out x @ rest'"
    using Cons.IH [OF new(1)] by blast
  ultimately have "\<exists>rest. foldl (append_new f) out (x # xs) = out @ rest" by simp
  then show ?case using Cons.IH [OF new(1)] new(2) by auto
qed simp

definition live_endpoint :: "int \<Rightarrow> endpointHint \<Rightarrow> string option" where
  "live_endpoint now e =
     (if (case eh_expires e of None \<Rightarrow> False | Some t \<Rightarrow> t < now) then None
      else map_option AddrPort_String (ParseAddrPort (eh_addr e)))"

lemma mergePeerEndpoints_folds:
  "mergePeerEndpoints lh hint now =
     foldl (append_new (live_endpoint now)) (foldl (append_new (map_option AddrPort_String)) [] lh)
       (case hint of None \<Rightarrow> [] | Some es \<Rightarrow> es)"
proof -
  have "(\<lambda>out ap. case ap of None \<Rightarrow> out | Some a \<Rightarrow> if AddrPort_String a \<in> set out then out else out @ [AddrPort_String a])
      = append_new (map_option AddrPort_String)"
    by (auto simp: append_new_def fun_eq_iff split: option.splits)
  moreover have "(\<lambda>out e. if (case eh_expires e of None \<Rightarrow> False | Some t \<Rightarrow> t < now) then out
                 else case ParseAddrPort (eh_addr e) of
                   None \<Rightarrow> out
                 | Some a \<Rightarrow> if AddrPort_String a \<in> set out then out else out @ [AddrPort_String a])
      = append_new (live_endpoint now)"
    by (auto simp: append_new_def fun_eq_iff live_endpoint_def split: option.splits)
  ultimately show ?thesis by (simp add: mergePeerEndpoints_def Let_def split: option.splits)
qed

lemma merge_exact:
  "distinct (mergePeerEndpoints lh hint now)
   \<and> set (mergePeerEndpoints lh hint now) =
       {AddrPort_String a |a. Some a \<in> set lh}
       \<union> {s. \<exists>es e. hint = Some es \<and> e \<in> set es \<and> live_endpoint now e = Some s}
   \<and> (\<exists>rest. mergePeerEndpoints lh hint now = mergePeerEndpoints lh None now @ rest)"
proof -
  let ?a = "mergePeerEndpoints lh None now"
  have a: "distinct ?a" "set ?a = {AddrPort_String a |a. Some a \<in> set lh}"
    using append_new_fold [of "[]" "map_option AddrPort_String" lh] by (auto simp: mergePeerEndpoints_folds)
  have "mergePeerEndpoints lh hint now = foldl (append_new (live_endpoint now)) ?a (case hint of None \<Rightarrow> [] | Some es \<Rightarrow> es)"
    by (simp add: mergePeerEndpoints_folds)
  then show ?thesis
    using append_new_fold [OF a(1), of "live_endpoint now" "case hint of None \<Rightarrow> [] | Some es \<Rightarrow> es"] a(2)
    by (auto split: option.splits)
qed

section \<open>Histories of heartbeats\<close>

text \<open>
  One call of the handler, with the tables it finds: between two heartbeats any other handler may run.
\<close>

record heartbeat_call =
  hc_platform :: platform
  hc_request :: request
  hc_lighthouse :: "(addr \<Rightarrow> addr_port option list) option"
  hc_auth :: string
  hc_body :: "HeartbeatBody option"
  hc_server :: server

definition serve :: "heartbeat_call \<Rightarrow> endpoint_cache \<Rightarrow> HeartbeatResponse http \<times> server \<times> endpoint_cache" where
  "serve c cache = Heartbeat (hc_platform c) (hc_request c) (hc_lighthouse c) (hc_auth c) (hc_body c) (hc_server c, cache)"

definition cache_after :: "heartbeat_call list \<Rightarrow> endpoint_cache" where
  "cache_after calls = foldl (\<lambda>cache c. snd (snd (serve c cache))) [] calls"

text \<open>The node for which a call was accepted, and what it said about its endpoints.\<close>

definition caller_of :: "heartbeat_call \<Rightarrow> Node option" where
  "caller_of c =
     (case authenticate_agent (hc_platform c) (hc_request c) (hc_auth c) (map_option hb_node_id (hc_body c)) (hc_server c) of
        Inl refusal \<Rightarrow> None | Inr node \<Rightarrow> Some node)"

definition said :: "string \<Rightarrow> heartbeat_call \<Rightarrow> (string list \<times> int list) option" where
  "said ident c =
     (case (caller_of c, hc_body c) of
        (Some node, Some b) \<Rightarrow>
          if nd_id node = ident then map_option (\<lambda>es. (es, hq_lifetimes b)) (hq_endpoints b) else None
      | _ \<Rightarrow> None)"

lemma authenticate_agent_Inr:
  assumes "authenticate_agent P e hdr bn s = Inr node"
  shows "bn = Some (nd_id node) \<and> TrimPrefix hdr ''Bearer '' = nd_agent_token node
    \<and> NodeStore_Get (aead P) (encryptor P) (attempts e ''Nodes.Get'') (nd_id node) (sv_nodes s) = Inr (Some node)"
proof -
  obtain ident where "bn = Some ident" "TrimPrefix hdr ''Bearer '' = nd_agent_token node"
      "NodeStore_Get (aead P) (encryptor P) (attempts e ''Nodes.Get'') ident (sv_nodes s) = Inr (Some node)"
    using assms by (auto simp: authenticate_agent_def Let_def split: if_splits option.splits sum.splits)
  moreover from this(3) have "nd_id node = ident" using node_check by blast
  ultimately show ?thesis by simp
qed

lemma serve_cache:
  "snd (snd (serve c cache)) =
     (case (caller_of c, hc_body c) of
        (Some node, Some b) \<Rightarrow> note_endpoints (nanos (hc_request c) 0) b (nd_id node) cache
      | _ \<Rightarrow> cache)"
  by (auto simp: serve_def Heartbeat_def caller_of_def Let_def split: sum.splits option.splits prod.splits)

lemma note_endpoints_lookup:
  "map_of (note_endpoints now b n cache) p =
     (case hq_endpoints b of
        None \<Rightarrow> map_of cache p
      | Some es \<Rightarrow> if n \<noteq> p then map_of cache p
                   else if es = [] then None else Some (endpoint_hints now es (hq_lifetimes b)))"
  by (auto simp: note_endpoints_def update_conv' delete_conv' split: option.splits)

lemma cache_after_lookup:
  "map_of (cache_after calls) p =
     (case find (\<lambda>c. said p c \<noteq> None) (rev calls) of
        None \<Rightarrow> None
      | Some c \<Rightarrow> (case said p c of
            None \<Rightarrow> None
          | Some (es, ls) \<Rightarrow> if es = [] then None else Some (endpoint_hints (nanos (hc_request c) 0) es ls)))"
proof (induction calls rule: rev_induct)
  case Nil
  then show ?case by (simp add: cache_after_def)
next
  case (snoc c calls)
  have "cache_after (calls @ [c]) = snd (snd (serve c (cache_after calls)))" by (simp add: cache_after_def)
  then show ?case
    using snoc by (auto simp: serve_cache said_def note_endpoints_lookup split: option.splits)
qed

section \<open>Whose endpoints a heartbeat hands out\<close>

lemma endpoint_lease_bound:
  "endpoint_lease ls i \<le> selfEndpointHintTTL"
  "i < length ls \<Longrightarrow> 0 < ls ! i \<Longrightarrow> ls ! i < 2 ^ 34 \<Longrightarrow> endpoint_lease ls i \<le> ls ! i div 2 * 1000000000"
proof -
  show "endpoint_lease ls i \<le> selfEndpointHintTTL" by (simp add: endpoint_lease_def Let_def)
next
  assume i: "i < length ls" "0 < ls ! i" "ls ! i < 2 ^ 34"
  then have "0 \<le> ls ! i div 2 * 1000000000 \<and> ls ! i div 2 * 1000000000 < 2 ^ 63" by simp
  then have "wrap64 (ls ! i div 2 * 1000000000) = ls ! i div 2 * 1000000000" by (simp add: wrap64_def)
  then show "endpoint_lease ls i \<le> ls ! i div 2 * 1000000000" using i by (simp add: endpoint_lease_def Let_def)
qed

lemma update_entries: "(k, v) \<in> set (AList.update k' v' xs) \<Longrightarrow> (k, v) = (k', v') \<or> (k, v) \<in> set xs"
  by (induction xs) (auto split: if_splits)

definition lighthouse_knows :: "(addr \<Rightarrow> addr_port option list) option \<Rightarrow> string \<Rightarrow> addr_port option list" where
  "lighthouse_knows lighthouse ip =
     (case lighthouse of None \<Rightarrow> [] | Some f \<Rightarrow> (case netip_ParseAddr ip of None \<Rightarrow> [] | Some vpn \<Rightarrow> f vpn))"

lemma add_peers_endpoints:
  assumes "(ip, eps) \<in> set (hr_endpoints (foldl (add_peer customs lh cache now now_ns node) resp peers))"
  shows "(ip, eps) \<in> set (hr_endpoints resp) \<or> (\<exists>p \<in> set peers. reachable_peer now node p \<and> ip = TrimSuffix (nd_ip p) ''/24''
           \<and> eps = mergePeerEndpoints (lighthouse_knows lh ip) (map_of cache (nd_id p)) now_ns)"
  using assms
proof (induction peers arbitrary: resp)
  case (Cons p peers)
  let ?r = "add_peer customs lh cache now now_ns node resp p"
  have "(ip, eps) \<in> set (hr_endpoints resp) \<or> (reachable_peer now node p \<and> ip = TrimSuffix (nd_ip p) ''/24''
           \<and> eps = mergePeerEndpoints (lighthouse_knows lh ip) (map_of cache (nd_id p)) now_ns)"
    if "(ip, eps) \<in> set (hr_endpoints ?r)"
    using that by (auto simp: add_peer_def Let_def lighthouse_knows_def split: if_splits dest!: update_entries)
  then show ?case using Cons.IH [of ?r] Cons.prems by auto
qed simp

text \<open>A heartbeat leaves the identity, the network and the routes of every node alone.\<close>

abbreviation row_key :: "NodeRow \<Rightarrow> string \<times> string \<times> string option" where
  "row_key r \<equiv> (d_id r, d_network_id r, d_routes r)"

lemma SetClientType_rows: "map row_key (snd (SetClientType fault n c t)) = map row_key t"
  by (auto simp: SetClientType_def exec_def update_where_def split: option.splits)

lemma note_heartbeat_rows: "map row_key (sv_nodes (note_heartbeat P e b node s)) = map row_key (sv_nodes s)"
proof -
  have "sv_nodes (note_heartbeat P e b node s) =
      (case hq_client_type b of None \<Rightarrow> sv_nodes s
       | Some c \<Rightarrow> snd (SetClientType (fails e ''Nodes.SetClientType'') (nd_id node) (TrimSpace c) (sv_nodes s)))"
    by (auto simp: note_heartbeat_def Let_def RecordHeartbeat_def StatusTransition_def with_nodes_def emit_def Record_def
        split: option.splits prod.splits if_splits)
  then show ?thesis by (auto simp: SetClientType_rows split: option.splits)
qed

lemma listed_node:
  assumes "NodeStore_ListForNetwork fault n t = Inr ns" "p \<in> set ns"
  shows "(nd_id p, n) \<in> (\<lambda>r. (d_id r, d_network_id r)) ` set t"
proof -
  have "nd_id ` set ns \<subseteq> d_id ` {r \<in> set t. d_network_id r = n}"
    using assms(1)
    by (cases fault) (auto simp: NodeStore_ListForNetwork_def ListNodesForNetwork_def query_many_def select_many_def order_by_def)
  then have "nd_id p \<in> d_id ` {r \<in> set t. d_network_id r = n}" using assms(2) by blast
  then show ?thesis by force
qed

lemma add_peer_network [simp]: "hr_network_id (add_peer customs lh cache now now_ns node resp p) = hr_network_id resp"
  by (simp add: add_peer_def Let_def)

lemma add_peers_network [simp]:
  "hr_network_id (foldl (add_peer customs lh cache now now_ns node) resp peers) = hr_network_id resp"
  by (induction peers arbitrary: resp) auto

lemma Heartbeat_Reply:
  assumes "Heartbeat P e lh hdr body (s, cache) = (Reply code resp, s', cache')"
  obtains node b peers where "authenticate_agent P e hdr (map_option hb_node_id body) s = Inr node" "body = Some b"
    "s' = note_heartbeat P e b node s" "cache' = note_endpoints (nanos e 0) b (nd_id node) cache"
    "\<And>p. p \<in> set peers \<Longrightarrow> (nd_id p, nd_network_id node) \<in> (\<lambda>r. (d_id r, d_network_id r)) ` set (sv_nodes s)"
    "hr_network_id resp = nd_network_id node"
    "hr_endpoints resp = hr_endpoints (foldl (add_peer (custom_dns P e (nd_network_id node) s') lh cache' (clock e 2) (nanos e 1) node)
         \<lparr>hr_network_id = nd_network_id node, hr_peers = [], hr_relays = [], hr_endpoints = [], hr_info = [],
          hr_am_relay = False, hr_routes = []\<rparr> peers)"
    "hr_routes resp = (case GetRoutes (fails e ''Nodes.GetRoutes'') (nd_id node) (sv_nodes s') of
       Inl err \<Rightarrow> [] | Inr rs \<Rightarrow> map Route rs)"
proof -
  obtain node b where nb: "authenticate_agent P e hdr (map_option hb_node_id body) s = Inr node" "body = Some b"
    using assms by (auto simp: Heartbeat_def split: sum.splits option.splits prod.splits)
  let ?s = "note_heartbeat P e b node s"
  define peers where "peers = (case NodeStore_ListForNetwork (fails e ''Nodes.ListForNetwork'') (nd_network_id node) (sv_nodes ?s) of
                           Inl err \<Rightarrow> [] | Inr ns \<Rightarrow> ns)"
  have "(\<lambda>(i, n, r). (i, n)) ` set (map row_key (sv_nodes ?s)) = (\<lambda>(i, n, r). (i, n)) ` set (map row_key (sv_nodes s))"
    by (simp only: note_heartbeat_rows)
  then have rows: "(\<lambda>r. (d_id r, d_network_id r)) ` set (sv_nodes ?s) = (\<lambda>r. (d_id r, d_network_id r)) ` set (sv_nodes s)"
    by (simp add: image_image)
  have "(nd_id p, nd_network_id node) \<in> (\<lambda>r. (d_id r, d_network_id r)) ` set (sv_nodes s)" if "p \<in> set peers" for p
  proof (cases "NodeStore_ListForNetwork (fails e ''Nodes.ListForNetwork'') (nd_network_id node) (sv_nodes ?s)")
    case (Inr ns)
    then show ?thesis using that listed_node [OF Inr] unfolding rows [symmetric] by (simp add: peers_def)
  qed (use that in \<open>simp add: peers_def\<close>)
  then show thesis
    using assms nb by (intro that [of node b peers]) (auto simp: Heartbeat_def Let_def peers_def)
qed


text \<open>Two nodes of one network: the second one reports an endpoint.\<close>

definition sample_pair :: nodes where
  "sample_pair =
     (let add = (\<lambda>ident ip t. snd (NodeStore_Create (\<lambda>s. s) plain_gcm (encryptor sample_platform) (Inr ''abcdefghijkl'')
                   (Inr ''abcdefghijkl'') None 5 (sample_node\<lparr>nd_id := ident, nd_ip := ip, nd_enroll_token := None\<rparr>) t))
      in map (\<lambda>r. r\<lparr>d_last_seen := Some 900\<rparr>) (add ''node-bbb'' ''10.42.1.3/24'' (add ''node-aaa'' ''10.42.1.2/24'' [])))"

definition sample_call :: "string \<Rightarrow> string list option \<Rightarrow> heartbeat_call" where
  "sample_call ident endpoints =
     \<lparr>hc_platform = sample_platform, hc_request = sample_request, hc_lighthouse = None, hc_auth = ''Bearer agent'',
      hc_body = Some \<lparr>hb_node_id = ident, hq_peers_direct = Some 0, hq_peers_relayed = None, hq_peers = None,
        hq_agent_version = None, hq_client_type = None, hq_endpoints = endpoints, hq_lifetimes = []\<rparr>,
      hc_server = with_nodes sample_pair empty_server\<rparr>"


section \<open>Routes reach the agent\<close>

lemma find_key: "map_option key (find (\<lambda>r. P (key r)) t) = find P (map key t)"
  by (induction t) auto

lemma GetRoutes_rows:
  assumes "map row_key t = map row_key t'"
  shows "GetRoutes fault ident t = GetRoutes fault ident t'"
proof -
  have "map_option row_key (find (\<lambda>r. d_id r = ident) u) = find (\<lambda>k. fst k = ident) (map row_key u)" for u
    using find_key [of row_key "\<lambda>k. fst k = ident" u] by simp
  then have "map_option row_key (find (\<lambda>r. d_id r = ident) t) = map_option row_key (find (\<lambda>r. d_id r = ident) t')"
    using assms by simp
  then have "GetNodeRoutes fault ident t = GetNodeRoutes fault ident t'"
    by (auto simp: GetNodeRoutes_def query_one_def select_one_def split: option.splits)
  then show ?thesis by (simp add: GetRoutes_def)
qed

lemma UpdateRoutes_Reply:
  assumes "UpdateRoutes_handler P e user networkID nodeID body s = (Reply code cleaned, s')"
  obtains routes fault where "body = Some routes" "clean_routes routes [] = Inr cleaned"
    "NodeStore_UpdateRoutes fault nodeID (map (\<lambda>r. \<lparr>Route = r\<rparr>) cleaned) (sv_nodes s) = (None, sv_nodes s')"
    "may_admin (p_id user) networkID (sv_networks s) (sv_members s)" "node_in networkID nodeID (sv_nodes s)"
proof -
  obtain network node where req: "requireAdmin (attempts e) user networkID nodeID (server_directory P s) = Inr (network, node)"
    using assms by (auto simp: UpdateRoutes_handler_def administer_def split: sum.splits if_splits)
  have a: "may_admin (p_id user) networkID (sv_networks s) (sv_members s)" "node_in networkID nodeID (sv_nodes s)"
      "nd_id node = nodeID"
    using requireAdmin_Inr [OF req] by (auto simp: server_directory_def)
  obtain routes where "body = Some routes" "clean_routes routes [] = Inr cleaned"
      "NodeStore_UpdateRoutes (fails e ''Nodes.UpdateRoutes'') (nd_id node) (map (\<lambda>r. \<lparr>Route = r\<rparr>) cleaned) (sv_nodes s)
         = (None, sv_nodes s')"
    using assms req
    by (auto simp: UpdateRoutes_handler_def administer_def Let_def split: option.splits sum.splits prod.splits)
  then show thesis using that a by simp
qed

text \<open>
  Routes reach the agent. When \<open>UpdateRoutes\<close> is answered with 200, the caller may administer
  the network and the node belongs to it, and the routes that the next accepted heartbeat of this
  node brings back are exactly the ones of the answer: each once, and each the canonical form of a
  requested prefix that is no default route and does not start at a loopback, link-local or multicast
  address; no such request was dropped.
\<close>

theorem routes_reach_agent:
  assumes upd: "UpdateRoutes_handler P e user networkID nodeID (Some routes) s = (Reply code cleaned, s')"
    and hb: "Heartbeat P' e' lh hdr (Some b) (s', cache) = (Reply code' resp, st')"
    and same: "hb_node_id b = nodeID" and read: "fails e' ''Nodes.GetRoutes'' = None"
  shows "hr_routes resp = cleaned \<and> distinct cleaned \<and> set cleaned = requested_routes routes
       \<and> may_admin (p_id user) networkID (sv_networks s) (sv_members s) \<and> node_in networkID nodeID (sv_nodes s)"
proof -
  obtain fault where u: "clean_routes routes [] = Inr cleaned"
      "NodeStore_UpdateRoutes fault nodeID (map (\<lambda>r. \<lparr>Route = r\<rparr>) cleaned) (sv_nodes s) = (None, sv_nodes s')"
      "may_admin (p_id user) networkID (sv_networks s) (sv_members s)" "node_in networkID nodeID (sv_nodes s)"
    by (rule UpdateRoutes_Reply [OF upd]) blast
  obtain s'' cache'' where st': "st' = (s'', cache'')" by fastforce
  obtain node where n: "authenticate_agent P' e' hdr (Some (hb_node_id b)) s' = Inr node" "s'' = note_heartbeat P' e' b node s'"
      "hr_routes resp = (case GetRoutes (fails e' ''Nodes.GetRoutes'') (nd_id node) (sv_nodes s'') of
         Inl err \<Rightarrow> [] | Inr rs \<Rightarrow> map Route rs)"
    by (rule Heartbeat_Reply [OF hb [unfolded st']]) simp
  have "nd_id node = nodeID" using authenticate_agent_Inr [OF n(1)] same by simp
  moreover have "nodeID \<in> d_id ` set (sv_nodes s)" using u(4) by (auto simp: node_in_def)
  then have "GetRoutes None nodeID (sv_nodes s'') = Inr (map (\<lambda>r. \<lparr>Route = r\<rparr>) cleaned)"
    using GetRoutes_rows [OF note_heartbeat_rows] UpdateRoutes_GetRoutes [OF u(2)] n(2) by simp
  ultimately have "hr_routes resp = cleaned" using n(3) read by (simp add: comp_def)
  then show ?thesis using clean_routes_Inr [OF u(1)] u by simp
qed

theorem routes_reach_agent_witness:
  "\<exists>s' resp st'. UpdateRoutes_handler sample_platform sample_request sample_user ''n1'' ''node-aaa'' (Some [''10.7.5.0/16'', ''10.7.0.0/16''])
       (with_nodes sample_pair (empty_server\<lparr>sv_networks := sample_networks\<rparr>)) = (Reply 200 [''10.7.0.0/16''], s')
     \<and> Heartbeat sample_platform sample_request None ''Bearer agent'' (hc_body (sample_call ''node-aaa'' None)) (s', []) = (Reply 200 resp, st')
     \<and> hr_routes resp = [''10.7.0.0/16'']"
proof -
  let ?s = "with_nodes sample_pair (empty_server\<lparr>sv_networks := sample_networks\<rparr>)"
  let ?u = "UpdateRoutes_handler sample_platform sample_request sample_user ''n1'' ''node-aaa'' (Some [''10.7.5.0/16'', ''10.7.0.0/16'']) ?s"
  have "fst ?u = Reply 200 [''10.7.0.0/16'']" by code_simp
  then obtain s' where u: "?u = (Reply 200 [''10.7.0.0/16''], s')" by (metis prod.collapse)
  have "case Heartbeat sample_platform sample_request None ''Bearer agent'' (hc_body (sample_call ''node-aaa'' None)) (snd ?u, []) of
      (Reply code resp, _) \<Rightarrow> code = 200 | _ \<Rightarrow> False"
    by code_simp
  then obtain resp st' where h: "Heartbeat sample_platform sample_request None ''Bearer agent''
      (hc_body (sample_call ''node-aaa'' None)) (s', []) = (Reply 200 resp, st')"
    unfolding u by (auto split: prod.splits http.splits)
  obtain b where b: "hc_body (sample_call ''node-aaa'' None) = Some b" "hb_node_id b = ''node-aaa''"
    by (simp add: sample_call_def)
  have "fails sample_request ''Nodes.GetRoutes'' = None" by (simp add: sample_request_def)
  then show ?thesis using routes_reach_agent [OF u h [unfolded b(1)] b(2)] u h by blast
qed

end
