(* ===== verification/PortProtocols.thy ===== *)
theory PortProtocols
  imports NetAddr
begin

unbundle bit_operations_syntax

text \<open>
  The protocols with which the agent asks its router for a UDP port (src/internal/portmap): NAT-PMP
  (natpmp.go), PCP (pcp.go), UPnP (upnp.go, upnp_device.go) and the discovery of the gateway
  (gateway.go). Messages are lists of bytes, ports are 16-bit words. What happens on the wire is an argument:
  \<open>link\<close> gives, per attempt, the state of the context, the outcome of the write and the datagram that
  arrives within the waiting time. Durations are nanoseconds.
\<close>

type_synonym bytes = "8 word list"
type_synonym port = "16 word"

section \<open>Big-endian fields\<close>

definition put16 :: "16 word \<Rightarrow> bytes" where
  "put16 w = [ucast (drop_bit 8 w), ucast w]"

definition put32 :: "32 word \<Rightarrow> bytes" where
  "put32 w = [ucast (drop_bit 24 w), ucast (drop_bit 16 w), ucast (drop_bit 8 w), ucast w]"

definition get16 :: "bytes \<Rightarrow> 16 word" where
  "get16 bs = foldl (\<lambda>acc b. push_bit 8 acc OR ucast b) 0 bs"

definition get32 :: "bytes \<Rightarrow> 32 word" where
  "get32 bs = foldl (\<lambda>acc b. push_bit 8 acc OR ucast b) 0 bs"

text \<open>\<open>b[i:j]\<close>.\<close>

definition slice :: "nat \<Rightarrow> nat \<Rightarrow> 'a list \<Rightarrow> 'a list" where
  "slice i j xs = take (j - i) (drop i xs)"

definition seconds :: "32 word \<Rightarrow> int" where
  "seconds w = uint w * 1000000000"

definition byte_hex :: "8 word \<Rightarrow> string" where
  "byte_hex b = hex_byte (char_of (unat b))"

definition dash :: string where
  "dash = [CHR 0xE2, CHR 0x80, CHR 0x94]"

definition addr_text :: "addr option \<Rightarrow> string" where
  "addr_text a = (case a of None \<Rightarrow> ''invalid IP'' | Some x \<Rightarrow> netip_String x)"

definition IsUnspecified :: "addr \<Rightarrow> bool" where
  "IsUnspecified a = (case a of A4 q \<Rightarrow> q = (0, 0, 0, 0) | A6 b z \<Rightarrow> z = [] \<and> b = replicate 16 (CHR 0x00))"

fun quad :: "bytes \<Rightarrow> ipv4" where
  "quad [a, b, c, d] = (a, b, c, d)"
| "quad bs = (0, 0, 0, 0)"

section \<open>NAT-PMP\<close>

record link =
  l_dial :: "go_error option"
  l_ctx :: "nat \<Rightarrow> go_error option"
  l_write :: "nat \<Rightarrow> go_error option"
  l_reply :: "bytes \<Rightarrow> nat \<Rightarrow> int \<Rightarrow> bytes option"

text \<open>\<open>n\<close> attempts are left, \<open>k\<close> were made; \<open>backoff\<close> bounds the wait for the reply.\<close>

fun natpmp_attempts :: "link \<Rightarrow> bytes \<Rightarrow> addr option \<Rightarrow> nat \<Rightarrow> nat \<Rightarrow> nat \<Rightarrow> int \<Rightarrow> bytes res" where
  "natpmp_attempts l req gw respLen 0 k backoff =
     Inl (ErrMsg (''natpmp: no response from gateway '' @ addr_text gw @ '' after 9 attempts''))"
| "natpmp_attempts l req gw respLen (Suc n) k backoff =
     (case l_ctx l k of
        Some err \<Rightarrow> Inl err
      | None \<Rightarrow>
          (case l_write l k of
             Some err \<Rightarrow> Inl (ErrWrap ''natpmp: write'' err)
           | None \<Rightarrow>
               (case l_reply l req k backoff of
                  Some r \<Rightarrow> if respLen \<le> length r then Inr (take respLen r)
                            else natpmp_attempts l req gw respLen n (Suc k) (2 * backoff)
                | None \<Rightarrow> natpmp_attempts l req gw respLen n (Suc k) (2 * backoff))))"

definition roundTrip :: "link \<Rightarrow> bytes \<Rightarrow> addr option \<Rightarrow> nat \<Rightarrow> bytes res" where
  "roundTrip l req gw respLen =
     (case l_dial l of
        Some err \<Rightarrow> Inl (ErrWrap ''natpmp: dial'' err)
      | None \<Rightarrow> natpmp_attempts l req gw respLen 9 0 250000000)"

definition resultCodeError :: "string \<Rightarrow> 16 word \<Rightarrow> go_error" where
  "resultCodeError op rc =
     ErrMsg (if rc = 1 then ''natpmp '' @ op @ '': unsupported version (rc=1) '' @ dash @ '' gateway speaks a different protocol''
       else if rc = 2 then ''natpmp '' @ op @ '': not authorized (rc=2) '' @ dash @ '' mapping disabled on gateway''
       else if rc = 3 then ''natpmp '' @ op @ '': network failure (rc=3)''
       else if rc = 4 then ''natpmp '' @ op @ '': out of resources (rc=4) '' @ dash @ '' gateway mapping table full''
       else if rc = 5 then ''natpmp '' @ op @ '': unsupported opcode (rc=5)''
       else ''natpmp '' @ op @ '': result code '' @ itoa (unat rc))"

definition natpmpLifetimeRequest :: "32 word" where
  "natpmpLifetimeRequest = 7200"

definition external_request :: bytes where
  "external_request = [0, 0]"

definition map_request :: "port \<Rightarrow> port \<Rightarrow> 32 word \<Rightarrow> bytes" where
  "map_request internal external lifetime = [0, 1, 0, 0] @ put16 internal @ put16 external @ put32 lifetime"

definition external_response :: "bytes \<Rightarrow> addr res" where
  "external_response resp =
     (if resp ! 0 \<noteq> 0 then Inl (ErrMsg (''natpmp: unsupported version '' @ itoa (unat (resp ! 0)) @ '' in response''))
      else if resp ! 1 \<noteq> 0x80 then Inl (ErrMsg (''natpmp: unexpected opcode 0x'' @ byte_hex (resp ! 1)))
      else if get16 (slice 2 4 resp) \<noteq> 0 then Inl (resultCodeError ''external-address'' (get16 (slice 2 4 resp)))
      else let a = A4 (quad (slice 8 12 resp)) in
        if IsUnspecified a then Inl (ErrMsg ''natpmp: router reported 0.0.0.0 as external IP (likely double-NAT)'')
        else Inr a)"

definition map_response :: "port \<Rightarrow> bytes \<Rightarrow> (port \<times> int) res" where
  "map_response internalPort resp =
     (if resp ! 0 \<noteq> 0 then Inl (ErrMsg (''natpmp: unsupported version '' @ itoa (unat (resp ! 0)) @ '' in map response''))
      else if resp ! 1 \<noteq> 0x81 then Inl (ErrMsg (''natpmp: unexpected map opcode 0x'' @ byte_hex (resp ! 1)))
      else if get16 (slice 2 4 resp) \<noteq> 0 then Inl (resultCodeError ''map'' (get16 (slice 2 4 resp)))
      else if get16 (slice 8 10 resp) \<noteq> internalPort
      then Inl (ErrMsg (''natpmp: response internal port '' @ itoa (unat (get16 (slice 8 10 resp)))
                          @ '' does not match request '' @ itoa (unat internalPort)))
      else let ext = get16 (slice 10 12 resp) in
        if ext = 0 then Inl (ErrMsg ''natpmp: router returned 0 as external port'')
        else Inr (ext, seconds (get32 (slice 12 16 resp))))"

definition queryExternalAddr :: "link \<Rightarrow> addr option \<Rightarrow> addr res" where
  "queryExternalAddr l gw = (case roundTrip l external_request gw 12 of Inl err \<Rightarrow> Inl err | Inr resp \<Rightarrow> external_response resp)"

definition requestMap :: "link \<Rightarrow> addr option \<Rightarrow> port \<Rightarrow> (port \<times> int) res" where
  "requestMap l gw internalPort =
     (case roundTrip l (map_request internalPort internalPort natpmpLifetimeRequest) gw 16 of Inl err \<Rightarrow> Inl err | Inr resp \<Rightarrow> map_response internalPort resp)"

definition natpmpLifetimeFallback :: int where
  "natpmpLifetimeFallback = 60 * 60 * 1000000000"

text \<open>\<open>links\<close> are the two exchanges: the query of the address and the request of the mapping.\<close>

definition NATPMP_Map :: "link \<times> link \<Rightarrow> addr option \<Rightarrow> port \<Rightarrow> ((addr \<times> port) \<times> int) res" where
  "NATPMP_Map links gateway internalPort =
     (case gateway of
        Some (A4 q) \<Rightarrow>
          (case queryExternalAddr (fst links) gateway of
             Inl err \<Rightarrow> Inl err
           | Inr pub \<Rightarrow>
               (case requestMap (snd links) gateway internalPort of
                  Inl err \<Rightarrow> Inl err
                | Inr (ext, ttl) \<Rightarrow> Inr ((pub, ext), if ttl = 0 then natpmpLifetimeFallback else ttl)))
      | _ \<Rightarrow> Inl (ErrMsg (''natpmp: invalid IPv4 gateway '' @ addr_text gateway)))"

definition NATPMP_Unmap :: "link \<Rightarrow> addr option \<Rightarrow> port \<Rightarrow> go_error option" where
  "NATPMP_Unmap l gw internalPort = 
     (case roundTrip l (map_request internalPort 0 0) gw 16 of Inl err \<Rightarrow> Some err | Inr resp \<Rightarrow> None)"

section \<open>PCP\<close>

definition ipv4MappedIPv6 :: "addr \<Rightarrow> bytes" where
  "ipv4MappedIPv6 a =
     replicate 10 0 @ [0xFF, 0xFF] @ (case a of A4 (p, q, r, s) \<Rightarrow> [p, q, r, s] | A6 b z \<Rightarrow> replicate 4 0)"

definition buildPCPMapRequest :: "port \<Rightarrow> addr \<Rightarrow> bytes \<Rightarrow> 32 word \<Rightarrow> bytes" where
  "buildPCPMapRequest internalPort clientIPv4 nonce lifetime =
     [2, 1, 0, 0] @ put32 lifetime @ ipv4MappedIPv6 clientIPv4 @ nonce @ [17, 0, 0, 0] @ put16 internalPort
       @ put16 internalPort @ replicate 16 0"

definition pcpResultCodeError :: "8 word \<Rightarrow> go_error" where
  "pcpResultCodeError rc =
     ErrMsg (if rc = 1 then ''pcp: unsupported version (rc=1) '' @ dash @ '' gateway speaks NAT-PMP, not PCP''
       else if rc = 2 then ''pcp: not authorized (rc=2)''
       else if rc = 3 then ''pcp: malformed request (rc=3)''
       else ''pcp: result code '' @ itoa (unat rc))"

definition pcpExtractIPv4FromIPv6 :: "bytes \<Rightarrow> addr res" where
  "pcpExtractIPv4FromIPv6 b =
     (if length b \<noteq> 16 then Inl (ErrMsg (''pcp: expected 16-byte IP, got '' @ itoa (length b)))
      else case find (\<lambda>i. b ! i \<noteq> 0) [0..<10] of
        Some i \<Rightarrow> Inl (ErrMsg (''pcp: external IP not IPv4-mapped (byte '' @ itoa i @ '' = 0x'' @ byte_hex (b ! i) @ '')''))
      | None \<Rightarrow>
          if b ! 10 \<noteq> 0xFF \<or> b ! 11 \<noteq> 0xFF then Inl (ErrMsg ''pcp: external IP not IPv4-mapped (missing 0xffff)'')
          else let a = A4 (quad (slice 12 16 b)) in
            if IsUnspecified a then Inl (ErrMsg ''pcp: router reported 0.0.0.0 as external IP (likely double-NAT)'')
            else Inr a)"

record pcpMapResponse =
  externalIP :: addr
  externalPort :: port
  granted :: "32 word"

definition parsePCPMapResponse :: "bytes \<Rightarrow> bytes \<Rightarrow> pcpMapResponse res" where
  "parsePCPMapResponse resp expectedNonce =
     (if length resp < 60
      then Inl (ErrMsg (''pcp: response too short ('' @ itoa (length resp) @ '' bytes, expected at least 60)''))
      else if resp ! 0 \<noteq> 2 then Inl (ErrMsg (''pcp: unsupported version '' @ itoa (unat (resp ! 0)) @ '' in response''))
      else if resp ! 1 AND 0x80 = 0 then Inl (ErrMsg ''pcp: response missing R bit'')
      else if resp ! 1 AND 0x7F \<noteq> 1 then Inl (ErrMsg (''pcp: unexpected opcode 0x'' @ byte_hex (resp ! 1) @ '' in response''))
      else if resp ! 3 \<noteq> 0 then Inl (pcpResultCodeError (resp ! 3))
      else if slice 24 36 resp \<noteq> expectedNonce then Inl (ErrMsg ''pcp: response nonce does not match request'')
      else if resp ! 36 \<noteq> 17 then Inl (ErrMsg (''pcp: response protocol '' @ itoa (unat (resp ! 36)) @ '' != UDP''))
      else if get16 (slice 42 44 resp) = 0 then Inl (ErrMsg ''pcp: router returned external port 0'')
      else case pcpExtractIPv4FromIPv6 (slice 44 60 resp) of
        Inl err \<Rightarrow> Inl err
      | Inr ip \<Rightarrow> Inr \<lparr>externalIP = ip, externalPort = get16 (slice 42 44 resp), granted = get32 (slice 4 8 resp)\<rparr>)"

text \<open>\<open>clientIP\<close> is the outcome of \<open>localIPv4Toward\<close>, \<open>nonce\<close> that of reading 12 random bytes.\<close>

definition PCP_Map :: "link \<Rightarrow> addr res \<Rightarrow> bytes res \<Rightarrow> addr option \<Rightarrow> port \<Rightarrow> ((addr \<times> port) \<times> int) res" where
  "PCP_Map l clientIP nonce gateway internalPort =
     (case gateway of
        Some (A4 q) \<Rightarrow>
          (case clientIP of
             Inl err \<Rightarrow> Inl err
           | Inr ip \<Rightarrow>
               (case nonce of
                  Inl err \<Rightarrow> Inl (ErrWrap ''pcp: random nonce'' err)
                | Inr n \<Rightarrow>
                    (case roundTrip l (buildPCPMapRequest internalPort ip n 7200) gateway 60 of
                       Inl err \<Rightarrow> Inl err
                     | Inr resp \<Rightarrow>
                         (case parsePCPMapResponse resp n of
                            Inl err \<Rightarrow> Inl err
                          | Inr p \<Rightarrow> Inr ((externalIP p, externalPort p), seconds (granted p))))))
      | _ \<Rightarrow> Inl (ErrMsg (''pcp: invalid IPv4 gateway '' @ addr_text gateway)))"

text \<open>\<open>nonce\<close> are the bytes that are there whether or not reading random bytes failed.\<close>

definition PCP_Unmap :: "link \<Rightarrow> addr res \<Rightarrow> bytes \<Rightarrow> addr option \<Rightarrow> port \<Rightarrow> go_error option" where
  "PCP_Unmap l clientIP nonce gateway internalPort =
     (case clientIP of
        Inl err \<Rightarrow> Some err
      | Inr ip \<Rightarrow> (case roundTrip l (buildPCPMapRequest internalPort ip nonce 0) gateway 60 of Inl err \<Rightarrow> Some err | Inr resp \<Rightarrow> None))"

section \<open>UPnP\<close>

text \<open>
  The description of a device, as \<open>encoding/xml\<close> decodes it; the SOAP calls and the fetching of a description
  are arguments with their outcomes.
\<close>

record xmlService =
  ServiceType :: string
  ControlURL :: string

datatype xmlDevice = Device (services: "xmlService list") (devices: "xmlDevice list")

definition wanServiceTypes :: "string list" where
  "wanServiceTypes = [''urn:schemas-upnp-org:service:WANIPConnection:2'',
     ''urn:schemas-upnp-org:service:WANIPConnection:1'', ''urn:schemas-upnp-org:service:WANPPPConnection:1'']"

fun findServiceOfType :: "string \<Rightarrow> xmlDevice \<Rightarrow> xmlService option"
  and findInDevices :: "string \<Rightarrow> xmlDevice list \<Rightarrow> xmlService option" where
  "findServiceOfType ty (Device ss ds) =
     (case find (\<lambda>s. ServiceType s = ty) ss of Some s \<Rightarrow> Some s | None \<Rightarrow> findInDevices ty ds)"
| "findInDevices ty [] = None"
| "findInDevices ty (d # ds) = (case findServiceOfType ty d of Some s \<Rightarrow> Some s | None \<Rightarrow> findInDevices ty ds)"

fun first_some :: "('a \<Rightarrow> 'b option) \<Rightarrow> 'a list \<Rightarrow> 'b option" where
  "first_some f [] = None"
| "first_some f (x # xs) = (case f x of Some y \<Rightarrow> Some y | None \<Rightarrow> first_some f xs)"

definition findPreferredService :: "xmlDevice option \<Rightarrow> xmlService option" where
  "findPreferredService d =
     (case d of None \<Rightarrow> None | Some dev \<Rightarrow> first_some (\<lambda>want. findServiceOfType want dev) wanServiceTypes)"

definition isIGDST :: "string \<Rightarrow> bool" where
  "isIGDST st \<longleftrightarrow> st \<noteq> [] \<and> (Contains st ''InternetGatewayDevice'' \<or> Contains st ''WANIPConnection'' \<or> Contains st ''WANPPPConnection'')"

datatype soap_error = SoapFault int go_error | Transport go_error

record upnp_wire =
  w_discover :: "string list res"
  w_fetch :: "string \<Rightarrow> xmlService option res"
  w_local_ip :: "string \<Rightarrow> string res"
  w_add :: "string \<Rightarrow> 32 word \<Rightarrow> soap_error option"
  w_external_ip :: "string res"

text \<open>The loop over the replies: the first usable service, or the last error (\<open>None\<close> for a nil one).\<close>

fun try_replies :: "(string \<Rightarrow> xmlService option res) \<Rightarrow> string list \<Rightarrow> go_error option \<Rightarrow> xmlService res" where
  "try_replies fetch [] lastErr =
     Inl (case lastErr of None \<Rightarrow> ErrMsg ''upnp: no usable service among IGD replies'' | Some e \<Rightarrow> e)"
| "try_replies fetch (r # rs) lastErr =
     (case fetch r of
        Inr (Some svc) \<Rightarrow> Inr svc
      | Inr None \<Rightarrow> try_replies fetch rs None
      | Inl e \<Rightarrow> try_replies fetch rs (Some e))"

definition resolveService :: "upnp_wire \<Rightarrow> xmlService option \<Rightarrow> xmlService res \<times> xmlService option" where
  "resolveService w cached =
     (case cached of
        Some svc \<Rightarrow> (Inr svc, cached)
      | None \<Rightarrow>
          (case w_discover w of
             Inl err \<Rightarrow> (Inl err, None)
           | Inr replies \<Rightarrow>
               if replies = [] then (Inl (ErrMsg ''ssdp: no IGD found''), None)
               else case try_replies (w_fetch w) replies None of
                 Inl err \<Rightarrow> (Inl err, None)
               | Inr svc \<Rightarrow> (Inr svc, Some svc)))"

definition upnpErrOnlyPermanentLeases :: int where
  "upnpErrOnlyPermanentLeases = 725"

definition addMapping :: "upnp_wire \<Rightarrow> string \<Rightarrow> 32 word \<Rightarrow> go_error option" where
  "addMapping w clientIP lease =
     (let text = (\<lambda>e. case e of SoapFault c err \<Rightarrow> err | Transport err \<Rightarrow> err) in
      case w_add w clientIP lease of
        None \<Rightarrow> None
      | Some (Transport err) \<Rightarrow> Some err
      | Some (SoapFault c err) \<Rightarrow>
          if c = upnpErrOnlyPermanentLeases then map_option text (w_add w clientIP 0) else Some err)"

definition IsPrivate :: "addr \<Rightarrow> bool" where
  "IsPrivate a =
     (case Unmap a of
        Some (p, q, r, s) \<Rightarrow> p = 10 \<or> (p = 172 \<and> unat q div 16 = 1) \<or> (p = 192 \<and> q = 168)
      | None \<Rightarrow> first_group a div 512 = 126)"

definition UPnP_Map :: "upnp_wire \<Rightarrow> xmlService option \<Rightarrow> port \<Rightarrow> ((addr \<times> port) \<times> int) res \<times> xmlService option" where
  "UPnP_Map w cached internalPort =
     (case resolveService w cached of
        (Inl err, c) \<Rightarrow> (Inl err, c)
      | (Inr svc, c) \<Rightarrow>
          (case w_local_ip w (ControlURL svc) of
             Inl err \<Rightarrow> (Inl err, c)
           | Inr clientIP \<Rightarrow>
               (case addMapping w clientIP 7200 of
                  Some err \<Rightarrow> (Inl err, c)
                | None \<Rightarrow>
                    (case w_external_ip w of
                       Inl err \<Rightarrow> (Inl err, c)
                     | Inr pubIP \<Rightarrow>
                         (case netip_ParseAddr pubIP of
                            None \<Rightarrow> (Inl (ErrMsg (''upnp: parse public IP '' @ quoted pubIP)), c)
                          | Some a \<Rightarrow>
                              if IsUnspecified a \<or> IsLoopback a \<or> IsPrivate a
                              then (Inl (ErrMsg (''upnp: router reported non-public external IP '' @ netip_String a @ '' (likely double-NAT)'')), c)
                              else (Inr ((a, internalPort), seconds 7200), c))))))"

section \<open>The gateway\<close>

definition parseGatewayString :: "string \<Rightarrow> addr res" where
  "parseGatewayString s =
     (case netip_ParseAddr s of
        None \<Rightarrow> Inl (ErrMsg (''portmap: parse gateway '' @ quoted s))
      | Some (A6 b z) \<Rightarrow> Inl (ErrMsg (''portmap: gateway '' @ quoted s @ '' is not IPv4''))
      | Some (A4 q) \<Rightarrow>
          if IsUnspecified (A4 q) \<or> IsLoopback (A4 q) then Inl (ErrMsg (''portmap: gateway '' @ quoted s @ '' is not routable''))
          else Inr (A4 q))"

definition le_quad :: "string \<Rightarrow> ipv4 option" where
  "le_quad raw =
     (case map (\<lambda>c. of_nat (of_char c)) raw of [b0, b1, b2, b3] \<Rightarrow> Some (b3, b2, b1, b0) | _ \<Rightarrow> None)"

text \<open>\<open>hex_error\<close> is the error of \<open>hex.DecodeString\<close>, whose text is not looked at.\<close>

definition hex_error :: go_error where
  "hex_error = ErrMsg ''encoding/hex''"

definition parseLinuxGatewayHex :: "string \<Rightarrow> addr res" where
  "parseLinuxGatewayHex hexStr =
     (case DecodeString hexStr of
        None \<Rightarrow> Inl hex_error
      | Some raw \<Rightarrow>
          (case le_quad raw of
             None \<Rightarrow> Inl (ErrMsg (''expected 4 bytes, got '' @ itoa (length raw)))
           | Some q \<Rightarrow> Inr (A4 q)))"

text \<open>\<open>strings.Fields\<close>: the words between runs of white space.\<close>

fun fields_from :: "string \<Rightarrow> string \<Rightarrow> string list" where
  "fields_from [] w = (if w = [] then [] else [w])"
| "fields_from (c # s) w =
     (if is_space c then (if w = [] then fields_from s [] else w # fields_from s []) else fields_from s (w @ [c]))"

definition Fields :: "string \<Rightarrow> string list" where
  "Fields s = fields_from s []"

text \<open>The loop over the lines of \<open>/proc/net/route\<close> after the header.\<close>

fun default_route :: "string list \<Rightarrow> addr option" where
  "default_route [] = None"
| "default_route (l # ls) =
     (let fs = Fields l in
      if length fs < 8 \<or> fs ! 1 \<noteq> ''00000000'' then default_route ls
      else case DecodeString (fs ! 2) of
        None \<Rightarrow> default_route ls
      | Some raw \<Rightarrow>
          (case le_quad raw of
             None \<Rightarrow> default_route ls
           | Some q \<Rightarrow> if IsUnspecified (A4 q) then default_route ls else Some (A4 q)))"

definition discoverGatewayLinux :: "string list res \<Rightarrow> go_error option \<Rightarrow> addr res" where
  "discoverGatewayLinux file scanErr =
     (case file of
        Inl err \<Rightarrow> Inl (ErrWrap ''portmap: open /proc/net/route'' err)
      | Inr ls \<Rightarrow>
          (case default_route (drop 1 ls) of
             Some a \<Rightarrow> Inr a
           | None \<Rightarrow>
               (case scanErr of
                  Some err \<Rightarrow> Inl (ErrWrap ''portmap: scan /proc/net/route'' err)
                | None \<Rightarrow> Inl (ErrMsg ''portmap: no default route in /proc/net/route''))))"

section \<open>Facts about the fields\<close>

lemma put16_length [simp]: "length (put16 w) = 2"
  by (simp add: put16_def)

lemma put32_length [simp]: "length (put32 w) = 4"
  by (simp add: put32_def)

lemma get16_put16 [simp]: "get16 (put16 w) = w"
  unfolding get16_def put16_def by (rule bit_word_eqI) (auto simp: bit_simps)

lemma get32_put32 [simp]: "get32 (put32 w) = w"
proof -
  have "bit (get32 (put32 w)) n = bit w n" if "n < 32" for n
  proof -
    consider "n < 8" | "8 \<le> n" "n < 16" | "16 \<le> n" "n < 24" | "24 \<le> n" by linarith
    then show ?thesis using that by cases (auto simp: get32_def put32_def bit_simps)
  qed
  then show ?thesis by (intro bit_word_eqI) simp
qed

lemma mapped_length [simp]: "length (ipv4MappedIPv6 (A4 q)) = 16"
  by (cases q) (simp add: ipv4MappedIPv6_def)

lemma request_length:
  "length nonce = 12 \<Longrightarrow> length (buildPCPMapRequest p (A4 q) nonce l) = 60" "length (map_request a b l) = 12"
  by (simp_all add: buildPCPMapRequest_def map_request_def)

lemma extract_mapped:
  "pcpExtractIPv4FromIPv6 (ipv4MappedIPv6 (A4 q)) =
     (if q = (0, 0, 0, 0) then Inl (ErrMsg ''pcp: router reported 0.0.0.0 as external IP (likely double-NAT)'') else Inr (A4 q))"
proof (cases q)
  case (fields a b c d)
  have "find (\<lambda>i. ipv4MappedIPv6 (A4 q) ! i \<noteq> 0) [0..<10] = None"
    by (auto simp: find_None_iff ipv4MappedIPv6_def nth_append)
  then show ?thesis
    by (simp add: pcpExtractIPv4FromIPv6_def fields ipv4MappedIPv6_def slice_def IsUnspecified_def Let_def nth_append)
qed

section \<open>The interface of the protocols\<close>

text \<open>
  What the coordinator relies on: an address it is given can be told to peers. \<open>request\<close> is the method
  \<open>Map\<close> of the interface \<open>Client\<close>, applied to what the protocol finds on the wire.
\<close>

locale mapping_client =
  fixes request :: "'wire \<Rightarrow> port \<Rightarrow> ((addr \<times> port) \<times> int) res"
  assumes request_usable: "request w p = Inr ((a, q), ttl) \<Longrightarrow> \<not> IsUnspecified a \<and> (q \<noteq> 0 \<or> p = 0) \<and> 0 \<le> ttl"
begin

lemma request_specified: "request w p = Inr (ap, ttl) \<Longrightarrow> \<not> IsUnspecified (fst ap)"
  using request_usable by (cases ap) auto

lemma request_port: "request w p = Inr (ap, ttl) \<Longrightarrow> p \<noteq> 0 \<Longrightarrow> snd ap \<noteq> 0"
  using request_usable by (cases ap) auto

end

lemma seconds_nonneg [simp]: "0 \<le> seconds w"
  by (simp add: seconds_def)

lemma external_response_specified: "external_response r = Inr a \<Longrightarrow> \<not> IsUnspecified a"
  by (auto simp: external_response_def Let_def split: if_splits)

lemma map_response_port: "map_response p r = Inr (q, ttl) \<Longrightarrow> q \<noteq> 0 \<and> 0 \<le> ttl"
  by (auto simp: map_response_def Let_def split: if_splits)

lemma parsePCP_usable: "parsePCPMapResponse r n = Inr m \<Longrightarrow> \<not> IsUnspecified (externalIP m) \<and> externalPort m \<noteq> 0"
  by (auto simp: parsePCPMapResponse_def pcpExtractIPv4FromIPv6_def Let_def split: if_splits sum.splits option.splits)

interpretation natpmp: mapping_client "\<lambda>(links, gw). NATPMP_Map links gw"
proof
  fix w p a q ttl
  assume "(case w of (links, gw) \<Rightarrow> NATPMP_Map links gw) p = Inr ((a, q), ttl)"
  then show "\<not> IsUnspecified a \<and> (q \<noteq> 0 \<or> p = 0) \<and> 0 \<le> ttl"
    by (auto simp: NATPMP_Map_def queryExternalAddr_def requestMap_def natpmpLifetimeFallback_def
        split: prod.splits option.splits addr.splits sum.splits if_splits
        dest: external_response_specified map_response_port)
qed

interpretation pcp: mapping_client "\<lambda>(l, ip, nonce, gw). PCP_Map l ip nonce gw"
proof
  fix w p a q ttl
  assume "(case w of (l, ip, nonce, gw) \<Rightarrow> PCP_Map l ip nonce gw) p = Inr ((a, q), ttl)"
  then show "\<not> IsUnspecified a \<and> (q \<noteq> 0 \<or> p = 0) \<and> 0 \<le> ttl"
    by (auto simp: PCP_Map_def split: prod.splits option.splits addr.splits sum.splits if_splits dest!: parsePCP_usable)
qed

interpretation upnp: mapping_client "\<lambda>(w, cached) p. fst (UPnP_Map w cached p)"
proof
  fix w p a q ttl
  assume "(case w of (w, cached) \<Rightarrow> \<lambda>p. fst (UPnP_Map w cached p)) p = Inr ((a, q), ttl)"
  then show "\<not> IsUnspecified a \<and> (q \<noteq> 0 \<or> p = 0) \<and> 0 \<le> ttl"
    by (auto simp: UPnP_Map_def split: prod.splits option.splits sum.splits if_splits)
qed

section \<open>A router that follows the protocols\<close>

text \<open>The replies of RFC 6886 (sections 3.2 and 3.3) and of RFC 6887 (sections 7.2 and 11.1).\<close>

definition natpmp_external_reply :: "32 word \<Rightarrow> ipv4 \<Rightarrow> bytes" where
  "natpmp_external_reply epoch ip = [0, 0x80, 0, 0] @ put32 epoch @ (case ip of (a, b, c, d) \<Rightarrow> [a, b, c, d])"

definition natpmp_map_reply :: "bytes \<Rightarrow> 32 word \<Rightarrow> port \<Rightarrow> 32 word \<Rightarrow> bytes" where
  "natpmp_map_reply req epoch ext lifetime = [0, 0x81, 0, 0] @ put32 epoch @ slice 4 6 req @ put16 ext @ put32 lifetime"

definition pcp_map_reply :: "bytes \<Rightarrow> 32 word \<Rightarrow> bytes \<Rightarrow> port \<Rightarrow> ipv4 \<Rightarrow> bytes" where
  "pcp_map_reply req lifetime epoch ext ip =
     [2, 0x81, 0, 0] @ put32 lifetime @ epoch @ slice 24 36 req @ [17, 0, 0, 0] @ slice 40 42 req @ put16 ext
       @ ipv4MappedIPv6 (A4 ip)"

text \<open>The reply arrives at attempt \<open>k\<close>; the attempts before it timed out.\<close>

definition answers :: "link \<Rightarrow> bytes \<Rightarrow> nat \<Rightarrow> bytes \<Rightarrow> bool" where
  "answers l req k r \<longleftrightarrow> l_dial l = None \<and> k < 9 \<and> (\<forall>i \<le> k. l_ctx l i = None \<and> l_write l i = None)
     \<and> (\<forall>i < k. l_reply l req i (250000000 * 2 ^ i) = None) \<and> l_reply l req k (250000000 * 2 ^ k) = Some r"

lemma attempts_answer:
  assumes "answers l req k r" "respLen \<le> length r" "j \<le> k" "k < j + n"
  shows "natpmp_attempts l req gw respLen n j (250000000 * 2 ^ j) = Inr (take respLen r)"
  using assms(3,4)
proof (induction n arbitrary: j)
  case (Suc n)
  have ok: "l_ctx l j = None" "l_write l j = None" using assms(1) Suc.prems(1) by (auto simp: answers_def)
  show ?case
  proof (cases "j = k")
    case True
    then show ?thesis using ok assms(1,2) by (simp add: answers_def)
  next
    case False
    then have "l_reply l req j (250000000 * 2 ^ j) = None" using assms(1) Suc.prems(1) by (auto simp: answers_def)
    then show ?thesis using ok Suc.IH [of "Suc j"] Suc.prems False by (simp add: mult.left_commute)
  qed
qed simp

lemma roundTrip_answer: "answers l req k r \<Longrightarrow> respLen \<le> length r \<Longrightarrow> roundTrip l req gw respLen = Inr (take respLen r)"
  using attempts_answer [of l req k r respLen 0 9 gw] by (auto simp: roundTrip_def answers_def)

lemma external_reply_parsed:
  "ip \<noteq> (0, 0, 0, 0) \<Longrightarrow> external_response (natpmp_external_reply epoch ip) = Inr (A4 ip)"
  by (cases ip)
    (simp add: external_response_def natpmp_external_reply_def put32_def slice_def get16_def IsUnspecified_def Let_def nth_append)

lemma map_reply_parsed:
  assumes "ext \<noteq> 0"
  shows "map_response p (natpmp_map_reply (map_request p e l) epoch ext lifetime) = Inr (ext, seconds lifetime)"
proof -
  have "slice 4 6 (map_request p e l) = put16 p" by (simp add: map_request_def slice_def)
  moreover have "get16 [0, 0] = 0" by (simp add: get16_def)
  ultimately show ?thesis
    using assms get16_put16 [unfolded put16_def] get32_put32 [unfolded put32_def]
    by (simp add: map_response_def natpmp_map_reply_def slice_def Let_def put32_def put16_def)
qed

lemma pcp_reply_parsed:
  assumes "length nonce = 12" "length epoch = 16" "ext \<noteq> 0" "ip \<noteq> (0, 0, 0, 0)"
  shows "parsePCPMapResponse (pcp_map_reply (buildPCPMapRequest p (A4 c) nonce l) lifetime epoch ext ip) nonce
    = Inr \<lparr>externalIP = A4 ip, externalPort = ext, granted = lifetime\<rparr>"
proof -
  let ?req = "buildPCPMapRequest p (A4 c) nonce l"
  let ?r = "pcp_map_reply ?req lifetime epoch ext ip"
  have req: "slice 24 36 ?req = nonce" "slice 40 42 ?req = put16 p"
    using assms(1) by (simp_all add: buildPCPMapRequest_def slice_def)
  have r: "?r = [2, 0x81, 0, 0] @ put32 lifetime @ epoch @ nonce @ [17, 0, 0, 0] @ put16 p @ put16 ext @ ipv4MappedIPv6 (A4 ip)"
    by (simp add: pcp_map_reply_def req)
  have "length ?r = 60" "?r ! 0 = 2" "?r ! 1 = 0x81" "?r ! 3 = 0" "?r ! 36 = 17"
      "slice 4 8 ?r = put32 lifetime" "slice 24 36 ?r = nonce" "slice 42 44 ?r = put16 ext"
      "slice 44 60 ?r = ipv4MappedIPv6 (A4 ip)"
    unfolding r using assms(1,2) by (simp_all add: slice_def nth_append)
  moreover have "(0x81 :: 8 word) AND 0x80 \<noteq> 0" "(0x81 :: 8 word) AND 0x7F = 1" by simp_all
  ultimately show ?thesis using assms(3,4) by (simp add: parsePCPMapResponse_def extract_mapped)
qed


definition answering :: "nat \<Rightarrow> bytes \<Rightarrow> link" where
  "answering k r = \<lparr>l_dial = None, l_ctx = (\<lambda>i. None), l_write = (\<lambda>i. None),
     l_reply = (\<lambda>req i w. if i = k then Some r else None)\<rparr>"

lemma answering_answers: "k < 9 \<Longrightarrow> answers (answering k r) req k r"
  by (simp add: answering_def answers_def)


end
