(* ===== verification/PortMap.thy ===== *)
theory PortMap
  imports PortProtocols
begin

text \<open>
  The coordinator of the port mapping (src/internal/portmap/portmap.go): one goroutine that probes the
  protocols, keeps the winner's mapping refreshed, and starts over when it is asked to, or when three
  refreshes in a row fail. \<open>pc\<close> is the place of the goroutine in \<open>run\<close>: waiting for a probe (\<open>Probing k\<close>,
  where \<open>k\<close> counts the failed rounds), sleeping after a failed round, holding a mapping (with the number
  of failed refreshes) or waiting for a refresh. One event is one outcome the goroutine waits for. The
  calls of the change handler are recorded in \<open>pm_changes\<close>; \<open>None\<close> is the zero \<open>AddrPort\<close>.
\<close>

type_synonym endpoint = "addr \<times> port"

record Manager =
  pm_internal_port :: port
  pm_backoff :: "int list"
  pm_winner :: "string option"
  pm_current :: "endpoint option"
  pm_ttl :: int
  pm_changes :: "(endpoint option \<times> endpoint) list"

definition New :: "port \<Rightarrow> Manager" where
  "New internalPort =
     \<lparr>pm_internal_port = internalPort,
      pm_backoff = [30 * 1000000000, 60 * 1000000000, 120 * 1000000000, 300 * 1000000000],
      pm_winner = None, pm_current = None, pm_ttl = 0, pm_changes = []\<rparr>"

definition LifetimeSeconds :: "Manager \<Rightarrow> int" where
  "LifetimeSeconds m = (if pm_ttl m \<le> 0 then 0 else pm_ttl m div 1000000000)"

definition onProbeSuccess :: "string \<Rightarrow> endpoint \<Rightarrow> int \<Rightarrow> Manager \<Rightarrow> Manager" where
  "onProbeSuccess winner addr ttl m =
     m\<lparr>pm_winner := Some winner, pm_current := Some addr, pm_ttl := ttl, pm_changes := pm_changes m @ [(pm_current m, addr)]\<rparr>"

definition clearWinner :: "Manager \<Rightarrow> Manager" where
  "clearWinner m = m\<lparr>pm_winner := None, pm_current := None, pm_ttl := 0\<rparr>"

definition retryAttemptDelay :: "nat \<Rightarrow> Manager \<Rightarrow> int" where
  "retryAttemptDelay attempt m =
     (if pm_backoff m = [] then 30 * 1000000000
      else if length (pm_backoff m) \<le> attempt then pm_backoff m ! (length (pm_backoff m) - 1)
      else pm_backoff m ! attempt)"

text \<open>The pause before a refresh: half of the lifetime, at least a minute.\<close>

definition refresh_pause :: "Manager \<Rightarrow> int" where
  "refresh_pause m = (if pm_ttl m div 2 < 60 * 1000000000 then 60 * 1000000000 else pm_ttl m div 2)"

definition refreshed :: "endpoint \<Rightarrow> int \<Rightarrow> Manager \<Rightarrow> Manager" where
  "refreshed addr newTTL m =
     m\<lparr>pm_current := Some addr, pm_ttl := newTTL,
       pm_changes := (if pm_current m \<noteq> Some addr then pm_changes m @ [(pm_current m, addr)] else pm_changes m)\<rparr>"

definition refreshFailureLimit :: nat where
  "refreshFailureLimit = 3"

datatype pc = Probing nat | Waiting nat | Holding nat | Refreshing nat | Stopped

datatype pm_event =
    ProbeWon string endpoint int
  | ProbeFailed
  | Elapsed
  | Reprobe
  | Cancelled
  | RefreshOk endpoint int
  | RefreshFailed

text \<open>\<open>None\<close>: the goroutine does not wait for this event at this place.\<close>

fun run_step :: "pm_event \<Rightarrow> pc \<times> Manager \<Rightarrow> (pc \<times> Manager) option" where
  "run_step (ProbeWon c a ttl) (Probing k, m) = Some (Holding 0, onProbeSuccess c a ttl m)"
| "run_step ProbeFailed (Probing k, m) = Some (Waiting k, m)"
| "run_step Cancelled (Probing (Suc k), m) = Some (Stopped, m)"
| "run_step Elapsed (Waiting k, m) = Some (Probing (Suc k), m)"
| "run_step Reprobe (Waiting k, m) = Some (Probing (Suc k), m)"
| "run_step Cancelled (Waiting k, m) = Some (Stopped, m)"
| "run_step Elapsed (Holding f, m) = Some (Refreshing f, m)"
| "run_step Reprobe (Holding f, m) = Some (Probing 0, clearWinner m)"
| "run_step Cancelled (Holding f, m) = Some (Stopped, m)"
| "run_step (RefreshOk a ttl) (Refreshing f, m) = Some (Holding 0, refreshed a ttl m)"
| "run_step RefreshFailed (Refreshing f, m) =
     Some (if refreshFailureLimit \<le> Suc f then (Probing 0, clearWinner m) else (Holding (Suc f), m))"
| "run_step ev st = None"

text \<open>How long the goroutine sleeps before \<open>Elapsed\<close>.\<close>

fun pause :: "pc \<times> Manager \<Rightarrow> int" where
  "pause (Waiting k, m) = retryAttemptDelay k m"
| "pause (Holding f, m) = refresh_pause m"
| "pause st = 0"

fun run_events :: "pm_event list \<Rightarrow> pc \<times> Manager \<Rightarrow> (pc \<times> Manager) option" where
  "run_events [] st = Some st"
| "run_events (e # es) st = (case run_step e st of None \<Rightarrow> None | Some st' \<Rightarrow> run_events es st')"

text \<open>
  \<open>Stop\<close>: cancels and waits for the goroutine, then unmaps. The protocol to unmap is the one that was
  read before the goroutine ended.
\<close>

definition Stop_unmaps :: "Manager \<Rightarrow> string option" where
  "Stop_unmaps m = pm_winner m"

section \<open>The invariant of the goroutine\<close>

definition holds :: "pc \<Rightarrow> bool" where
  "holds p \<longleftrightarrow> (case p of Holding f \<Rightarrow> True | Refreshing f \<Rightarrow> True | _ \<Rightarrow> False)"

definition pm_inv :: "pc \<times> Manager \<Rightarrow> bool" where
  "pm_inv st \<longleftrightarrow> (case st of (p, m) \<Rightarrow>
     pm_backoff m = pm_backoff (New (pm_internal_port m))
     \<and> (p \<noteq> Stopped \<longrightarrow> (pm_current m \<noteq> None \<longleftrightarrow> holds p))
     \<and> (pm_winner m \<noteq> None \<longleftrightarrow> pm_current m \<noteq> None)
     \<and> (case p of Holding f \<Rightarrow> f < refreshFailureLimit | Refreshing f \<Rightarrow> f < refreshFailureLimit | _ \<Rightarrow> True)
     \<and> (\<forall>a. pm_current m = Some a \<longrightarrow> pm_changes m \<noteq> [] \<and> snd (List.last (pm_changes m)) = a))"

lemma New_inv: "pm_inv (Probing 0, New p)"
  by (simp add: pm_inv_def New_def holds_def)

lemma run_step_inv: "run_step e st = Some st' \<Longrightarrow> pm_inv st \<Longrightarrow> pm_inv st'"
  by (induction e st rule: run_step.induct)
    (auto simp: pm_inv_def holds_def onProbeSuccess_def clearWinner_def refreshed_def refreshFailureLimit_def New_def
      split: if_splits)

lemma run_events_inv: "run_events es st = Some st' \<Longrightarrow> pm_inv st \<Longrightarrow> pm_inv st'"
  by (induction es arbitrary: st) (auto split: option.splits dest: run_step_inv)

lemma run_events_append:
  "run_events (es @ fs) st = (case run_events es st of None \<Rightarrow> None | Some st' \<Rightarrow> run_events fs st')"
  by (induction es arbitrary: st) (auto split: option.splits)

section \<open>Where the endpoints come from\<close>

text \<open>The endpoint and lifetime that an event brings.\<close>

fun granted_by :: "pm_event \<Rightarrow> (endpoint \<times> int) option" where
  "granted_by (ProbeWon c a ttl) = Some (a, ttl)"
| "granted_by (RefreshOk a ttl) = Some (a, ttl)"
| "granted_by e = None"

lemma current_granted:
  "run_events es st = Some st' \<Longrightarrow> pm_current (snd st') = Some a \<Longrightarrow>
     pm_current (snd st) = Some a \<or> (\<exists>e \<in> set es. \<exists>ttl. granted_by e = Some (a, ttl))"
proof (induction es arbitrary: st)
  case (Cons e es)
  then obtain st1 where st1: "run_step e st = Some st1" "run_events es st1 = Some st'"
    by (auto split: option.splits)
  have "pm_current (snd st) = Some a \<or> (\<exists>ttl. granted_by e = Some (a, ttl))" if "pm_current (snd st1) = Some a"
    using st1(1) that
    by (cases "(e, st)" rule: run_step.cases) (auto simp: onProbeSuccess_def clearWinner_def refreshed_def split: if_splits)
  then show ?case using Cons.IH [OF st1(2) Cons.prems(2)] by auto
qed simp

context mapping_client
begin

text \<open>Every endpoint in force was granted by a protocol, and can be told to peers.\<close>

lemma current_usable:
  assumes "run_events es (Probing 0, New p) = Some (q, m)" "pm_current m = Some a"
    and "\<And>e g. e \<in> set es \<Longrightarrow> granted_by e = Some g \<Longrightarrow> \<exists>w. request w p = Inr g"
  shows "\<not> IsUnspecified (fst a) \<and> (p \<noteq> 0 \<longrightarrow> snd a \<noteq> 0)"
proof -
  have "pm_current (New p) = None" by (simp add: New_def)
  then obtain e ttl where "e \<in> set es" "granted_by e = Some (a, ttl)"
    using current_granted [OF assms(1), of a] assms(2) by auto
  then obtain w where "request w p = Inr (a, ttl)" using assms(3) by blast
  then show ?thesis using request_specified request_port by blast
qed

end

datatype wire =
    NatpmpWire "link \<times> link" "addr option"
  | PcpWire link "addr res" "bytes res" "addr option"
  | UpnpWire upnp_wire "xmlService option"

fun client_Map :: "wire \<Rightarrow> port \<Rightarrow> (endpoint \<times> int) res" where
  "client_Map (NatpmpWire links gw) p = NATPMP_Map links gw p"
| "client_Map (PcpWire l ip nonce gw) p = PCP_Map l ip nonce gw p"
| "client_Map (UpnpWire w cached) p = fst (UPnP_Map w cached p)"

interpretation clients: mapping_client client_Map
proof
  fix w p a q ttl
  assume "client_Map w p = Inr ((a, q), ttl)"
  then show "\<not> IsUnspecified a \<and> (q \<noteq> 0 \<or> p = 0) \<and> 0 \<le> ttl"
    using natpmp.request_usable pcp.request_usable upnp.request_usable by (cases w) fastforce+
qed

section \<open>The goroutine never gives up\<close>

lemma run_not_stopped: "run_events es st = Some st' \<Longrightarrow> Cancelled \<notin> set es \<Longrightarrow> fst st \<noteq> Stopped \<Longrightarrow> fst st' \<noteq> Stopped"
proof (induction es arbitrary: st)
  case (Cons e es)
  then obtain st1 where st1: "run_step e st = Some st1" "run_events es st1 = Some st'" by (auto split: option.splits)
  have "fst st1 \<noteq> Stopped" using st1(1) Cons.prems(2,3) by (cases "(e, st)" rule: run_step.cases) (auto split: if_splits)
  then show ?case using Cons.IH [OF st1(2)] Cons.prems(2) by simp
qed simp

lemma retry_pause_bound:
  assumes "pm_inv (Waiting k, m)"
  shows "0 \<le> retryAttemptDelay k m \<and> retryAttemptDelay k m \<le> 300 * 1000000000"
proof -
  have "pm_backoff m = [30 * 1000000000, 60 * 1000000000, 120 * 1000000000, 300 * 1000000000]"
    using assms by (simp add: pm_inv_def New_def)
  moreover consider "k = 0" | "k = 1" | "k = 2" | "3 \<le> k" by linarith
  ultimately show ?thesis by cases (auto simp: retryAttemptDelay_def nth_Cons' )
qed

lemma two_events_recover:
  assumes "run_events es st = Some st'" "length es = 2" "Cancelled \<notin> set es" "ProbeFailed \<notin> set es" "fst st \<noteq> Stopped"
  shows "\<exists>n \<le> 2. \<exists>st''. run_events (take n es) st = Some st'' \<and> holds (fst st'')"
proof -
  obtain e1 e2 where es: "es = [e1, e2]" using assms(2) by (metis length_0_conv length_Suc_conv numeral_2_eq_2)
  obtain p m where st: "st = (p, m)" by fastforce
  obtain st1 where st1: "run_step e1 st = Some st1" using assms(1) by (auto simp: es split: option.splits)
  have n: "run_events (take 0 es) st = Some st" "run_events (take 1 es) st = Some st1" "run_events (take 2 es) st = Some st'"
    using assms(1) st1 by (simp_all add: es)
  show ?thesis
  proof (cases p)
    case (Probing k)
    then have "holds (fst st1)" using st1 assms(3,4) unfolding st es by (cases e1; cases k) (auto simp: holds_def)
    then show ?thesis using n(2) by (intro exI [of _ 1]) simp
  next
    case (Waiting k)
    then have "st1 = (Probing (Suc k), m)" using st1 assms(3) unfolding st es by (cases e1) auto
    moreover have "run_step e2 st1 = Some st'" using assms(1) st1 by (simp add: es split: option.splits)
    ultimately have "holds (fst st')" using assms(3,4) unfolding es by (cases e2) (auto simp: holds_def)
    then show ?thesis using n(3) by blast
  next
    case Stopped
    then show ?thesis using assms(5) by (simp add: st)
  qed (use n(1) in \<open>auto simp: st holds_def intro!: exI [of _ 0]\<close>)
qed



end
