(* ===== verification/Registry.thy ===== *)
theory Registry
  imports NetAddr "HOL-Library.List_Lexorder" "HOL-Library.Char_ord"
begin

text \<open>
  The enrollments an agent holds (src/internal/client/enrollments.go) and the choice of a name for a new
  one (src/internal/client/enroll.go). The registry is a list in memory with a file and a backup behind it. A
  file is what reading it gives: absent, unreadable with an error, or a document with its version.
  \<open>atomicWrite\<close> replaces a file or leaves it alone; \<open>faults\<close> are the errors of writing the file and its
  backup. \<open>free\<close> says whether a UDP port can be bound.
\<close>

record Enrollment =
  en_name :: string
  en_node_id :: string
  en_network_id :: string
  en_endpoint :: string
  en_tun_mode :: string
  en_ca_fingerprint :: string
  en_dns_domain :: string
  en_port :: int
  en_clipboard :: bool
  en_enrolled_at :: int

datatype stored = Absent | Unreadable go_error | Document int "Enrollment list"

record enrollmentRegistry =
  rg_enrollments :: "Enrollment list"
  rg_main :: stored
  rg_backup :: stored

definition enrollmentRegistryVersion :: int where
  "enrollmentRegistryVersion = 1"

section \<open>Names\<close>

definition name_char :: "char \<Rightarrow> bool" where
  "name_char c \<longleftrightarrow> is_digit c \<or> (97 \<le> (of_char c :: nat) \<and> (of_char c :: nat) \<le> 122)"

definition enrollmentNameRegex :: "string \<Rightarrow> bool" where
  "enrollmentNameRegex s \<longleftrightarrow>
     s \<noteq> [] \<and> name_char (hd s) \<and> list_all (\<lambda>c. name_char c \<or> c = CHR ''-'') (tl s) \<and> length s \<le> 32"

definition reservedEnrollmentNames :: "string list" where
  "reservedEnrollmentNames =
     [''enrollments.json'', ''con'', ''prn'', ''aux'', ''nul'', ''com1'', ''com2'', ''com3'', ''com4'', ''com5'', ''com6'', ''com7'',
      ''com8'', ''com9'', ''lpt1'', ''lpt2'', ''lpt3'', ''lpt4'', ''lpt5'', ''lpt6'', ''lpt7'', ''lpt8'', ''lpt9'']"

definition validateEnrollmentName :: "string \<Rightarrow> go_error option" where
  "validateEnrollmentName name =
     (if name = [] then Some (ErrMsg ''enrollment name is empty'')
      else if \<not> enrollmentNameRegex name
      then Some (ErrMsg (''invalid enrollment name '' @ quoted name @ '' (must match [a-z0-9][a-z0-9-]{0,31})''))
      else if name \<in> set reservedEnrollmentNames then Some (ErrMsg (''enrollment name '' @ quoted name @ '' is reserved''))
      else None)"

definition defaultEnrollmentName :: "string \<Rightarrow> string \<Rightarrow> string" where
  "defaultEnrollmentName dnsDomain caFingerprintHex =
     (if validateEnrollmentName dnsDomain = None then dnsDomain else caFingerprintHex)"

section \<open>Files\<close>

definition not_exist :: go_error where
  "not_exist = ErrMsg ''file does not exist''"

definition readEnrollmentsFile :: "stored \<Rightarrow> Enrollment list res" where
  "readEnrollmentsFile f =
     (case f of
        Absent \<Rightarrow> Inl not_exist
      | Unreadable err \<Rightarrow> Inl err
      | Document v es \<Rightarrow>
          if v \<noteq> enrollmentRegistryVersion
          then Inl (ErrMsg (''unsupported enrollments.json version '' @ dec v @ '' (expected '' @ dec enrollmentRegistryVersion @ '')''))
          else Inr es)"

definition loadEnrollmentRegistry :: "stored \<Rightarrow> stored \<Rightarrow> enrollmentRegistry res" where
  "loadEnrollmentRegistry main backup =
     (let r = \<lparr>rg_enrollments = [], rg_main = main, rg_backup = backup\<rparr>;
          from_backup = (\<lambda>other. if backup = Absent then other
                           else case readEnrollmentsFile backup of
                             Inr es \<Rightarrow> Inr (r\<lparr>rg_enrollments := es\<rparr>) | Inl e \<Rightarrow> other)
      in case readEnrollmentsFile main of
           Inr es \<Rightarrow> Inr (r\<lparr>rg_enrollments := es\<rparr>)
         | Inl mainErr \<Rightarrow> if main = Absent then from_backup (Inr r) else from_backup (Inl mainErr))"

type_synonym faults = "go_error option \<times> go_error option"

definition saveLocked :: "faults \<Rightarrow> enrollmentRegistry \<Rightarrow> go_error option \<times> enrollmentRegistry" where
  "saveLocked faults r =
     (let doc = Document enrollmentRegistryVersion (rg_enrollments r) in
      case fst faults of
        Some err \<Rightarrow> (Some err, r)
      | None \<Rightarrow> (None, r\<lparr>rg_main := doc, rg_backup := (if snd faults = None then doc else rg_backup r)\<rparr>))"

section \<open>Operations\<close>

definition registry_Get :: "string \<Rightarrow> enrollmentRegistry \<Rightarrow> Enrollment option" where
  "registry_Get name r = find (\<lambda>e. en_name e = name) (rg_enrollments r)"

definition registry_Add :: "faults \<Rightarrow> Enrollment \<Rightarrow> enrollmentRegistry \<Rightarrow> go_error option \<times> enrollmentRegistry" where
  "registry_Add faults e r =
     (case validateEnrollmentName (en_name e) of
        Some err \<Rightarrow> (Some err, r)
      | None \<Rightarrow>
          if \<exists>x \<in> set (rg_enrollments r). en_name x = en_name e
          then (Some (ErrMsg (''enrollment '' @ quoted (en_name e) @ '' already exists'')), r)
          else case saveLocked faults (r\<lparr>rg_enrollments := rg_enrollments r @ [e]\<rparr>) of
            (Some err, r') \<Rightarrow> (Some err, r'\<lparr>rg_enrollments := butlast (rg_enrollments r')\<rparr>)
          | (None, r') \<Rightarrow> (None, r'))"

text \<open>The position of the first element that satisfies the test.\<close>

fun index_of :: "('a \<Rightarrow> bool) \<Rightarrow> 'a list \<Rightarrow> nat option" where
  "index_of P [] = None"
| "index_of P (x # xs) = (if P x then Some 0 else map_option Suc (index_of P xs))"

definition registry_Remove :: "faults \<Rightarrow> string \<Rightarrow> enrollmentRegistry \<Rightarrow> go_error option \<times> enrollmentRegistry" where
  "registry_Remove faults name r =
     (case index_of (\<lambda>e. en_name e = name) (rg_enrollments r) of
        None \<Rightarrow> (Some (ErrMsg (''enrollment '' @ quoted name @ '' not found'')), r)
      | Some i \<Rightarrow>
          let es = rg_enrollments r; rest = take i es @ drop (Suc i) es in
          case saveLocked faults (r\<lparr>rg_enrollments := rest\<rparr>) of
            (Some err, r') \<Rightarrow> (Some err, r'\<lparr>rg_enrollments := take i rest @ [es ! i] @ drop i rest\<rparr>)
          | (None, r') \<Rightarrow> (None, r'))"

text \<open>The two setters: nothing is written when the value is the same; a failed write is not undone.\<close>

definition set_field ::
  "(Enrollment \<Rightarrow> bool) \<Rightarrow> (Enrollment \<Rightarrow> Enrollment) \<Rightarrow> faults \<Rightarrow> string \<Rightarrow> enrollmentRegistry
     \<Rightarrow> go_error option \<times> enrollmentRegistry" where
  "set_field same upd faults name r =
     (case index_of (\<lambda>e. en_name e = name) (rg_enrollments r) of
        None \<Rightarrow> (Some (ErrMsg ''enrollment not found''), r)
      | Some i \<Rightarrow>
          let e = rg_enrollments r ! i in
          if same e then (None, r) else saveLocked faults (r\<lparr>rg_enrollments := (rg_enrollments r)[i := upd e]\<rparr>))"

definition SetClipboardSync :: "faults \<Rightarrow> string \<Rightarrow> bool \<Rightarrow> enrollmentRegistry \<Rightarrow> go_error option \<times> enrollmentRegistry" where
  "SetClipboardSync faults name enabled r =
     set_field (\<lambda>e. en_clipboard e = enabled) (\<lambda>e. e\<lparr>en_clipboard := enabled\<rparr>) faults name r"

definition SetNetworkID :: "faults \<Rightarrow> string \<Rightarrow> string \<Rightarrow> enrollmentRegistry \<Rightarrow> go_error option \<times> enrollmentRegistry" where
  "SetNetworkID faults name networkID r =
     set_field (\<lambda>e. en_network_id e = networkID) (\<lambda>e. e\<lparr>en_network_id := networkID\<rparr>) faults name r"

definition Names :: "enrollmentRegistry \<Rightarrow> string list" where
  "Names r = sort (map en_name (rg_enrollments r))"

definition CAFingerprints :: "enrollmentRegistry \<Rightarrow> string list" where
  "CAFingerprints r = sort (remdups (filter (\<lambda>f. f \<noteq> []) (map en_ca_fingerprint (rg_enrollments r))))"

section \<open>Listen ports\<close>

function scan_ports :: "(int \<Rightarrow> bool) \<Rightarrow> (int \<Rightarrow> bool) \<Rightarrow> int \<Rightarrow> int" where
  "scan_ports used free p =
     (if p < 65535 then if \<not> used p \<and> free p then p else scan_ports used free (p + 1) else 0)"
  by pat_completeness auto
termination
  by (relation "measure (\<lambda>(used, free, p). nat (65535 - p))") auto

declare scan_ports.simps [simp del]

definition nextAvailableListenPort :: "(int \<Rightarrow> bool) \<Rightarrow> int \<Rightarrow> Enrollment list \<Rightarrow> int" where
  "nextAvailableListenPort free base es = scan_ports (\<lambda>p. \<exists>e \<in> set es. en_port e > 0 \<and> en_port e = p) free base"

text \<open>Gives the enrollments at these positions new ports, one after the other.\<close>

fun renumber :: "(int \<Rightarrow> bool) \<Rightarrow> int \<Rightarrow> nat list \<Rightarrow> Enrollment list \<Rightarrow> Enrollment list" where
  "renumber free base [] es = es"
| "renumber free base (i # is) es =
     renumber free base is (es[i := (es ! i)\<lparr>en_port := nextAvailableListenPort free base es\<rparr>])"

definition AssignMissingListenPorts ::
  "faults \<Rightarrow> (int \<Rightarrow> bool) \<Rightarrow> int \<Rightarrow> enrollmentRegistry \<Rightarrow> nat res \<times> enrollmentRegistry" where
  "AssignMissingListenPorts faults free base r =
     (let missing = filter (\<lambda>i. \<not> en_port (rg_enrollments r ! i) > 0) [0..<length (rg_enrollments r)];
          r = r\<lparr>rg_enrollments := renumber free base missing (rg_enrollments r)\<rparr>
      in if missing = [] then (Inr 0, r)
         else case saveLocked faults r of
           (Some err, r) \<Rightarrow> (Inl err, r)
         | (None, r) \<Rightarrow> (Inr (length missing), r))"

text \<open>
  The positions with port \<open>q\<close>, oldest enrollment first. Go's \<open>sort.Slice\<close> is an insertion sort on up to
  twelve elements and keeps the order of equal times there. \<open>order\<close> is the order in which the loop visits
  the ports, which Go leaves open.
\<close>

definition port_group :: "Enrollment list \<Rightarrow> int \<Rightarrow> nat list" where
  "port_group es q = sort_key (\<lambda>i. en_enrolled_at (es ! i)) (filter (\<lambda>i. en_port (es ! i) = q) [0..<length es])"

definition displaced :: "int list \<Rightarrow> Enrollment list \<Rightarrow> nat list" where
  "displaced order es = concat (map (\<lambda>q. tl (port_group es q)) order)"

definition HealDuplicateListenPorts ::
  "faults \<Rightarrow> (int \<Rightarrow> bool) \<Rightarrow> int list \<Rightarrow> int \<Rightarrow> enrollmentRegistry \<Rightarrow> string list res \<times> enrollmentRegistry" where
  "HealDuplicateListenPorts faults free order base r =
     (let moved = displaced order (rg_enrollments r);
          names = map (\<lambda>i. en_name (rg_enrollments r ! i)) moved;
          r = r\<lparr>rg_enrollments := renumber free base moved (rg_enrollments r)\<rparr>
      in if moved = [] then (Inr [], r)
         else case saveLocked faults r of
           (Some err, r) \<Rightarrow> (Inl err, r)
         | (None, r) \<Rightarrow> (Inr names, r))"

section \<open>Choosing a name\<close>

definition existingEnrollmentForNetwork :: "enrollmentRegistry \<Rightarrow> string \<Rightarrow> string \<Rightarrow> Enrollment option" where
  "existingEnrollmentForNetwork r endpoint fp =
     (if fp = [] then None
      else find (\<lambda>e. en_endpoint e = endpoint \<and> en_ca_fingerprint e = fp) (rg_enrollments r))"

definition suffixed :: "string \<Rightarrow> string list" where
  "suffixed preferred = map (\<lambda>i. preferred @ ''-'' @ itoa i) [2..<100]"

definition chooseEnrollmentName :: "enrollmentRegistry \<Rightarrow> string \<Rightarrow> string \<Rightarrow> string res" where
  "chooseEnrollmentName r explicit preferred =
     (if explicit \<noteq> [] then
        (case validateEnrollmentName explicit of
           Some err \<Rightarrow> Inl err
         | None \<Rightarrow>
             if registry_Get explicit r \<noteq> None then Inl (ErrMsg (''enrollment '' @ quoted explicit @ '' already exists''))
             else Inr explicit)
      else case validateEnrollmentName preferred of
        Some err \<Rightarrow> Inl (ErrWrap (''preferred enrollment name '' @ quoted preferred @ '' is not valid'') err)
      | None \<Rightarrow>
          if registry_Get preferred r = None then Inr preferred
          else case find (\<lambda>c. validateEnrollmentName c = None \<and> registry_Get c r = None) (suffixed preferred) of
            Some c \<Rightarrow> Inr c
          | None \<Rightarrow> Inl (ErrMsg (''could not find a free enrollment name derived from '' @ quoted preferred)))"

text \<open>The verb \<open>%v\<close> for a slice of strings.\<close>

fun join_space :: "string list \<Rightarrow> string" where
  "join_space [] = []"
| "join_space [x] = x"
| "join_space (x # y # ys) = x @ '' '' @ join_space (y # ys)"

definition handleForce :: "faults \<Rightarrow> string \<Rightarrow> enrollmentRegistry \<Rightarrow> go_error option \<times> enrollmentRegistry" where
  "handleForce faults targetName r =
     (if rg_enrollments r = [] then (None, r)
      else if targetName \<noteq> [] then
        (if registry_Get targetName r = None then (None, r) else registry_Remove faults targetName r)
      else case rg_enrollments r of
        [e] \<Rightarrow> registry_Remove faults (en_name e) r
      | es \<Rightarrow> (Some (ErrMsg (''--force without --name is ambiguous: '' @ itoa (length es) @ '' enrollments exist (['' @ join_space (Names r)
               @ '']). Specify --name <enrollment> to target one.'')), r))"

definition meshIfaceName :: "string \<Rightarrow> string" where
  "meshIfaceName name =
     (if length ''hop-'' + length name \<le> 15 then ''hop-'' @ name else ''hop-'' @ take (15 - length ''hop-'') name)"

definition extractHost :: "string \<Rightarrow> string" where
  "extractHost endpoint =
     before CHR '':'' (before CHR ''/'' (TrimPrefix (TrimPrefix endpoint ''https://'') ''http://''))"

section \<open>Every history keeps the registry usable\<close>

datatype rg_op =
    RAdd faults Enrollment
  | RRemove faults string
  | RClipboard faults string bool
  | RNetworkID faults string string
  | RAssign faults "int \<Rightarrow> bool" int
  | RHeal faults "int \<Rightarrow> bool" "int list" int
  | RReload

text \<open>\<open>RReload\<close> is a restart of the agent; when the registry cannot be loaded the process ends.\<close>

fun rg_step :: "rg_op \<Rightarrow> enrollmentRegistry \<Rightarrow> enrollmentRegistry" where
  "rg_step (RAdd f e) r = snd (registry_Add f e r)"
| "rg_step (RRemove f n) r = snd (registry_Remove f n r)"
| "rg_step (RClipboard f n b) r = snd (SetClipboardSync f n b r)"
| "rg_step (RNetworkID f n i) r = snd (SetNetworkID f n i r)"
| "rg_step (RAssign f free base) r = snd (AssignMissingListenPorts f free base r)"
| "rg_step (RHeal f free order base) r = snd (HealDuplicateListenPorts f free order base r)"
| "rg_step RReload r = (case loadEnrollmentRegistry (rg_main r) (rg_backup r) of Inl e \<Rightarrow> r | Inr r' \<Rightarrow> r')"

definition rg_run :: "rg_op list \<Rightarrow> enrollmentRegistry \<Rightarrow> enrollmentRegistry" where
  "rg_run ops r = foldl (\<lambda>r op. rg_step op r) r ops"

definition fresh_registry :: enrollmentRegistry where
  "fresh_registry = \<lparr>rg_enrollments = [], rg_main = Absent, rg_backup = Absent\<rparr>"

definition names_ok :: "Enrollment list \<Rightarrow> bool" where
  "names_ok es \<longleftrightarrow> distinct (map en_name es) \<and> list_all (\<lambda>n. validateEnrollmentName n = None) (map en_name es)"

fun stored_ok :: "stored \<Rightarrow> bool" where
  "stored_ok Absent \<longleftrightarrow> True"
| "stored_ok (Unreadable e) \<longleftrightarrow> False"
| "stored_ok (Document v es) \<longleftrightarrow> v = enrollmentRegistryVersion \<and> names_ok es"

definition rg_inv :: "enrollmentRegistry \<Rightarrow> bool" where
  "rg_inv r \<longleftrightarrow> names_ok (rg_enrollments r) \<and> stored_ok (rg_main r) \<and> stored_ok (rg_backup r)"

lemma index_of_Some: "index_of P xs = Some i \<Longrightarrow> i < length xs \<and> P (xs ! i)"
  by (induction xs arbitrary: i) (auto split: if_splits)

lemma saveLocked_inv: "rg_inv r \<Longrightarrow> rg_inv (snd (saveLocked f r))"
  by (auto simp: rg_inv_def saveLocked_def Let_def split: option.splits)

lemma saveLocked_enrollments [simp]: "saveLocked f r = (x, r') \<Longrightarrow> rg_enrollments r' = rg_enrollments r"
  by (auto simp: saveLocked_def Let_def split: option.splits)

lemma inv_names: "rg_inv r \<Longrightarrow> map en_name es = map en_name (rg_enrollments r) \<Longrightarrow> rg_inv (r\<lparr>rg_enrollments := es\<rparr>)"
  by (simp add: rg_inv_def names_ok_def)

lemma names_ok_delete: "names_ok (xs @ y # ys) \<Longrightarrow> names_ok (xs @ ys)"
  by (simp add: names_ok_def)

lemma names_ok_append:
  "names_ok (xs @ [y]) \<longleftrightarrow> names_ok xs \<and> en_name y \<notin> en_name ` set xs \<and> validateEnrollmentName (en_name y) = None"
  by (simp add: names_ok_def) blast

lemma renumber_names: "map en_name (renumber free base is es) = map en_name es"
proof (induction "is" arbitrary: es)
  case (Cons i "is")
  have "map en_name (es[i := (es ! i)\<lparr>en_port := p\<rparr>]) = map en_name es" for p
    by (cases "i < length es") (auto simp: map_update list_update_beyond intro: list_update_same_conv [THEN iffD2])
  then show ?case using Cons by simp
qed simp

lemma Add_inv:
  assumes "rg_inv r"
  shows "rg_inv (snd (registry_Add f e r))"
proof (cases "validateEnrollmentName (en_name e) = None \<and> en_name e \<notin> en_name ` set (rg_enrollments r) \<and> fst f = None")
  case True
  then have "\<not> (\<exists>x \<in> set (rg_enrollments r). en_name x = en_name e)" by (metis image_eqI)
  then have "snd (registry_Add f e r) = snd (saveLocked f (r\<lparr>rg_enrollments := rg_enrollments r @ [e]\<rparr>))"
    using True by (simp add: registry_Add_def saveLocked_def Let_def)
  moreover have "rg_inv (r\<lparr>rg_enrollments := rg_enrollments r @ [e]\<rparr>)"
    using True assms names_ok_append [of "rg_enrollments r" e] by (simp add: rg_inv_def)
  ultimately show ?thesis using saveLocked_inv by simp
next
  case False
  then consider err where "validateEnrollmentName (en_name e) = Some err" | "\<exists>x \<in> set (rg_enrollments r). en_name x = en_name e"
    | err where "fst f = Some err" by (metis (no_types, lifting) imageE not_None_eq)
  then have "snd (registry_Add f e r) = r"
    by cases (simp_all add: registry_Add_def saveLocked_def split: option.split)
  then show ?thesis using assms by simp
qed

lemma insert_back: "i < length es \<Longrightarrow> take i (take i es @ drop (Suc i) es) @ [es ! i] @ drop i (take i es @ drop (Suc i) es) = es"
  by (simp add: id_take_nth_drop [symmetric])

lemma Remove_inv:
  assumes "rg_inv r"
  shows "rg_inv (snd (registry_Remove f n r))"
proof (cases "index_of (\<lambda>e. en_name e = n) (rg_enrollments r)")
  case None
  then show ?thesis using assms by (simp add: registry_Remove_def)
next
  case (Some i)
  let ?es = "rg_enrollments r"
  let ?rest = "take i ?es @ drop (Suc i) ?es"
  have i: "i < length ?es" using index_of_Some [OF Some] by simp
  have "names_ok (take i ?es @ ?es ! i # drop (Suc i) ?es)"
    using assms i by (simp add: rg_inv_def id_take_nth_drop [symmetric])
  then have "rg_inv (r\<lparr>rg_enrollments := ?rest\<rparr>)" using assms names_ok_delete by (auto simp: rg_inv_def)
  then have saved: "rg_inv (snd (saveLocked f (r\<lparr>rg_enrollments := ?rest\<rparr>)))" by (rule saveLocked_inv)
  show ?thesis
  proof (cases "fst f")
    case None
    then show ?thesis using Some saved by (simp add: registry_Remove_def saveLocked_def Let_def)
  next
    case (Some err)
    then have "snd (registry_Remove f n r) = r\<lparr>rg_enrollments := take i ?rest @ [?es ! i] @ drop i ?rest\<rparr>"
      using \<open>index_of _ _ = Some i\<close> by (simp add: registry_Remove_def saveLocked_def Let_def)
    then show ?thesis using assms insert_back [OF i] by simp
  qed
qed

lemma set_field_inv:
  assumes "rg_inv r" "\<And>e. en_name (upd e) = en_name e"
  shows "rg_inv (snd (set_field same upd f n r))"
proof (cases "index_of (\<lambda>e. en_name e = n) (rg_enrollments r)")
  case (Some i)
  let ?es = "rg_enrollments r"
  have "map en_name (?es[i := upd (?es ! i)]) = map en_name ?es"
    using index_of_Some [OF Some] by (simp add: map_update assms(2) list_update_same_conv)
  then have "rg_inv (r\<lparr>rg_enrollments := ?es[i := upd (?es ! i)]\<rparr>)" by (rule inv_names [OF assms(1)])
  then show ?thesis using Some assms(1) saveLocked_inv by (simp add: set_field_def Let_def)
qed (simp add: set_field_def assms)

lemma renumber_inv: "rg_inv r \<Longrightarrow> rg_inv (r\<lparr>rg_enrollments := renumber free base is (rg_enrollments r)\<rparr>)"
  using inv_names renumber_names by blast

lemma load_ok:
  assumes "stored_ok main" "stored_ok backup"
  shows "\<exists>r. loadEnrollmentRegistry main backup = Inr r \<and> rg_inv r
     \<and> (main \<noteq> Absent \<longrightarrow> main = Document enrollmentRegistryVersion (rg_enrollments r))"
  using assms
  by (cases main; cases backup)
    (auto simp: loadEnrollmentRegistry_def readEnrollmentsFile_def rg_inv_def names_ok_def Let_def)

lemma rg_step_inv: "rg_inv r \<Longrightarrow> rg_inv (rg_step op r)"
proof (cases op)
  case (RAssign f free base)
  assume "rg_inv r"
  then show ?thesis
    using RAssign saveLocked_inv [OF renumber_inv]
    by (simp add: AssignMissingListenPorts_def Let_def split: prod.splits option.splits) (metis snd_conv)
next
  case (RHeal f free order base)
  assume "rg_inv r"
  then show ?thesis
    using RHeal saveLocked_inv [OF renumber_inv]
    by (simp add: HealDuplicateListenPorts_def Let_def split: prod.splits option.splits) (metis snd_conv)
next
  case RReload
  assume "rg_inv r"
  then show ?thesis using RReload load_ok [of "rg_main r" "rg_backup r"] by (auto simp: rg_inv_def)
qed (simp_all add: Add_inv Remove_inv set_field_inv SetClipboardSync_def SetNetworkID_def)

lemma rg_run_inv: "rg_inv r \<Longrightarrow> rg_inv (rg_run ops r)"
  unfolding rg_run_def by (induction ops arbitrary: r) (simp_all add: rg_step_inv)

lemma fresh_inv: "rg_inv fresh_registry"
  by (simp add: rg_inv_def fresh_registry_def names_ok_def)

lemma found: "find P xs = Some x \<Longrightarrow> P x"
  by (induction xs) (auto split: if_splits)

lemma chosen_name:
  assumes "chooseEnrollmentName r explicit preferred = Inr name"
  shows "validateEnrollmentName name = None \<and> registry_Get name r = None"
  using assms
  by (auto simp: chooseEnrollmentName_def split: if_splits option.splits dest!: found)

text \<open>
  Property C31. The registry of an agent survives. In every history from a fresh installation, with restarts
  and failing writes at any point, the enrollments in memory have distinct names that pass the check
  (so that they can be directory names), and a restart loads a registry with the same guarantee. A
  name that \<open>chooseEnrollmentName\<close> proposes can be added: when the write of the file succeeds, a restart
  finds the old enrollments and the new one, whatever becomes of the backup.
\<close>

theorem registry_survives:
  assumes r: "r = rg_run ops fresh_registry"
    and chosen: "chooseEnrollmentName r explicit preferred = Inr (en_name e)"
  shows "names_ok (rg_enrollments r)
    \<and> (\<exists>r'. loadEnrollmentRegistry (rg_main r) (rg_backup r) = Inr r' \<and> names_ok (rg_enrollments r'))
    \<and> (\<exists>r' r''. registry_Add (None, bak) e r = (None, r') \<and> loadEnrollmentRegistry (rg_main r') (rg_backup r') = Inr r''
          \<and> rg_enrollments r'' = rg_enrollments r @ [e])"
proof -
  have inv: "rg_inv r" unfolding r by (rule rg_run_inv [OF fresh_inv])
  have "\<not> (\<exists>x \<in> set (rg_enrollments r). en_name x = en_name e)" and "validateEnrollmentName (en_name e) = None"
    using chosen_name [OF chosen] by (auto simp: registry_Get_def find_None_iff)
  then obtain r' where r': "registry_Add (None, bak) e r = (None, r')"
      "rg_main r' = Document enrollmentRegistryVersion (rg_enrollments r @ [e])"
    by (simp add: registry_Add_def saveLocked_def Let_def)
  have "rg_inv r'" using Add_inv [OF inv, of "(None, bak)" e] r'(1) by simp
  then obtain r'' where "loadEnrollmentRegistry (rg_main r') (rg_backup r') = Inr r''"
      "rg_enrollments r'' = rg_enrollments r @ [e]"
    using load_ok [of "rg_main r'" "rg_backup r'"] r'(2) by (auto simp: rg_inv_def)
  then show ?thesis using inv load_ok [of "rg_main r" "rg_backup r"] r'(1) by (auto simp: rg_inv_def)
qed

section \<open>Listen ports are unique after healing\<close>

lemma scan_ports_result:
  "scan_ports used free p = 0 \<or> (p \<le> scan_ports used free p \<and> scan_ports used free p < 65535
     \<and> \<not> used (scan_ports used free p) \<and> free (scan_ports used free p))"
proof (induction used free p rule: scan_ports.induct)
  case (1 used free p)
  show ?case
  proof (cases "p < 65535 \<and> \<not> (\<not> used p \<and> free p)")
    case True
    then have "scan_ports used free p = scan_ports used free (p + 1)" by (subst scan_ports.simps) auto
    then show ?thesis using 1 True by auto
  next
    case False
    then show ?thesis by (subst (1 2 3 4 5) scan_ports.simps) auto
  qed
qed

lemma next_unused:
  assumes "e \<in> set es" "en_port e > 0"
  shows "nextAvailableListenPort free base es \<noteq> en_port e"
  using scan_ports_result [of "\<lambda>p. \<exists>e \<in> set es. en_port e > 0 \<and> en_port e = p" free base] assms
  by (auto simp: nextAvailableListenPort_def)

lemma renumber_length [simp]: "length (renumber free base is es) = length es"
  by (induction "is" arbitrary: es) auto

lemma renumber_other: "j \<notin> set is \<Longrightarrow> renumber free base is es ! j = es ! j"
  by (induction "is" arbitrary: es) auto

definition clash_outside :: "nat set \<Rightarrow> Enrollment list \<Rightarrow> bool" where
  "clash_outside S es \<longleftrightarrow> (\<exists>i j. i < length es \<and> j < length es \<and> i \<noteq> j \<and> i \<notin> S \<and> j \<notin> S
     \<and> en_port (es ! i) = en_port (es ! j) \<and> en_port (es ! i) > 0)"

lemma renumber_clash: "\<not> clash_outside (set is) es \<Longrightarrow> \<not> clash_outside {} (renumber free base is es)"
proof (induction "is" arbitrary: es)
  case (Cons k "is")
  let ?q = "nextAvailableListenPort free base es"
  let ?es = "es[k := (es ! k)\<lparr>en_port := ?q\<rparr>]"
  have "\<not> clash_outside (set is) ?es"
  proof
    assume "clash_outside (set is) ?es"
    then obtain i j where ij: "i < length es" "j < length es" "i \<noteq> j" "i \<notin> set is" "j \<notin> set is"
        "en_port (?es ! i) = en_port (?es ! j)" "en_port (?es ! i) > 0"
      by (auto simp: clash_outside_def)
    consider "i = k" | "j = k" | "i \<noteq> k" "j \<noteq> k" by blast
    then show False
    proof cases
      case 1
      then have "en_port (es ! j) = ?q" "en_port (es ! j) > 0" using ij by simp_all
      then show False using next_unused [of "es ! j" es] ij(2) by auto
    next
      case 2
      then have "en_port (es ! i) = ?q" "en_port (es ! i) > 0" using ij by simp_all
      then show False using next_unused [of "es ! i" es] ij(1) by auto
    next
      case 3
      then have "clash_outside (set (k # is)) es" using ij unfolding clash_outside_def by (metis nth_list_update_neq set_ConsD)
      then show False using Cons.prems by simp
    qed
  qed
  then show ?case using Cons.IH by simp
qed simp

lemma port_group_set: "set (port_group es q) = {i. i < length es \<and> en_port (es ! i) = q}"
  by (auto simp: port_group_def)

lemma displaced_clash:
  assumes "{p \<in> en_port ` set es. p > 0} \<subseteq> set order"
  shows "\<not> clash_outside (set (displaced order es)) es"
proof
  assume "clash_outside (set (displaced order es)) es"
  then obtain i j where ij: "i < length es" "j < length es" "i \<noteq> j" "i \<notin> set (displaced order es)"
      "j \<notin> set (displaced order es)" "en_port (es ! i) = en_port (es ! j)" "en_port (es ! i) > 0"
    by (auto simp: clash_outside_def)
  let ?g = "port_group es (en_port (es ! i))"
  have "en_port (es ! i) \<in> set order" using assms nth_mem [OF ij(1)] ij(7) by blast
  then have "set (tl ?g) \<subseteq> set (displaced order es)" by (auto simp: displaced_def)
  then have "i \<notin> set (tl ?g)" "j \<notin> set (tl ?g)" using ij by auto
  moreover have "i \<in> set ?g" "j \<in> set ?g" using ij by (simp_all add: port_group_set)
  ultimately show False using ij(3) by (cases ?g) auto
qed

lemma oldest_not_displaced:
  assumes "port_group es q = k # rest"
  shows "k \<notin> set (displaced order es)"
proof
  assume "k \<in> set (displaced order es)"
  then obtain q' where k: "k \<in> set (tl (port_group es q'))" by (auto simp: displaced_def)
  have "k \<in> set (port_group es q')" using k by (cases "port_group es q'") auto
  moreover have "k \<in> set (port_group es q)" using assms by simp
  ultimately have "q' = q" by (simp add: port_group_set)
  moreover have "distinct (port_group es q)" by (simp add: port_group_def)
  ultimately show False using k assms by simp
qed

lemma oldest_first:
  assumes "port_group es q = k # rest" "j < length es" "en_port (es ! j) = q"
  shows "en_enrolled_at (es ! k) \<le> en_enrolled_at (es ! j)"
proof -
  have "sorted (map (\<lambda>i. en_enrolled_at (es ! i)) (k # rest))" using assms(1) by (metis port_group_def sorted_sort_key)
  moreover have "j \<in> set (k # rest)" using assms port_group_set [of es q] by auto
  ultimately show ?thesis by auto
qed

text \<open>
  Property C32. Healing makes the listen ports of an agent unique. After \<open>HealDuplicateListenPorts\<close>, in
  whatever order it visits the ports, no two enrollments share a port, and every port that was in use
  stays with an enrollment that had it and is one of the oldest of those.
\<close>

theorem heal_ports_unique:
  assumes order: "set order = {p \<in> en_port ` set (rg_enrollments r). p > 0}"
    and healed: "HealDuplicateListenPorts faults free order base r = (res, r')"
  shows "(i < length (rg_enrollments r') \<and> j < length (rg_enrollments r')
            \<and> en_port (rg_enrollments r' ! i) = en_port (rg_enrollments r' ! j) \<and> en_port (rg_enrollments r' ! i) > 0
          \<longrightarrow> i = j)
     \<and> (q \<in> set order \<longrightarrow> (\<exists>k. en_port (rg_enrollments r ! k) = q \<and> en_port (rg_enrollments r' ! k) = q
          \<and> (\<forall>l. l < length (rg_enrollments r) \<and> en_port (rg_enrollments r ! l) = q
               \<longrightarrow> en_enrolled_at (rg_enrollments r ! k) \<le> en_enrolled_at (rg_enrollments r ! l))))"
proof -
  let ?es = "rg_enrollments r"
  have r': "rg_enrollments r' = renumber free base (displaced order ?es) ?es"
    using healed by (cases "fst faults"; cases "displaced order ?es") (auto simp: HealDuplicateListenPorts_def saveLocked_def Let_def)
  have "\<not> clash_outside {} (rg_enrollments r')"
    unfolding r' by (rule renumber_clash [OF displaced_clash]) (use order in auto)
  moreover have "\<exists>k. en_port (?es ! k) = q \<and> en_port (rg_enrollments r' ! k) = q
      \<and> (\<forall>l. l < length ?es \<and> en_port (?es ! l) = q \<longrightarrow> en_enrolled_at (?es ! k) \<le> en_enrolled_at (?es ! l))"
    if q: "q \<in> set order"
  proof -
    obtain e where "e \<in> set ?es" "en_port e = q" using q unfolding order by blast
    then obtain n where "n < length ?es" "en_port (?es ! n) = q" by (auto simp: in_set_conv_nth)
    then have "n \<in> set (port_group ?es q)" by (simp add: port_group_set)
    then obtain k rest where g: "port_group ?es q = k # rest" by (cases "port_group ?es q") auto
    then have "en_port (?es ! k) = q" using port_group_set [of ?es q] by auto
    then show ?thesis
      using oldest_first [OF g] renumber_other [OF oldest_not_displaced [OF g]] unfolding r' by (intro exI [of _ k]) simp
  qed
  ultimately show ?thesis unfolding clash_outside_def by blast
qed

text \<open>Two enrollments of different age on one port: the older keeps it, the younger gets the next free one.\<close>

definition example_enrollment :: "string \<Rightarrow> int \<Rightarrow> int \<Rightarrow> Enrollment" where
  "example_enrollment name port created =
     \<lparr>en_name = name, en_node_id = ''n1'', en_network_id = ''w1'', en_endpoint = ''https://hop.example'', en_tun_mode = ''kernel'',
      en_ca_fingerprint = ''ab'', en_dns_domain = ''home'', en_port = port, en_clipboard = False, en_enrolled_at = created\<rparr>"

theorem registry_survives_witness:
  "\<exists>r' r''. registry_Add (None, Some (ErrMsg ''disk full'')) (example_enrollment ''lab'' 0 5)
        (rg_run [RAdd (None, None) (example_enrollment ''home'' 0 2), RReload] fresh_registry) = (None, r')
     \<and> loadEnrollmentRegistry (rg_main r') (rg_backup r') = Inr r''
     \<and> rg_enrollments r'' = [example_enrollment ''home'' 0 2, example_enrollment ''lab'' 0 5]"
proof -
  let ?r = "rg_run [RAdd (None, None) (example_enrollment ''home'' 0 2), RReload] fresh_registry"
  have "chooseEnrollmentName ?r ''lab'' [] = Inr (en_name (example_enrollment ''lab'' 0 5))" by code_simp
  moreover have "rg_enrollments ?r = [example_enrollment ''home'' 0 2]" by code_simp
  ultimately show ?thesis using registry_survives [OF refl, of _ "''lab''" "[]" _ "Some (ErrMsg ''disk full'')"] by fastforce
qed

theorem heal_ports_unique_witness:
  "let r = rg_run [RAdd (None, None) (example_enrollment ''home'' 4242 2), RAdd (None, None) (example_enrollment ''lab'' 4242 1)]
             fresh_registry;
       r' = snd (HealDuplicateListenPorts (None, None) (\<lambda>p. p \<noteq> 4243) [4242] 4242 r)
   in map en_port (rg_enrollments r') = [4244, 4242]
      \<and> \<not> (en_port (rg_enrollments r' ! 0) = en_port (rg_enrollments r' ! 1) \<and> en_port (rg_enrollments r' ! 0) > 0)"
proof -
  let ?r = "rg_run [RAdd (None, None) (example_enrollment ''home'' 4242 2), RAdd (None, None) (example_enrollment ''lab'' 4242 1)]
             fresh_registry"
  let ?h = "HealDuplicateListenPorts (None, None) (\<lambda>p. p \<noteq> 4243) [4242] 4242 ?r"
  have es: "rg_enrollments ?r = [example_enrollment ''home'' 4242 2, example_enrollment ''lab'' 4242 1]" by code_simp
  have order: "set [4242] = {p \<in> en_port ` set (rg_enrollments ?r). p > 0}"
    unfolding es by (auto simp: example_enrollment_def)
  have ports: "map en_port (rg_enrollments (snd ?h)) = [4244, 4242]" by code_simp
  then have "length (rg_enrollments (snd ?h)) = 2" by (metis length_map length_Cons list.size(3) numeral_2_eq_2)
  then show ?thesis
    using heal_ports_unique [OF order, of _ _ _ "fst ?h" "snd ?h" 0 1] ports by (simp add: Let_def)
qed

end
