(* ===== verification/NebulaConfig.thy ===== *)
theory NebulaConfig
  imports NodeStatus NetworkManager Registry
begin

text \<open>
  The configuration file of an enrollment, nebula.yaml, and the files beside it that the agent rewrites
  (src/internal/client/renew.go, routes.go, listenport.go, nebula.go, relay_state.go). A decoded document is a
  map from keys to values; nested Go maps are references, so that a section that was taken out with
  \<open>yamlMap\<close> and changed is changed in the document too. The YAML library is a record of functions on
  documents of any type, with the law that decoding what was encoded gives the same values. A file is
  the result of reading it. A handler that assigns to an entry of a nil map (the decoding of an empty
  document) panics; this is the result \<open>None\<close>.
\<close>

datatype yval =
    YNull
  | YBool bool
  | YInt int
  | YStr string
  | YScalar string
  | YSeq "yval list"
  | YMap "string \<rightharpoonup> yval"

type_synonym config = "string \<rightharpoonup> yval"

record 'b yaml_lib =
  y_unmarshal :: "'b \<Rightarrow> config option res"
  y_marshal :: "config \<Rightarrow> 'b res"

definition yaml_lib_ok :: "'b yaml_lib \<Rightarrow> bool" where
  "yaml_lib_ok Y \<longleftrightarrow> (\<forall>c d. y_marshal Y c = Inr d \<longrightarrow> y_unmarshal Y d = Inr (Some c))"

text \<open>\<open>atomicWrite\<close> replaces a file or leaves it; \<open>os.WriteFile\<close> truncates it first, so that a failure leaves anything.\<close>

definition atomicWrite :: "go_error option \<Rightarrow> 'b \<Rightarrow> 'b res \<Rightarrow> go_error option \<times> 'b res" where
  "atomicWrite fault data old = (case fault of Some err \<Rightarrow> (Some err, old) | None \<Rightarrow> (None, Inr data))"

definition WriteFile :: "(go_error \<times> 'b res) option \<Rightarrow> 'b \<Rightarrow> go_error option \<times> 'b res" where
  "WriteFile fault data = (case fault of Some (err, left) \<Rightarrow> (Some err, left) | None \<Rightarrow> (None, Inr data))"

section \<open>Edits of a document\<close>

text \<open>The comparison of an interface value with a string, an integer or a boolean.\<close>

fun equals :: "yval option \<Rightarrow> yval \<Rightarrow> bool" where
  "equals (Some (YStr a)) (YStr b) \<longleftrightarrow> a = b"
| "equals (Some (YInt a)) (YInt b) \<longleftrightarrow> a = b"
| "equals (Some (YBool a)) (YBool b) \<longleftrightarrow> a = b"
| "equals x y \<longleftrightarrow> False"

type_synonym edit = "config \<times> bool"

definition put :: "string \<Rightarrow> yval \<Rightarrow> edit \<Rightarrow> edit" where
  "put k v e = (if equals (fst e k) v then e else ((fst e)(k \<mapsto> v), True))"

definition assign :: "string \<Rightarrow> yval \<Rightarrow> edit \<Rightarrow> edit" where
  "assign k v e = ((fst e)(k \<mapsto> v), True)"

definition remove :: "string \<Rightarrow> edit \<Rightarrow> edit" where
  "remove k e = (if Option.is_none (fst e k) then e else ((fst e)(k := None), True))"

definition yamlMap :: "config \<Rightarrow> string \<Rightarrow> config" where
  "yamlMap cfg key = (case cfg key of Some (YMap m) \<Rightarrow> m | _ \<Rightarrow> Map.empty)"

definition in_section :: "string \<Rightarrow> (edit \<Rightarrow> edit) \<Rightarrow> edit \<Rightarrow> edit" where
  "in_section key f e = (let s = f (yamlMap (fst e) key, snd e) in ((fst e)(key \<mapsto> YMap (fst s)), snd s))"

section \<open>Settings pushed by the server\<close>

record nebulaConfigUpdate =
  nu_use_relays :: "bool option"
  nu_punch_back :: "bool option"
  nu_punch_delay :: string
  nu_mtu :: "int option"
  nu_listen_port :: "int option"

definition pushed :: "nebulaConfigUpdate \<Rightarrow> edit \<Rightarrow> edit" where
  "pushed u e =
     (let e = (case nu_use_relays u of None \<Rightarrow> e | Some b \<Rightarrow> in_section ''relay'' (assign ''use_relays'' (YBool b)) e);
          e = (case nu_punch_back u of None \<Rightarrow> e | Some b \<Rightarrow> in_section ''punchy'' (assign ''punch_back'' (YBool b)) e);
          e = (if nu_punch_delay u = [] then e else in_section ''punchy'' (assign ''delay'' (YStr (nu_punch_delay u))) e)
      in case nu_listen_port u of None \<Rightarrow> e | Some p \<Rightarrow> in_section ''listen'' (assign ''port'' (YInt p)) e)"

definition mergeNebulaConfig :: "'b yaml_lib \<Rightarrow> 'b \<Rightarrow> nebulaConfigUpdate \<Rightarrow> ('b \<times> bool) res option" where
  "mergeNebulaConfig Y data u =
     (case y_unmarshal Y data of
        Inl err \<Rightarrow> Some (Inl (ErrWrap ''parse config'' err))
      | Inr cfg \<Rightarrow>
          let e = pushed u (case cfg of None \<Rightarrow> Map.empty | Some c \<Rightarrow> c, False) in
          if \<not> snd e then Some (Inr (data, False))
          else case cfg of
            None \<Rightarrow> None
          | Some c \<Rightarrow>
              (case y_marshal Y (fst e) of
                 Inl err \<Rightarrow> Some (Inl (ErrWrap ''marshal config'' err))
               | Inr out \<Rightarrow> Some (Inr (out, True))))"

definition own_port :: "int \<Rightarrow> nebulaConfigUpdate \<Rightarrow> nebulaConfigUpdate" where
  "own_port listenPort u =
     (case nu_listen_port u of
        Some p \<Rightarrow> if listenPort > 0 \<and> p \<noteq> listenPort then u\<lparr>nu_listen_port := None\<rparr> else u
      | None \<Rightarrow> u)"

definition applyNebulaConfigUpdate ::
  "'b yaml_lib \<Rightarrow> go_error option \<Rightarrow> int \<Rightarrow> nebulaConfigUpdate \<Rightarrow> 'b res \<Rightarrow> (go_error option \<times> 'b res) option" where
  "applyNebulaConfigUpdate Y fault listenPort u f =
     (case f of
        Inl err \<Rightarrow> Some (Some (ErrWrap ''read config'' err), f)
      | Inr data \<Rightarrow>
          (case mergeNebulaConfig Y data (own_port listenPort u) of
             None \<Rightarrow> None
           | Some (Inl err) \<Rightarrow> Some (Some err, f)
           | Some (Inr (out, changed)) \<Rightarrow>
               if \<not> changed then Some (None, f)
               else (case atomicWrite fault out f of
                       (Some err, f') \<Rightarrow> Some (Some (ErrWrap ''write config'' err), f')
                     | (None, f') \<Rightarrow> Some (None, f'))))"

section \<open>Relay roles\<close>

record relayState =
  rs_am_relay :: bool
  rs_relays :: "string list"

definition unseen :: "string \<Rightarrow> string list \<Rightarrow> string list" where
  "unseen s out = (if s = [] \<or> s \<in> set out then out else out @ [s])"

definition normalizeRelays :: "string list \<Rightarrow> string list" where
  "normalizeRelays relays = sort (fold unseen relays [])"

text \<open>The decoded file: an error of reading or parsing, no file, or the stored state.\<close>

definition loadRelayState :: "relayState option res \<Rightarrow> relayState option res" where
  "loadRelayState f =
     (case f of Inl err \<Rightarrow> Inl err | Inr None \<Rightarrow> Inr None
      | Inr (Some s) \<Rightarrow> Inr (Some (s\<lparr>rs_relays := normalizeRelays (rs_relays s)\<rparr>)))"

definition saveRelayState ::
  "go_error option \<Rightarrow> bool \<Rightarrow> string list \<Rightarrow> relayState option res \<Rightarrow> go_error option \<times> relayState option res" where
  "saveRelayState fault amRelay relays f =
     (let relays = normalizeRelays relays; state = \<lparr>rs_am_relay = amRelay, rs_relays = relays\<rparr>
      in case loadRelayState f of
           Inr (Some cur) \<Rightarrow> if rs_am_relay cur = amRelay \<and> rs_relays cur = relays then (None, f)
                             else atomicWrite fault (Some state) f
         | _ \<Rightarrow> atomicWrite fault (Some state) f)"

fun strings_in :: "yval list \<Rightarrow> string list" where
  "strings_in [] = []"
| "strings_in (YStr s # xs) = s # strings_in xs"
| "strings_in (_ # xs) = strings_in xs"

definition relayListAsStrings :: "yval option \<Rightarrow> string list" where
  "relayListAsStrings v = (case v of Some (YSeq xs) \<Rightarrow> strings_in xs | _ \<Rightarrow> [])"

definition mergeRelayList :: "yval option \<Rightarrow> string list \<Rightarrow> string list" where
  "mergeRelayList existing peerRelays = fold unseen peerRelays (fold unseen (relayListAsStrings existing) [])"

definition relayListEqual :: "yval option \<Rightarrow> string list \<Rightarrow> bool" where
  "relayListEqual a b \<longleftrightarrow> relayListAsStrings a = b"

definition relay_edits :: "relayState \<Rightarrow> edit \<Rightarrow> edit" where
  "relay_edits st e =
     (let e = (if (case fst e ''am_relay'' of Some (YBool b) \<Rightarrow> b | _ \<Rightarrow> False) = rs_am_relay st then e
               else assign ''am_relay'' (YBool (rs_am_relay st)) e);
          merged = mergeRelayList (fst e ''relays'') (rs_relays st)
      in if rs_relays st = [] \<or> relayListEqual (fst e ''relays'') merged then e
         else assign ''relays'' (YSeq (map YStr merged)) e)"

section \<open>Settings the agent insists on\<close>

definition TunMTU :: int where
  "TunMTU = 1420"

definition ConnectionAliveIntervalSec :: int where
  "ConnectionAliveIntervalSec = 10"

definition PendingDeletionIntervalSec :: int where
  "PendingDeletionIntervalSec = 30"

definition QuoteMeta :: "string \<Rightarrow> string" where
  "QuoteMeta s = concat (map (\<lambda>c. if c \<in> set ''.+*?()|[]{}^$'' \<or> c = CHR 0x5C then [CHR 0x5C, c] else [c]) s)"

record agent_env =
  ae_dir :: string
  ae_name :: string
  ae_endpoint :: string
  ae_listen_port :: int
  ae_detect :: "string \<Rightarrow> string res"

definition tun_edits :: "string \<Rightarrow> edit \<Rightarrow> edit" where
  "tun_edits name e =
     (let e = (case fst e ''mtu'' of Some (YInt m) \<Rightarrow> put ''mtu'' (YInt TunMTU) e | _ \<Rightarrow> e)
      in if Option.is_none (fst e ''dev'') then e else put ''dev'' (YStr (meshIfaceName name)) e)"

definition allow_edits :: "agent_env \<Rightarrow> edit \<Rightarrow> edit" where
  "allow_edits A e =
     (let host = extractHost (ae_endpoint A) in
      if host = [] then e
      else case ae_detect A host of
        Inl err \<Rightarrow> e
      | Inr iface \<Rightarrow>
          in_section ''lighthouse''
            (assign ''local_allow_list'' (YMap [''interfaces'' \<mapsto> YMap [QuoteMeta iface \<mapsto> YBool True]])) e)"

definition p2p_edits :: "agent_env \<Rightarrow> relayState option \<Rightarrow> edit \<Rightarrow> edit" where
  "p2p_edits A rs e =
     (let e = in_section ''pki'' (\<lambda>s. put ''key'' (YStr (ae_dir A @ ''/node.key'')) (put ''cert'' (YStr (ae_dir A @ ''/node.crt''))
                (put ''ca'' (YStr (ae_dir A @ ''/ca.crt'')) s))) e;
          e = in_section ''listen'' (\<lambda>s. remove ''write_buffer'' (remove ''read_buffer''
                (if ae_listen_port A > 0 then put ''port'' (YInt (ae_listen_port A)) s else s))) e;
          e = put ''cipher'' (YStr Cipher) e;
          e = in_section ''timers'' (\<lambda>s. put ''pending_deletion_interval'' (YInt PendingDeletionIntervalSec)
                (put ''connection_alive_interval'' (YInt ConnectionAliveIntervalSec) s)) e;
          e = in_section ''punchy'' (\<lambda>s. put ''respond_delay'' (YStr RespondDelay) (put ''delay'' (YStr PunchDelay)
                (put ''target_all_remotes'' (YBool True) s))) e;
          e = in_section ''handshakes'' (put ''try_interval'' (YStr HandshakeTryInterval)) e;
          e = (case fst e ''tun'' of Some (YMap t) \<Rightarrow> in_section ''tun'' (tun_edits (ae_name A)) e | _ \<Rightarrow> e);
          e = put ''routines'' (YInt Routines) e;
          e = in_section ''lighthouse'' (\<lambda>s. if Option.is_none (fst s ''preferred_ranges'')
                then assign ''preferred_ranges'' (YSeq (map YStr [''192.168.0.0/16'', ''172.16.0.0/12'', ''10.0.0.0/8''])) s else s) e;
          e = allow_edits A e
      in case rs of None \<Rightarrow> e | Some st \<Rightarrow> in_section ''relay'' (relay_edits st) e)"

definition ensureP2PConfig ::
  "'b yaml_lib \<Rightarrow> go_error option \<Rightarrow> agent_env \<Rightarrow> relayState option res \<Rightarrow> 'b res \<Rightarrow> 'b res option" where
  "ensureP2PConfig Y fault A relay_file f =
     (case f of
        Inl err \<Rightarrow> Some f
      | Inr data \<Rightarrow>
          (case y_unmarshal Y data of
             Inl err \<Rightarrow> Some f
           | Inr None \<Rightarrow> None
           | Inr (Some cfg) \<Rightarrow>
               let e = p2p_edits A (case loadRelayState relay_file of Inr st \<Rightarrow> st | Inl err \<Rightarrow> None) (cfg, False) in
               if \<not> snd e then Some f
               else case y_marshal Y (fst e) of
                      Inl err \<Rightarrow> Some f
                    | Inr out \<Rightarrow> Some (snd (atomicWrite fault out f))))"

section \<open>Mode of the tunnel device\<close>

definition upgradeTunMode ::
  "'b yaml_lib \<Rightarrow> (go_error \<times> string res) option \<Rightarrow> go_error option \<Rightarrow> string res \<Rightarrow> 'b res \<Rightarrow> (string res \<times> 'b res) option" where
  "upgradeTunMode Y mode_fault fault mode_file f =
     (let mode_file = snd (WriteFile mode_fault ''kernel'') in
      case f of
        Inl err \<Rightarrow> Some (mode_file, f)
      | Inr data \<Rightarrow>
          (case y_unmarshal Y data of
             Inl err \<Rightarrow> Some (mode_file, f)
           | Inr None \<Rightarrow> None
           | Inr (Some cfg) \<Rightarrow>
               (case y_marshal Y (cfg(''tun'' \<mapsto> YMap [''dev'' \<mapsto> YStr ''utun'', ''mtu'' \<mapsto> YInt TunMTU])) of
                  Inl err \<Rightarrow> Some (mode_file, f)
                | Inr out \<Rightarrow> Some (mode_file, snd (atomicWrite fault out f)))))"

definition currentTunMode :: "bool \<Rightarrow> string res \<Rightarrow> string" where
  "currentTunMode privileged mode_file =
     (case mode_file of
        Inl err \<Rightarrow> if privileged then ''kernel'' else ''userspace''
      | Inr data \<Rightarrow>
          let mode = TrimSpace data in
          if mode = ''userspace'' \<and> privileged then ''kernel''
          else if mode = ''kernel'' then ''kernel'' else ''userspace'')"

definition readTunMode ::
  "'b yaml_lib \<Rightarrow> (go_error \<times> string res) option \<Rightarrow> go_error option \<Rightarrow> bool \<Rightarrow> string res \<Rightarrow> 'b res
     \<Rightarrow> (string \<times> string res \<times> 'b res) option" where
  "readTunMode Y mode_fault fault privileged mode_file f =
     (case mode_file of
        Inl err \<Rightarrow> Some (if privileged then ''kernel'' else ''userspace'', mode_file, f)
      | Inr data \<Rightarrow>
          let mode = TrimSpace data in
          if mode = ''userspace'' \<and> privileged
          then map_option (\<lambda>(m, f). (''kernel'', m, f)) (upgradeTunMode Y mode_fault fault mode_file f)
          else Some (if mode = ''kernel'' then ''kernel'' else ''userspace'', mode_file, f))"

section \<open>Routes\<close>

definition normaliseRoutes :: "string list \<Rightarrow> string list" where
  "normaliseRoutes rs = sort (fold (\<lambda>r. unseen (TrimSpace r)) rs [])"

definition loadPersistedRoutes :: "string res \<Rightarrow> string list" where
  "loadPersistedRoutes f =
     (case f of Inl err \<Rightarrow> [] | Inr data \<Rightarrow> filter (\<lambda>l. l \<noteq> []) (map TrimSpace (Split CHR 0x0A data)))"

text \<open>The error of removing the file is ignored; \<open>kept\<close> says that the removal failed.\<close>

definition persistRoutes :: "go_error option \<Rightarrow> bool \<Rightarrow> string list \<Rightarrow> string res \<Rightarrow> go_error option \<times> string res" where
  "persistRoutes fault kept rs f =
     (if rs = [] then (None, if kept then f else Inl not_exist)
      else atomicWrite fault (concat (map (\<lambda>r. r @ [CHR 0x0A]) rs)) f)"

definition route_entries :: "string list \<Rightarrow> config \<Rightarrow> config" where
  "route_entries rs tun =
     (if rs = [] then tun(''unsafe_routes'' := None)
      else tun(''unsafe_routes'' \<mapsto> YSeq (map (\<lambda>r. YMap [''route'' \<mapsto> YStr r]) rs)))"

definition rewriteNebulaUnsafeRoutes ::
  "'b yaml_lib \<Rightarrow> (go_error \<times> 'b res) option \<Rightarrow> string list \<Rightarrow> 'b res \<Rightarrow> (go_error option \<times> 'b res) option" where
  "rewriteNebulaUnsafeRoutes Y fault rs f =
     (case f of
        Inl err \<Rightarrow> Some (Some err, f)
      | Inr data \<Rightarrow>
          (case y_unmarshal Y data of
             Inl err \<Rightarrow> Some (Some err, f)
           | Inr None \<Rightarrow> None
           | Inr (Some cfg) \<Rightarrow>
               (case y_marshal Y (cfg(''tun'' \<mapsto> YMap (route_entries rs (yamlMap cfg ''tun'')))) of
                  Inl err \<Rightarrow> Some (Some err, f)
                | Inr out \<Rightarrow> Some (WriteFile fault out))))"

text \<open>The last component says whether Nebula is reloaded.\<close>

definition applyRoutesUpdate ::
  "'b yaml_lib \<Rightarrow> go_error option \<Rightarrow> bool \<Rightarrow> (go_error \<times> 'b res) option \<Rightarrow> string list \<Rightarrow> string res \<Rightarrow> 'b res
     \<Rightarrow> (string res \<times> 'b res \<times> bool) option" where
  "applyRoutesUpdate Y fault kept yfault fresh routes_file f =
     (let cleaned = normaliseRoutes fresh in
      if cleaned = loadPersistedRoutes routes_file then Some (routes_file, f, False)
      else case persistRoutes fault kept cleaned routes_file of
        (Some err, routes_file) \<Rightarrow> Some (routes_file, f, False)
      | (None, routes_file) \<Rightarrow>
          (case rewriteNebulaUnsafeRoutes Y yfault cleaned f of
             None \<Rightarrow> None
           | Some (Some err, f) \<Rightarrow> Some (routes_file, f, False)
           | Some (None, f) \<Rightarrow> Some (routes_file, f, True)))"

section \<open>Listen ports\<close>

definition healListenPortYAML ::
  "'b yaml_lib \<Rightarrow> (go_error \<times> 'b res) option \<Rightarrow> int \<Rightarrow> 'b res \<Rightarrow> (go_error option \<times> 'b res) option" where
  "healListenPortYAML Y fault port f =
     (case f of
        Inl err \<Rightarrow> Some (Some err, f)
      | Inr data \<Rightarrow>
          (case y_unmarshal Y data of
             Inl err \<Rightarrow> Some (Some err, f)
           | Inr cfg \<Rightarrow>
               let doc = (case cfg of None \<Rightarrow> Map.empty | Some c \<Rightarrow> c);
                   listen = (case doc ''listen'' of Some (YMap m) \<Rightarrow> m | _ \<Rightarrow> [''host'' \<mapsto> YStr ''0.0.0.0'']);
                   curPort = (case listen ''port'' of Some (YInt p) \<Rightarrow> p | _ \<Rightarrow> 0)
               in if curPort = port then Some (None, f)
                  else case cfg of
                    None \<Rightarrow> None
                  | Some c \<Rightarrow>
                      (case y_marshal Y (doc(''listen'' \<mapsto> YMap (listen(''port'' \<mapsto> YInt port)))) of
                         Inl err \<Rightarrow> Some (Some err, f)
                       | Inr out \<Rightarrow> Some (WriteFile fault out))))"

definition ListenPort :: int where
  "ListenPort = 4242"

text \<open>
  The files of all enrollments by name; \<open>faults\<close> are the errors of the two registry writes and, by name, of
  the configuration files. A file that cannot be healed is left as the failed write left it.
\<close>

fun heal_all ::
  "'b yaml_lib \<Rightarrow> (string \<Rightarrow> (go_error \<times> 'b res) option) \<Rightarrow> Enrollment list \<Rightarrow> (string \<Rightarrow> 'b res) \<Rightarrow> (string \<Rightarrow> 'b res) option" where
  "heal_all Y yfaults [] files = Some files"
| "heal_all Y yfaults (e # es) files =
     (case healListenPortYAML Y (yfaults (en_name e)) (en_port e) (files (en_name e)) of
        None \<Rightarrow> None
      | Some (_, f) \<Rightarrow> heal_all Y yfaults es (files(en_name e := f)))"

definition migrateListenPorts ::
  "'b yaml_lib \<Rightarrow> faults \<Rightarrow> faults \<Rightarrow> (string \<Rightarrow> (go_error \<times> 'b res) option) \<Rightarrow> (int \<Rightarrow> bool) \<Rightarrow> int list
     \<Rightarrow> enrollmentRegistry \<Rightarrow> (string \<Rightarrow> 'b res) \<Rightarrow> (enrollmentRegistry \<times> (string \<Rightarrow> 'b res)) option" where
  "migrateListenPorts Y f1 f2 yfaults free order reg files =
     (case AssignMissingListenPorts f1 free ListenPort reg of
        (Inl err, reg) \<Rightarrow> Some (reg, files)
      | (Inr n, reg) \<Rightarrow>
          let reg = snd (HealDuplicateListenPorts f2 free order ListenPort reg) in
          map_option (\<lambda>files. (reg, files)) (heal_all Y yfaults (rg_enrollments reg) files))"

text \<open>\<open>hosts\<close> is the list \<open>lighthouse.hosts\<close> of the file, or the error of reading or decoding it.\<close>

definition readLighthouseAddrs :: "string list res \<Rightarrow> addr set" where
  "readLighthouseAddrs hosts =
     (case hosts of Inl err \<Rightarrow> {} | Inr hs \<Rightarrow> set (List.map_filter netip_ParseAddr hs))"

section \<open>What the edits do\<close>

lemma equals_Some: "equals x v \<Longrightarrow> x = Some v"
  by (cases "(x, v)" rule: equals.cases) auto

lemma put_get [simp]: "fst (put k v e) k = Some v"
  by (auto simp: put_def equals_Some)

lemma put_other [simp]: "k' \<noteq> k \<Longrightarrow> fst (put k v e) k' = fst e k'"
  by (simp add: put_def)

lemma assign_get [simp]: "fst (assign k v e) k' = (if k' = k then Some v else fst e k')"
  by (simp add: assign_def)

lemma remove_get [simp]: "fst (remove k e) k' = (if k' = k then None else fst e k')"
  by (simp add: remove_def Option.is_none_def)

lemma in_section_other [simp]: "k \<noteq> key \<Longrightarrow> fst (in_section key f e) k = fst e k"
  by (simp add: in_section_def Let_def)

lemma in_section_same [simp]: "fst (in_section key f e) key = Some (YMap (fst (f (yamlMap (fst e) key, snd e))))"
  by (simp add: in_section_def Let_def)

lemma yamlMap_Some [simp]: "cfg key = Some (YMap m) \<Longrightarrow> yamlMap cfg key = m"
  by (simp add: yamlMap_def)

lemma allow_edits_other [simp]: "k \<noteq> ''lighthouse'' \<Longrightarrow> fst (allow_edits A e) k = fst e k"
  by (simp add: allow_edits_def Let_def split: sum.split)

section \<open>The listen port survives\<close>

definition listens :: "int \<Rightarrow> config \<Rightarrow> bool" where
  "listens p cfg \<longleftrightarrow> (case cfg ''listen'' of Some (YMap m) \<Rightarrow> equals (m ''port'') (YInt p) | _ \<Rightarrow> False)"

lemma listens_iff: "listens p cfg \<longleftrightarrow> (\<exists>m. cfg ''listen'' = Some (YMap m) \<and> m ''port'' = Some (YInt p))"
  by (auto simp: listens_def dest: equals_Some split: option.splits yval.splits)

lemma listens_cong: "cfg' ''listen'' = cfg ''listen'' \<Longrightarrow> listens p cfg' = listens p cfg"
  by (simp add: listens_def)

lemma pushed_listens:
  assumes "listens p (fst e)" "nu_listen_port u \<in> {None, Some p}"
  shows "listens p (fst (pushed u e))"
  using assms
  by (auto simp: pushed_def Let_def listens_iff split: option.splits)

lemma p2p_listens:
  assumes "ae_listen_port A > 0"
  shows "listens (ae_listen_port A) (fst (p2p_edits A rs e))"
proof -
  have "fst (p2p_edits A rs e) ''listen'' = Some (YMap (fst (remove ''write_buffer'' (remove ''read_buffer''
      (put ''port'' (YInt (ae_listen_port A)) (yamlMap (fst (in_section ''pki'' (\<lambda>s. put ''key'' (YStr (ae_dir A @ ''/node.key''))
        (put ''cert'' (YStr (ae_dir A @ ''/node.crt'')) (put ''ca'' (YStr (ae_dir A @ ''/ca.crt'')) s))) e)) ''listen'',
        snd (in_section ''pki'' (\<lambda>s. put ''key'' (YStr (ae_dir A @ ''/node.key''))
        (put ''cert'' (YStr (ae_dir A @ ''/node.crt'')) (put ''ca'' (YStr (ae_dir A @ ''/ca.crt'')) s))) e)))))))"
    using assms by (simp add: p2p_edits_def Let_def split: option.split yval.split)
  then show ?thesis by (simp add: listens_iff)
qed

datatype 'b config_op =
    Push "go_error option" nebulaConfigUpdate
  | Ensure "go_error option" agent_env "relayState option res"
  | Upgrade "(go_error \<times> string res) option" "go_error option" "string res"
  | Routes "go_error option" bool "string list" "string res"
  | Heal

text \<open>One rewriting of the file; every enrollment has its own port \<open>p\<close>, which the environment of the agent carries.\<close>

fun config_step :: "'b yaml_lib \<Rightarrow> int \<Rightarrow> 'b config_op \<Rightarrow> 'b res \<Rightarrow> 'b res option" where
  "config_step Y p (Push fault u) f = map_option snd (applyNebulaConfigUpdate Y fault p u f)"
| "config_step Y p (Ensure fault A rf) f = ensureP2PConfig Y fault (A\<lparr>ae_listen_port := p\<rparr>) rf f"
| "config_step Y p (Upgrade mf fault mode) f = map_option snd (upgradeTunMode Y mf fault mode f)"
| "config_step Y p (Routes fault kept rs rf) f = map_option (\<lambda>(rf, f, r). f) (applyRoutesUpdate Y fault kept None rs rf f)"
| "config_step Y p Heal f = map_option snd (healListenPortYAML Y None p f)"

fun config_run :: "'b yaml_lib \<Rightarrow> int \<Rightarrow> 'b config_op list \<Rightarrow> 'b res \<Rightarrow> 'b res option" where
  "config_run Y p [] f = Some f"
| "config_run Y p (op # ops) f = (case config_step Y p op f of None \<Rightarrow> None | Some f' \<Rightarrow> config_run Y p ops f')"

definition holds_port :: "'b yaml_lib \<Rightarrow> int \<Rightarrow> 'b res \<Rightarrow> bool" where
  "holds_port Y p f \<longleftrightarrow> (\<exists>d cfg. f = Inr d \<and> y_unmarshal Y d = Inr (Some cfg) \<and> listens p cfg)"

lemma written_holds:
  assumes "yaml_lib_ok Y" "y_marshal Y cfg = Inr out" "listens p cfg"
  shows "holds_port Y p (Inr out)"
  using assms by (auto simp: holds_port_def yaml_lib_ok_def)

lemma atomicWrite_holds: "holds_port Y p f \<Longrightarrow> holds_port Y p (Inr out) \<Longrightarrow> holds_port Y p (snd (atomicWrite fault out f))"
  by (simp add: atomicWrite_def split: option.split)

lemma own_port_update: "p > 0 \<Longrightarrow> nu_listen_port (own_port p u) \<in> {None, Some p}"
  by (auto simp: own_port_def split: option.split)

lemma push_holds:
  assumes "yaml_lib_ok Y" "p > 0" "holds_port Y p f"
  shows "\<exists>err f'. applyNebulaConfigUpdate Y fault p u f = Some (err, f') \<and> holds_port Y p f'"
proof -
  obtain d cfg where f: "f = Inr d" "y_unmarshal Y d = Inr (Some cfg)" "listens p cfg"
    using assms(3) by (auto simp: holds_port_def)
  let ?e = "pushed (own_port p u) (cfg, False)"
  show ?thesis
  proof (cases "snd ?e")
    case True
    have l: "listens p (fst ?e)" using pushed_listens own_port_update [OF assms(2)] f(3) by simp
    show ?thesis
    proof (cases "y_marshal Y (fst ?e)")
      case (Inr out)
      have "holds_port Y p (snd (atomicWrite fault out f))"
        using atomicWrite_holds [OF assms(3)] written_holds [OF assms(1) Inr l] by blast
      then show ?thesis
        using True f Inr by (cases "atomicWrite fault out f"; cases "fst (atomicWrite fault out f)")
          (auto simp: applyNebulaConfigUpdate_def mergeNebulaConfig_def Let_def)
    qed (use True f assms(3) in \<open>simp add: applyNebulaConfigUpdate_def mergeNebulaConfig_def Let_def\<close>)
  qed (use f assms(3) in \<open>simp add: applyNebulaConfigUpdate_def mergeNebulaConfig_def Let_def\<close>)
qed

lemma config_step_holds:
  assumes "yaml_lib_ok Y" "p > 0" "holds_port Y p f"
  shows "\<exists>f'. config_step Y p op f = Some f' \<and> holds_port Y p f'"
proof (cases op)
  case (Push fault u)
  then show ?thesis using push_holds [OF assms, of fault u] by auto
next
  case (Ensure fault A rf)
  obtain d cfg where f: "f = Inr d" "y_unmarshal Y d = Inr (Some cfg)" "listens p cfg"
    using assms(3) by (auto simp: holds_port_def)
  let ?e = "p2p_edits (A\<lparr>ae_listen_port := p\<rparr>) (case loadRelayState rf of Inr st \<Rightarrow> st | Inl err \<Rightarrow> None) (cfg, False)"
  have l: "listens p (fst ?e)" using p2p_listens [of "A\<lparr>ae_listen_port := p\<rparr>"] assms(2) by simp
  show ?thesis
    using atomicWrite_holds [OF assms(3)] written_holds [OF assms(1) _ l] f assms(3) Ensure
    by (cases "y_marshal Y (fst ?e)") (auto simp: ensureP2PConfig_def Let_def)
next
  case (Upgrade mf fault mode)
  obtain d cfg where f: "f = Inr d" "y_unmarshal Y d = Inr (Some cfg)" "listens p cfg"
    using assms(3) by (auto simp: holds_port_def)
  let ?c = "cfg(''tun'' \<mapsto> YMap [''dev'' \<mapsto> YStr ''utun'', ''mtu'' \<mapsto> YInt TunMTU])"
  have l: "listens p ?c" using f(3) listens_cong [of ?c cfg] by simp
  show ?thesis
    using atomicWrite_holds [OF assms(3)] written_holds [OF assms(1) _ l] f assms(3) Upgrade
    by (cases "y_marshal Y ?c") (auto simp: upgradeTunMode_def Let_def)
next
  case (Routes fault kept rs rf)
  obtain d cfg where f: "f = Inr d" "y_unmarshal Y d = Inr (Some cfg)" "listens p cfg"
    using assms(3) by (auto simp: holds_port_def)
  let ?c = "cfg(''tun'' \<mapsto> YMap (route_entries (normaliseRoutes rs) (yamlMap cfg ''tun'')))"
  have l: "listens p ?c" using f(3) listens_cong [of ?c cfg] by simp
  show ?thesis
    using written_holds [OF assms(1) _ l] f assms(3) Routes
    by (cases "y_marshal Y ?c")
      (auto simp: applyRoutesUpdate_def rewriteNebulaUnsafeRoutes_def WriteFile_def Let_def split: prod.split option.split)
next
  case Heal
  then show ?thesis
    using assms(3) by (auto simp: holds_port_def listens_iff healListenPortYAML_def)
qed


text \<open>A library that keeps documents decoded.\<close>

definition plain_yaml :: "config yaml_lib" where
  "plain_yaml = \<lparr>y_unmarshal = (\<lambda>d. Inr (Some d)), y_marshal = Inr\<rparr>"

lemma plain_yaml_ok: "yaml_lib_ok plain_yaml"
  by (simp add: yaml_lib_ok_def plain_yaml_def)

definition example_config :: config where
  "example_config = [''listen'' \<mapsto> YMap [''host'' \<mapsto> YStr ''0.0.0.0'', ''port'' \<mapsto> YInt 4243], ''tun'' \<mapsto> YMap [''user'' \<mapsto> YBool True]]"

definition example_env :: agent_env where
  "example_env = \<lparr>ae_dir = ''/etc/hop-agent/home'', ae_name = ''home'', ae_endpoint = ''https://hop.example'', ae_listen_port = 0,
     ae_detect = (\<lambda>h. Inr ''en0'')\<rparr>"


section \<open>Routes on disk and in the configuration\<close>

lemma trim_by_idem: "trim_by P (trim_by P s) = trim_by P s"
proof (cases "trim_by P s")
  case (Cons c cs)
  then have h: "\<not> P c" "\<not> P (List.last (c # cs))" using trim_by_ends [of P s] by simp_all
  have "dropWhile P (rev (c # cs)) = rev (c # cs)"
    using h(2) by (simp add: dropWhile_eq_self_iff hd_append hd_rev split: if_splits)
  then show ?thesis using h(1) Cons by (simp add: trim_by_def)
next
  case Nil
  show ?thesis unfolding Nil by (simp add: trim_by_def)
qed

lemma TrimSpace_idem [simp]: "TrimSpace (TrimSpace s) = TrimSpace s"
  by (simp add: TrimSpace_def trim_by_idem)

lemma unseen_fold:
  "set (fold (\<lambda>r. unseen (f r)) rs out) = set out \<union> (f ` set rs - {[]})"
  by (induction rs arbitrary: out) (auto simp: unseen_def)

lemma set_normaliseRoutes: "set (normaliseRoutes rs) = TrimSpace ` set rs - {[]}"
  unfolding normaliseRoutes_def set_sort unseen_fold by simp

lemma persisted_lines:
  "list_all (\<lambda>r. CHR 0x0A \<notin> set r) rs \<Longrightarrow> Split CHR 0x0A (concat (map (\<lambda>r. r @ [CHR 0x0A]) rs)) = rs @ [[]]"
  by (induction rs) auto

definition one_line :: "string \<Rightarrow> bool" where
  "one_line r \<longleftrightarrow> CHR 0x0A \<notin> set r"

lemma load_persisted:
  assumes "list_all one_line rs"
  shows "loadPersistedRoutes (snd (persistRoutes None False (normaliseRoutes rs) rf)) = normaliseRoutes rs"
proof -
  let ?n = "normaliseRoutes rs"
  have n: "r \<noteq> [] \<and> TrimSpace r = r \<and> CHR 0x0A \<notin> set r" if r: "r \<in> set ?n" for r
  proof -
    obtain s where "s \<in> set rs" "r = TrimSpace s" "r \<noteq> []" using r set_normaliseRoutes by auto
    then show ?thesis using assms trim_by_set [of is_space s] by (auto simp: list_all_iff one_line_def TrimSpace_def trim_by_idem)
  qed
  have "map TrimSpace ?n = ?n" using n by (simp add: map_idI)
  moreover have "filter (\<lambda>l. l \<noteq> []) ?n = ?n" using n by (simp add: filter_id_conv)
  moreover have "TrimSpace [] = []" by (simp add: TrimSpace_def trim_by_def)
  ultimately show ?thesis
    using persisted_lines [of ?n] n
    by (cases "?n = []") (simp_all add: persistRoutes_def loadPersistedRoutes_def atomicWrite_def list_all_iff)
qed

definition routes_of :: "config \<Rightarrow> string list" where
  "routes_of cfg =
     (case yamlMap cfg ''tun'' ''unsafe_routes'' of
        Some (YSeq xs) \<Rightarrow> strings_in (map (\<lambda>x. case x of YMap m \<Rightarrow> (case m ''route'' of Some v \<Rightarrow> v | None \<Rightarrow> YNull) | _ \<Rightarrow> YNull) xs)
      | _ \<Rightarrow> [])"

lemma routes_of_entries [simp]: "routes_of (cfg(''tun'' \<mapsto> YMap (route_entries rs t))) = rs"
proof -
  have "strings_in (map (\<lambda>x. case x of YMap m \<Rightarrow> (case m ''route'' of Some v \<Rightarrow> v | None \<Rightarrow> YNull) | _ \<Rightarrow> YNull)
          (map (\<lambda>r. YMap [''route'' \<mapsto> YStr r]) rs)) = rs"
    by (induction rs) simp_all
  then show ?thesis by (simp add: routes_of_def route_entries_def)
qed

text \<open>The state file and the configuration name the same routes.\<close>

definition routes_in_sync :: "'b yaml_lib \<Rightarrow> string list \<Rightarrow> string res \<Rightarrow> 'b res \<Rightarrow> bool" where
  "routes_in_sync Y rs rf f \<longleftrightarrow>
     loadPersistedRoutes rf = rs \<and> (\<exists>d cfg. f = Inr d \<and> y_unmarshal Y d = Inr (Some cfg) \<and> routes_of cfg = rs)"

definition yaml_writes :: "'b yaml_lib \<Rightarrow> bool" where
  "yaml_writes Y \<longleftrightarrow> (\<forall>c. \<exists>d. y_marshal Y c = Inr d)"

lemma routes_applied:
  assumes "yaml_lib_ok Y" "yaml_writes Y" "routes_in_sync Y old rf f" "list_all one_line fresh"
  shows "\<exists>rf' f' r. applyRoutesUpdate Y None False None fresh rf f = Some (rf', f', r)
     \<and> routes_in_sync Y (normaliseRoutes fresh) rf' f' \<and> (r \<longleftrightarrow> normaliseRoutes fresh \<noteq> old)"
proof (cases "normaliseRoutes fresh = old")
  case True
  then show ?thesis using assms(3) by (auto simp: applyRoutesUpdate_def routes_in_sync_def)
next
  case False
  let ?n = "normaliseRoutes fresh"
  obtain d cfg where f: "f = Inr d" "y_unmarshal Y d = Inr (Some cfg)" "loadPersistedRoutes rf = old"
    using assms(3) by (auto simp: routes_in_sync_def)
  let ?c = "cfg(''tun'' \<mapsto> YMap (route_entries ?n (yamlMap cfg ''tun'')))"
  obtain d' where d': "y_marshal Y ?c = Inr d'" "y_unmarshal Y d' = Inr (Some ?c)"
    using assms(1,2) by (metis yaml_lib_ok_def yaml_writes_def)
  obtain rf' where rf': "persistRoutes None False ?n rf = (None, rf')"
    by (cases "?n = []") (simp_all add: persistRoutes_def atomicWrite_def)
  then have "loadPersistedRoutes rf' = ?n" using load_persisted [OF assms(4), of rf] by simp
  then have "routes_in_sync Y ?n rf' (Inr d')" using d' by (simp add: routes_in_sync_def)
  then show ?thesis
    using False f d' rf' by (intro exI [of _ rf'] exI [of _ "Inr d'"] exI [of _ True])
      (simp add: applyRoutesUpdate_def rewriteNebulaUnsafeRoutes_def WriteFile_def Let_def)
qed

text \<open>
  A failed rewriting is not repaired by the next heartbeat: the state file already names the new routes, so
  the same list is taken for no change.
\<close>

lemma failed_rewrite_not_retried:
  assumes "list_all one_line fresh" "normaliseRoutes fresh \<noteq> loadPersistedRoutes rf"
    and "rewriteNebulaUnsafeRoutes Y yfault (normaliseRoutes fresh) f = Some (Some err, f')"
  obtains rf' where "applyRoutesUpdate Y None False yfault fresh rf f = Some (rf', f', False)"
    "applyRoutesUpdate Y fault kept yfault' fresh rf' f' = Some (rf', f', False)"
proof -
  let ?n = "normaliseRoutes fresh"
  obtain rf' where rf': "persistRoutes None False ?n rf = (None, rf')"
    by (cases "?n = []") (simp_all add: persistRoutes_def atomicWrite_def)
  then have "loadPersistedRoutes rf' = ?n" using load_persisted [OF assms(1), of rf] by simp
  then show thesis using that [of rf'] assms(2,3) rf' by (simp add: applyRoutesUpdate_def Let_def)
qed

end
