(* ===== verification/Agent.thy ===== *)
theory Agent
  imports NebulaConfig
begin

text \<open>
  The life of the mesh instances of an agent (src/internal/client/client.go, instance.go, serverset.go,
  lifecycle.go, the reload of renew.go, keepalive.go, watcher_watchdog.go and watchdog_escalation.go). An
  instance is known by its position in a heap, because goroutines keep pointers to instances that were
  replaced. A running Nebula service holds the UDP port of its enrollment; services are numbered in the
  order of their start. The context of the client is live from \<open>Start\<close> to \<open>Stop\<close>. What the outside world answers during one attempt to start (the token file,
  Nebula, the listeners) is a record. A goroutine of an instance runs as long as the context of the
  instance is live.
\<close>

datatype job = CertRenewal | HeartbeatLoop | RenewalWatchdog | WatcherWatchdog | PathQuality | MeshKeepalive | ClipboardSync

datatype http_server = OnMesh nat | OnOS | Shut

text \<open>The last trip of a watchdog goroutine and its count of failed restarts in a row.\<close>

type_synonym watchdog = "int option \<times> nat"

record meshInstance =
  mi_enrollment :: Enrollment
  mi_live :: bool
  mi_svc :: "nat option"
  mi_watcher :: "nat option"
  mi_portmap :: bool
  mi_dns :: bool
  mi_jobs :: "job list"
  mi_on_restart :: bool
  mi_mesh_err :: "go_error option"
  mi_reload_at :: "int option"
  mi_stuck :: nat
  mi_restart_at :: "int option"
  mi_failures :: nat
  mi_renewal_at :: "int option"
  mi_heartbeat_at :: "int option"
  mi_watcher_at :: "int option"
  mi_renewal_dog :: watchdog
  mi_watcher_dog :: watchdog

record Client =
  cl_started :: bool
  cl_running :: bool
  cl_hook :: bool
  cl_enrolls :: enrollmentRegistry
  cl_heap :: "meshInstance list"
  cl_instances :: "string \<rightharpoonup> nat"
  cl_servers :: "string \<rightharpoonup> http_server"
  cl_boot_errors :: "string \<rightharpoonup> string"
  cl_open :: "nat list"
  cl_next :: nat
  cl_exits :: "int list"

record attempt =
  at_token :: "go_error option"
  at_config :: bool
  at_mode :: string
  at_kernel :: "go_error option"
  at_user :: "go_error option"
  at_dns :: bool
  at_portmap :: "go_error option"
  at_listen :: "go_error option"
  at_os_listen :: "go_error option"
  at_ids :: bool

definition second :: int where
  "second = 1000000000"

definition minute :: int where
  "minute = 60 * second"

section \<open>One instance\<close>

definition newMeshInstance :: "Enrollment \<Rightarrow> meshInstance" where
  "newMeshInstance e =
     \<lparr>mi_enrollment = e, mi_live = False, mi_svc = None, mi_watcher = None, mi_portmap = False, mi_dns = False, mi_jobs = [], mi_on_restart = False,
      mi_mesh_err = None, mi_reload_at = None, mi_stuck = 0, mi_restart_at = None, mi_failures = 0, mi_renewal_at = None,
      mi_heartbeat_at = None, mi_watcher_at = None, mi_renewal_dog = (None, 0), mi_watcher_dog = (None, 0)\<rparr>"

abbreviation inst_name :: "meshInstance \<Rightarrow> string" where
  "inst_name m \<equiv> en_name (mi_enrollment m)"

definition upd :: "nat \<Rightarrow> (meshInstance \<Rightarrow> meshInstance) \<Rightarrow> Client \<Rightarrow> Client" where
  "upd i f c = c\<lparr>cl_heap := (cl_heap c)[i := f (cl_heap c ! i)]\<rparr>"

abbreviation inst :: "nat \<Rightarrow> Client \<Rightarrow> meshInstance" where
  "inst i c \<equiv> cl_heap c ! i"

definition control :: "nat \<Rightarrow> Client \<Rightarrow> nat option" where
  "control i c = mi_svc (inst i c)"

text \<open>A new service in the instance, and the end of the one it has.\<close>

definition open_service :: "nat \<Rightarrow> Client \<Rightarrow> Client" where
  "open_service i c =
     (upd i (\<lambda>m. m\<lparr>mi_svc := Some (cl_next c)\<rparr>) c)\<lparr>cl_next := Suc (cl_next c), cl_open := cl_next c # cl_open c\<rparr>"

definition drop_service :: "nat \<Rightarrow> Client \<Rightarrow> Client" where
  "drop_service i c =
     (let c' = upd i (\<lambda>m. m\<lparr>mi_svc := None\<rparr>) c in
      case control i c of None \<Rightarrow> c' | Some s \<Rightarrow> c'\<lparr>cl_open := removeAll s (cl_open c)\<rparr>)"

definition startWatcher :: "nat \<Rightarrow> Client \<Rightarrow> Client" where
  "startWatcher i c = upd i (\<lambda>m. m\<lparr>mi_watcher := (if cl_started c then mi_svc m else None)\<rparr>) c"

definition stopWatcher :: "nat \<Rightarrow> Client \<Rightarrow> Client" where
  "stopWatcher i c = upd i (\<lambda>m. m\<lparr>mi_watcher := None\<rparr>) c"

definition startPortmap :: "go_error option \<Rightarrow> nat \<Rightarrow> Client \<Rightarrow> Client" where
  "startPortmap err i c = (if mi_portmap (inst i c) \<or> err \<noteq> None then c else upd i (\<lambda>m. m\<lparr>mi_portmap := True\<rparr>) c)"

definition inst_close :: "nat \<Rightarrow> Client \<Rightarrow> Client" where
  "inst_close i c =
     (let c = upd i (\<lambda>m. m\<lparr>mi_live := False\<rparr>) c;
          c = stopWatcher i c;
          c = upd i (\<lambda>m. m\<lparr>mi_portmap := False\<rparr>) c;
          c = drop_service i c
      in upd i (\<lambda>m. m\<lparr>mi_dns := False\<rparr>) c)"

definition reloadCooldown :: int where
  "reloadCooldown = 30 * second"

definition shouldAutoReload :: "int \<Rightarrow> nat \<Rightarrow> Client \<Rightarrow> bool \<times> Client" where
  "shouldAutoReload now i c =
     (case mi_reload_at (inst i c) of
        Some t \<Rightarrow> if now - t < reloadCooldown then (False, c) else (True, upd i (\<lambda>m. m\<lparr>mi_reload_at := Some now\<rparr>) c)
      | None \<Rightarrow> (True, upd i (\<lambda>m. m\<lparr>mi_reload_at := Some now\<rparr>) c))"

definition markRenewalActivity :: "int \<Rightarrow> nat \<Rightarrow> Client \<Rightarrow> Client" where
  "markRenewalActivity now i c = upd i (\<lambda>m. m\<lparr>mi_renewal_at := Some now\<rparr>) c"

definition markHeartbeatSuccess :: "int \<Rightarrow> nat \<Rightarrow> Client \<Rightarrow> Client" where
  "markHeartbeatSuccess now i c = upd i (\<lambda>m. m\<lparr>mi_heartbeat_at := Some now\<rparr>) c"

definition markWatcherActivity :: "int \<Rightarrow> nat \<Rightarrow> Client \<Rightarrow> Client" where
  "markWatcherActivity now i c = upd i (\<lambda>m. m\<lparr>mi_watcher_at := Some now\<rparr>) c"

definition age :: "int \<Rightarrow> int option \<Rightarrow> int" where
  "age now stamp = (case stamp of None \<Rightarrow> 4611686018427387903 | Some t \<Rightarrow> now - t)"

definition renewalActivityAge :: "int \<Rightarrow> meshInstance \<Rightarrow> int" where
  "renewalActivityAge now m = age now (mi_renewal_at m)"

definition heartbeatSuccessAge :: "int \<Rightarrow> meshInstance \<Rightarrow> int" where
  "heartbeatSuccessAge now m = age now (mi_heartbeat_at m)"

definition watcherActivityAge :: "int \<Rightarrow> meshInstance \<Rightarrow> int" where
  "watcherActivityAge now m = age now (mi_watcher_at m)"

section \<open>Registry of instances and servers\<close>

definition instances_add :: "nat \<Rightarrow> Client \<Rightarrow> Client" where
  "instances_add i c = c\<lparr>cl_instances := (cl_instances c)(inst_name (inst i c) \<mapsto> i)\<rparr>"

definition instances_remove :: "string \<Rightarrow> Client \<Rightarrow> nat option \<times> Client" where
  "instances_remove name c = (cl_instances c name, c\<lparr>cl_instances := (cl_instances c)(name := None)\<rparr>)"

definition set_server :: "nat \<Rightarrow> http_server \<Rightarrow> Client \<Rightarrow> Client" where
  "set_server i srv c = c\<lparr>cl_servers := (cl_servers c)(inst_name (inst i c) \<mapsto> srv)\<rparr>"

definition startMeshListener :: "go_error option \<Rightarrow> nat \<Rightarrow> Client \<Rightarrow> go_error option \<times> Client" where
  "startMeshListener err i c =
     (case err of
        Some e \<Rightarrow> (Some e, c)
      | None \<Rightarrow> (None, set_server i (case control i c of Some s \<Rightarrow> OnMesh s | None \<Rightarrow> Shut) c))"

definition startOSListener :: "go_error option \<Rightarrow> nat \<Rightarrow> Client \<Rightarrow> Client" where
  "startOSListener err i c = (case err of Some e \<Rightarrow> c | None \<Rightarrow> set_server i OnOS c)"

definition rebindMesh :: "go_error option \<Rightarrow> nat \<Rightarrow> Client \<Rightarrow> go_error option \<times> Client" where
  "rebindMesh err i c =
     (case cl_servers c (inst_name (inst i c)) of
        None \<Rightarrow> startMeshListener err i c
      | Some old \<Rightarrow>
          let c = set_server i Shut c in
          case err of
            Some e \<Rightarrow> (Some e, c)
          | None \<Rightarrow> (None, set_server i (case control i c of Some s \<Rightarrow> OnMesh s | None \<Rightarrow> Shut) c))"

definition shutdownInstance :: "string \<Rightarrow> Client \<Rightarrow> Client" where
  "shutdownInstance name c = c\<lparr>cl_servers := (cl_servers c)(name := None)\<rparr>"

definition shutdownAll :: "Client \<Rightarrow> Client" where
  "shutdownAll c = c\<lparr>cl_servers := Map.empty\<rparr>"

text \<open>Closes the registered instances one after the other; \<open>order\<close> is the order of the map iteration.\<close>

definition closeAll :: "nat list \<Rightarrow> Client \<Rightarrow> Client" where
  "closeAll order c = fold inst_close order (c\<lparr>cl_instances := Map.empty\<rparr>)"

section \<open>Bringing an enrollment up\<close>

definition startMeshWithError :: "attempt \<Rightarrow> go_error option" where
  "startMeshWithError a = (if at_mode a = ''kernel'' \<and> at_kernel a = None then None else at_user a)"

definition startNebulaByMode :: "attempt \<Rightarrow> go_error option" where
  "startNebulaByMode a = (if at_mode a = ''kernel'' then at_kernel a else at_user a)"

definition add_jobs :: "job list \<Rightarrow> nat \<Rightarrow> Client \<Rightarrow> Client" where
  "add_jobs js i c = upd i (\<lambda>m. m\<lparr>mi_jobs := mi_jobs m @ js\<rparr>) c"

text \<open>From the started service to the port mapping.\<close>

definition mesh_up :: "attempt \<Rightarrow> nat \<Rightarrow> Client \<Rightarrow> Client" where
  "mesh_up a i c =
     (let c = open_service i (upd i (\<lambda>m. m\<lparr>mi_mesh_err := None, mi_on_restart := cl_hook c\<rparr>) c);
          c = (if at_mode a = ''kernel'' then upd i (\<lambda>m. m\<lparr>mi_dns := at_dns a\<rparr>) c else c);
          c = (if en_endpoint (mi_enrollment (inst i c)) \<noteq> [] then startWatcher i c else c)
      in startPortmap (at_portmap a) i c)"

definition Client_startInstance :: "attempt \<Rightarrow> nat \<Rightarrow> Client \<Rightarrow> go_error option \<times> Client" where
  "Client_startInstance a i c =
     (let e = mi_enrollment (inst i c); c = upd i (\<lambda>m. m\<lparr>mi_live := cl_started c\<rparr>) c in
      case at_token a of
        Some err \<Rightarrow> (Some (ErrWrap ''read token'' (ErrWrap ''read token'' err)), c)
      | None \<Rightarrow>
          let c = (if en_endpoint e \<noteq> [] \<and> en_node_id e \<noteq> []
                   then add_jobs [CertRenewal, HeartbeatLoop, RenewalWatchdog, WatcherWatchdog] i c else c);
              fallback = (\<lambda>c. if cl_hook c then startOSListener (at_os_listen a) i c else c)
          in if \<not> at_config a then (None, fallback c)
             else case startMeshWithError a of
               Some err \<Rightarrow> (None, fallback (upd i (\<lambda>m. m\<lparr>mi_mesh_err := Some err, mi_on_restart := cl_hook c\<rparr>) c))
             | None \<Rightarrow>
                 let c = mesh_up a i c;
                     clipboard = (if en_clipboard e \<and> at_ids a \<and> en_endpoint e \<noteq> [] then [ClipboardSync] else []);
                     served = (if cl_hook c then startMeshListener (at_listen a) i c else (None, c))
                 in case fst served of
                      Some err \<Rightarrow> (Some (ErrWrap ''Nebula mesh listen'' err), snd served)
                    | None \<Rightarrow> (None, add_jobs ([PathQuality, MeshKeepalive] @ clipboard) i (snd served)))"

definition try_connect :: "attempt \<Rightarrow> string \<Rightarrow> Enrollment \<Rightarrow> Client \<Rightarrow> go_error option \<times> Client" where
  "try_connect a name e c =
     (let i = length (cl_heap c);
          c = instances_add i (c\<lparr>cl_heap := cl_heap c @ [newMeshInstance e]\<rparr>)
      in case Client_startInstance a i c of
           (Some err, c) \<Rightarrow> (Some err, inst_close i (snd (instances_remove name c)))
         | (None, c) \<Rightarrow>
             if control i c = None
             then (Some (case mi_mesh_err (inst i c) of
                           Some err \<Rightarrow> ErrWrap ''nebula did not start'' err
                         | None \<Rightarrow> ErrMsg ''nebula did not start (no specific error captured)''),
                   shutdownInstance name (inst_close i (snd (instances_remove name c))))
             else (None, c))"

definition retryable :: "go_error \<Rightarrow> bool" where
  "retryable err \<longleftrightarrow>
     Contains (Error err) ''address already in use'' \<or> Contains (Error err) ''device or resource busy''
     \<or> Contains (Error err) ''nebula did not start''"

definition em_dash :: string where
  "em_dash = [CHR 0xE2, CHR 0x80, CHR 0x94]"

definition right_arrow :: string where
  "right_arrow = [CHR 0xE2, CHR 0x86, CHR 0x92]"

definition connect_error :: "go_error \<Rightarrow> go_error" where
  "connect_error err =
     (let es = Error err in
      if Contains es ''certificate for this host is expired'' \<or> Contains es ''cert is expired''
      then ErrMsg (''connect failed: this device'' @ [CHR 0x27] @ ''s certificate is invalid for the current time '' @ em_dash
        @ '' your clock may be off from the server. Sync your system clock and try Connect again. (underlying: '' @ es @ '')'')
      else if Contains es ''address already in use'' \<or> Contains es ''device or resource busy''
      then ErrMsg (''connect failed after 4 attempts: another hop-agent on this device is using the network port. Open Settings ''
        @ right_arrow @ '' Danger zone '' @ right_arrow
        @ '' Reset to remove the conflicting install, then try Connect again. (underlying: '' @ es @ '')'')
      else ErrWrap ''connect failed after 4 attempts'' err)"

fun connect_attempts :: "attempt list \<Rightarrow> string \<Rightarrow> Enrollment \<Rightarrow> go_error \<Rightarrow> Client \<Rightarrow> go_error option \<times> Client" where
  "connect_attempts [] name e lastErr c = (Some (connect_error lastErr), c)"
| "connect_attempts (a # as) name e lastErr c =
     (case try_connect a name e c of
        (None, c) \<Rightarrow> (None, c)
      | (Some err, c) \<Rightarrow> if retryable err then connect_attempts as name e err c else (Some err, c))"

definition Client_connect :: "(nat \<Rightarrow> attempt) \<Rightarrow> string \<Rightarrow> Client \<Rightarrow> go_error option \<times> Client" where
  "Client_connect env name c =
     (if \<not> cl_running c then (Some (ErrMsg ''client not started: call Client.Start before connect''), c)
      else case registry_Get name (cl_enrolls c) of
        None \<Rightarrow> (Some (ErrMsg (''enrollment '' @ quoted name @ '' not found'')), c)
      | Some e \<Rightarrow>
          if (case cl_instances c name of Some i \<Rightarrow> control i c \<noteq> None | None \<Rightarrow> False) then (None, c)
          else
            let c = (case instances_remove name c of
                       (Some old, c) \<Rightarrow> shutdownInstance name (inst_close old c) | (None, c) \<Rightarrow> c)
            in connect_attempts (map env [0..<4]) name e (ErrMsg []) c)"

definition Client_disconnect :: "string \<Rightarrow> Client \<Rightarrow> Client" where
  "Client_disconnect name c =
     (case instances_remove name c of
        (None, c) \<Rightarrow> c
      | (Some i, c) \<Rightarrow> shutdownInstance name (inst_close i c))"

definition recordBootError :: "string \<Rightarrow> go_error \<Rightarrow> Client \<Rightarrow> Client" where
  "recordBootError name err c = c\<lparr>cl_boot_errors := (cl_boot_errors c)(name \<mapsto> Error err)\<rparr>"

definition clearBootError :: "string \<Rightarrow> Client \<Rightarrow> Client" where
  "clearBootError name c = c\<lparr>cl_boot_errors := (cl_boot_errors c)(name := None)\<rparr>"

definition Connect :: "(nat \<Rightarrow> attempt) \<Rightarrow> string \<Rightarrow> Client \<Rightarrow> go_error option \<times> Client" where
  "Connect env name c =
     (case Client_connect env name c of
        (Some err, c) \<Rightarrow> (Some err, recordBootError name err c)
      | (None, c) \<Rightarrow> (None, clearBootError name c))"

fun boot_all :: "(string \<Rightarrow> nat \<Rightarrow> attempt) \<Rightarrow> Enrollment list \<Rightarrow> Client \<Rightarrow> nat \<times> Client" where
  "boot_all env [] c = (0, c)"
| "boot_all env (e # es) c =
     (case Connect (env (en_name e)) (en_name e) c of
        (Some err, c) \<Rightarrow> (case boot_all env es c of (failed, c) \<Rightarrow> (Suc failed, c))
      | (None, c) \<Rightarrow> boot_all env es c)"

text \<open>\<open>migrated\<close> is the registry after \<open>migrateListenPorts\<close>.\<close>

definition Client_Start :: "(string \<Rightarrow> nat \<Rightarrow> attempt) \<Rightarrow> enrollmentRegistry \<Rightarrow> Client \<Rightarrow> go_error option \<times> Client" where
  "Client_Start env migrated c =
     (if cl_started c then (None, c)
      else
        let c = c\<lparr>cl_started := True, cl_running := True, cl_enrolls := migrated\<rparr>;
            es = rg_enrollments migrated
        in case boot_all env es c of (failed, c) \<Rightarrow>
             (if es \<noteq> [] \<and> failed = length es
              then Some (ErrMsg (''all '' @ itoa failed @ '' enrollment(s) failed to boot '' @ em_dash
                @ '' see per-enrollment lastError in /local/status''))
              else None, c))"

definition Client_Stop :: "nat list \<Rightarrow> Client \<Rightarrow> Client" where
  "Client_Stop order c =
     (if \<not> cl_started c then c
      else closeAll order (shutdownAll (c\<lparr>cl_started := False\<rparr>)))"

definition Client_Leave :: "faults \<Rightarrow> string \<Rightarrow> Client \<Rightarrow> go_error option \<times> Client" where
  "Client_Leave f name c =
     (let c = Client_disconnect name c in
      case registry_Remove f name (cl_enrolls c) of (err, reg) \<Rightarrow> (err, c\<lparr>cl_enrolls := reg\<rparr>))"
section \<open>Reloading Nebula\<close>

definition after_start :: "attempt \<Rightarrow> nat \<Rightarrow> Client \<Rightarrow> Client" where
  "after_start a i c =
     (let c = (if en_endpoint (mi_enrollment (inst i c)) \<noteq> [] then startWatcher i c else c)
      in if mi_on_restart (inst i c) then snd (rebindMesh (at_listen a) i c) else c)"

text \<open>The first component says whether a retry goroutine is started.\<close>

definition reloadNebula :: "attempt \<Rightarrow> nat \<Rightarrow> Client \<Rightarrow> bool \<times> Client" where
  "reloadNebula a i c =
     (if control i c = None then
        (case startMeshWithError a of
           Some err \<Rightarrow> (False, c)
         | None \<Rightarrow>
             let c = open_service i c;
                 c = (if at_mode a = ''kernel'' then upd i (\<lambda>m. m\<lparr>mi_dns := at_dns a\<rparr>) c else c)
             in (False, after_start a i c))
      else
        let c = drop_service i (stopWatcher i c) in
        case startNebulaByMode a of
          Some err \<Rightarrow> (True, c)
        | None \<Rightarrow> (False, after_start a i (open_service i c)))"

definition retryReloadBackoff :: "int list" where
  "retryReloadBackoff =
     [5 * second, 30 * second, 2 * minute, 5 * minute, 10 * minute, 15 * minute, 30 * minute, 30 * minute, 30 * minute, 30 * minute]"

text \<open>One attempt of the retry goroutine; the first component says that the goroutine ends.\<close>

definition retry_attempt :: "attempt \<Rightarrow> nat \<Rightarrow> Client \<Rightarrow> bool \<times> Client" where
  "retry_attempt a i c =
     (if control i c \<noteq> None then (True, c)
      else case startNebulaByMode a of
        Some err \<Rightarrow> (False, c)
      | None \<Rightarrow> (True, after_start a i (open_service i (drop_service i (stopWatcher i c)))))"

fun scheduleRetryReload :: "attempt list \<Rightarrow> nat \<Rightarrow> Client \<Rightarrow> Client" where
  "scheduleRetryReload [] i c = c"
| "scheduleRetryReload (a # as) i c =
     (case retry_attempt a i c of (ended, c) \<Rightarrow> if ended then c else scheduleRetryReload as i c)"

section \<open>Watchdogs\<close>

definition escalateAfterN :: nat where
  "escalateAfterN = 3"

definition escalationExitCode :: int where
  "escalationExitCode = 75"

definition recordRestartFailure :: "nat \<Rightarrow> Client \<Rightarrow> nat \<times> Client" where
  "recordRestartFailure consecutive c =
     (let n = Suc consecutive in
      (n, if n \<ge> escalateAfterN then c\<lparr>cl_exits := cl_exits c @ [escalationExitCode]\<rparr> else c))"

definition recordRestartSuccess :: nat where
  "recordRestartSuccess = 0"

definition watcherSilenceThreshold :: int where
  "watcherSilenceThreshold = 3 * minute"

definition renewalSilenceThreshold :: int where
  "renewalSilenceThreshold = 24 * 60 * minute div 4"

definition dog_cooldown :: int where
  "dog_cooldown = 30 * minute"

definition never_stamped :: int where
  "never_stamped = 100 * 365 * 24 * 60 * minute"

definition dog_trips :: "int \<Rightarrow> int \<Rightarrow> int \<Rightarrow> watchdog \<Rightarrow> bool" where
  "dog_trips now silence threshold dog \<longleftrightarrow>
     threshold \<le> silence \<and> silence \<le> never_stamped
     \<and> (case fst dog of None \<Rightarrow> True | Some t \<Rightarrow> \<not> now - t < dog_cooldown)"

text \<open>\<open>restartFn\<close> is \<open>connect\<close> for the name of the instance.\<close>

definition restartFn :: "(nat \<Rightarrow> attempt) \<Rightarrow> nat \<Rightarrow> Client \<Rightarrow> go_error option \<times> Client" where
  "restartFn env i c = Client_connect env (inst_name (inst i c)) c"

definition runWatcherWatchdog :: "(nat \<Rightarrow> attempt) \<Rightarrow> int \<Rightarrow> nat \<Rightarrow> Client \<Rightarrow> Client" where
  "runWatcherWatchdog env now i c =
     (let m = inst i c; dog = mi_watcher_dog m in
      if \<not> dog_trips now (watcherActivityAge now m) watcherSilenceThreshold dog then c
      else case restartFn env i (upd i (\<lambda>m. m\<lparr>mi_watcher_dog := (Some now, snd dog)\<rparr>) c) of
        (Some err, c) \<Rightarrow>
          (case recordRestartFailure (snd dog) c of (n, c) \<Rightarrow> upd i (\<lambda>m. m\<lparr>mi_watcher_dog := (Some now, n)\<rparr>) c)
      | (None, c) \<Rightarrow> upd i (\<lambda>m. m\<lparr>mi_watcher_dog := (Some now, recordRestartSuccess)\<rparr>) c)"

definition runRenewalWatchdog :: "(nat \<Rightarrow> attempt) \<Rightarrow> int \<Rightarrow> nat \<Rightarrow> Client \<Rightarrow> Client" where
  "runRenewalWatchdog env now i c =
     (let m = inst i c; dog = mi_renewal_dog m in
      if \<not> dog_trips now (renewalActivityAge now m) renewalSilenceThreshold dog then c
      else case restartFn env i (upd i (\<lambda>m. m\<lparr>mi_renewal_dog := (Some now, snd dog)\<rparr>) c) of
        (Some err, c) \<Rightarrow>
          (case recordRestartFailure (snd dog) c of (n, c) \<Rightarrow> upd i (\<lambda>m. m\<lparr>mi_renewal_dog := (Some now, n)\<rparr>) c)
      | (None, c) \<Rightarrow> upd i (\<lambda>m. m\<lparr>mi_renewal_dog := (Some now, recordRestartSuccess)\<rparr>) c)"

definition watchdogStuckThreshold :: nat where
  "watchdogStuckThreshold = 3"

definition watchdogRestartCooldown :: int where
  "watchdogRestartCooldown = 5 * minute"

definition watchdogTrip :: "(nat \<Rightarrow> attempt) \<Rightarrow> int \<Rightarrow> nat \<Rightarrow> Client \<Rightarrow> Client" where
  "watchdogTrip env now i c =
     (if (case mi_restart_at (inst i c) of Some t \<Rightarrow> now - t < watchdogRestartCooldown | None \<Rightarrow> False) then c
      else case restartFn env i (upd i (\<lambda>m. m\<lparr>mi_restart_at := Some now\<rparr>) c) of
        (Some err, c) \<Rightarrow>
          (case recordRestartFailure (mi_failures (inst i c)) c of (n, c) \<Rightarrow> upd i (\<lambda>m. m\<lparr>mi_failures := n\<rparr>) c)
      | (None, c) \<Rightarrow> upd i (\<lambda>m. m\<lparr>mi_failures := recordRestartSuccess\<rparr>) c)"

text \<open>
  The hosts of the host map by their first address (none when the list is empty), the lighthouses, and
  whether a dial of the agent port succeeds. No peer counts as probed recently.
\<close>

definition keepaliveOneCycle :: "addr option list \<Rightarrow> addr set \<Rightarrow> (addr \<Rightarrow> bool) \<Rightarrow> nat \<Rightarrow> Client \<Rightarrow> nat \<times> nat \<times> nat \<times> nat" where
  "keepaliveOneCycle hosts lighthouses dial i c =
     (if control i c = None then (0, 0, 0, 0)
      else
        let peers = filter (\<lambda>a. a \<notin> lighthouses) (List.map_filter id hosts)
        in (length peers, length (filter dial peers), 0, length peers))"

definition runMeshKeepalive ::
  "(nat \<Rightarrow> attempt) \<Rightarrow> int \<Rightarrow> addr option list \<Rightarrow> addr set \<Rightarrow> (addr \<Rightarrow> bool) \<Rightarrow> nat \<Rightarrow> Client \<Rightarrow> Client" where
  "runMeshKeepalive env now hosts lighthouses dial i c =
     (case keepaliveOneCycle hosts lighthouses dial i c of (probed, succeeded, skipped, peers) \<Rightarrow>
        if peers > 0 \<and> probed > 0 \<and> succeeded = 0 then
          let n = Suc (mi_stuck (inst i c)); c = upd i (\<lambda>m. m\<lparr>mi_stuck := n\<rparr>) c in
          if n \<ge> watchdogStuckThreshold then upd i (\<lambda>m. m\<lparr>mi_stuck := 0\<rparr>) (watchdogTrip env now i c) else c
        else upd i (\<lambda>m. m\<lparr>mi_stuck := 0\<rparr>) c)"

section \<open>Histories of an agent\<close>

definition NewClient :: "bool \<Rightarrow> enrollmentRegistry \<Rightarrow> Client" where
  "NewClient hook reg =
     \<lparr>cl_started = False, cl_running = False, cl_hook = hook, cl_enrolls = reg, cl_heap = [], cl_instances = Map.empty,
      cl_servers = Map.empty, cl_boot_errors = Map.empty, cl_open = [], cl_next = 0, cl_exits = []\<rparr>"

datatype agent_op =
    OpConnect "nat \<Rightarrow> attempt" string
  | OpDisconnect string
  | OpStart "string \<Rightarrow> nat \<Rightarrow> attempt" enrollmentRegistry
  | OpStop "nat list"
  | OpLeave faults string
  | OpReload attempt nat
  | OpRetry attempt nat
  | OpWatcherDog "nat \<Rightarrow> attempt" int nat
  | OpRenewalDog "nat \<Rightarrow> attempt" int nat
  | OpKeepalive "nat \<Rightarrow> attempt" int "addr option list" "addr set" "addr \<Rightarrow> bool" nat
  | OpWatcherTick int nat
  | OpRenewalTick int nat

fun agent_step :: "agent_op \<Rightarrow> Client \<Rightarrow> Client" where
  "agent_step (OpConnect env name) c = snd (Connect env name c)"
| "agent_step (OpDisconnect name) c = Client_disconnect name c"
| "agent_step (OpStart env reg) c = snd (Client_Start env reg c)"
| "agent_step (OpStop order) c = Client_Stop order c"
| "agent_step (OpLeave f name) c = snd (Client_Leave f name c)"
| "agent_step (OpReload a i) c = snd (reloadNebula a i c)"
| "agent_step (OpRetry a i) c = snd (retry_attempt a i c)"
| "agent_step (OpWatcherDog env now i) c = runWatcherWatchdog env now i c"
| "agent_step (OpRenewalDog env now i) c = runRenewalWatchdog env now i c"
| "agent_step (OpKeepalive env now hosts lh dial i) c = runMeshKeepalive env now hosts lh dial i c"
| "agent_step (OpWatcherTick now i) c = markWatcherActivity now i c"
| "agent_step (OpRenewalTick now i) c = markRenewalActivity now i c"

text \<open>
  A goroutine of an instance acts while the context of the instance is live. A retry of a reload depends
  on the context of the client only. A reload may also be under way when its instance is closed.
  \<open>migrateListenPorts\<close> keeps the names of the registry.
\<close>

definition exists_inst :: "nat \<Rightarrow> Client \<Rightarrow> bool" where
  "exists_inst i c \<longleftrightarrow> i < length (cl_heap c)"

fun enabled :: "agent_op \<Rightarrow> Client \<Rightarrow> bool" where
  "enabled (OpStop order) c \<longleftrightarrow> distinct order \<and> set order = ran (cl_instances c)"
| "enabled (OpStart env reg) c \<longleftrightarrow> map en_name (rg_enrollments reg) = map en_name (rg_enrollments (cl_enrolls c))"
| "enabled (OpReload a i) c \<longleftrightarrow> exists_inst i c"
| "enabled (OpRetry a i) c \<longleftrightarrow> exists_inst i c \<and> cl_started c"
| "enabled (OpWatcherDog env now i) c \<longleftrightarrow> exists_inst i c \<and> mi_live (inst i c)"
| "enabled (OpRenewalDog env now i) c \<longleftrightarrow> exists_inst i c \<and> mi_live (inst i c)"
| "enabled (OpKeepalive env now hosts lh dial i) c \<longleftrightarrow> exists_inst i c \<and> mi_live (inst i c)"
| "enabled (OpWatcherTick now i) c \<longleftrightarrow> exists_inst i c"
| "enabled (OpRenewalTick now i) c \<longleftrightarrow> exists_inst i c"
| "enabled op c \<longleftrightarrow> True"

inductive agent_reachable :: "bool \<Rightarrow> enrollmentRegistry \<Rightarrow> Client \<Rightarrow> bool" for hook reg where
  agent_init: "agent_reachable hook reg (NewClient hook reg)"
| agent_next: "agent_reachable hook reg c \<Longrightarrow> enabled op c \<Longrightarrow> agent_reachable hook reg (agent_step op c)"

section \<open>What an operation on one instance leaves alone\<close>

definition calm :: "meshInstance \<Rightarrow> bool" where
  "calm m \<longleftrightarrow> snd (mi_watcher_dog m) = 0 \<and> snd (mi_renewal_dog m) = 0 \<and> mi_failures m = 0"

definition touched :: "nat \<Rightarrow> Client \<Rightarrow> Client \<Rightarrow> bool" where
  "touched i c c' \<longleftrightarrow>
     length (cl_heap c') = length (cl_heap c) \<and> (\<forall>j. j \<noteq> i \<longrightarrow> inst j c' = inst j c)
     \<and> mi_enrollment (inst i c') = mi_enrollment (inst i c) \<and> (calm (inst i c) \<longrightarrow> calm (inst i c'))
     \<and> (mi_live (inst i c') \<longrightarrow> mi_live (inst i c) \<or> cl_instances c (inst_name (inst i c)) = Some i)
     \<and> cl_instances c' = cl_instances c \<and> cl_exits c' = cl_exits c \<and> cl_started c' = cl_started c
     \<and> cl_running c' = cl_running c \<and> cl_enrolls c' = cl_enrolls c"

lemma touched_refl [intro!, simp]: "touched i c c"
  by (simp add: touched_def)

lemma touched_trans: "touched i c c' \<Longrightarrow> touched i c' c'' \<Longrightarrow> touched i c c''"
  by (auto simp: touched_def)

lemma upd_inst: "inst j (upd i f c) = (if j = i \<and> i < length (cl_heap c) then f (inst i c) else inst j c)"
  by (auto simp: upd_def nth_list_update list_update_beyond)

lemma upd_fields [simp]:
  "length (cl_heap (upd i f c)) = length (cl_heap c)" "cl_instances (upd i f c) = cl_instances c" "cl_exits (upd i f c) = cl_exits c"
  "cl_started (upd i f c) = cl_started c" "cl_open (upd i f c) = cl_open c" "cl_next (upd i f c) = cl_next c"
  "cl_servers (upd i f c) = cl_servers c" "cl_hook (upd i f c) = cl_hook c" "cl_running (upd i f c) = cl_running c"
  "cl_enrolls (upd i f c) = cl_enrolls c"
  by (simp_all add: upd_def)

definition gentle :: "(meshInstance \<Rightarrow> meshInstance) \<Rightarrow> bool" where
  "gentle f \<longleftrightarrow> (\<forall>m. mi_enrollment (f m) = mi_enrollment m \<and> (calm m \<longrightarrow> calm (f m)) \<and> (mi_live (f m) \<longrightarrow> mi_live m))"

lemma touched_upd [intro]: "gentle f \<Longrightarrow> touched i c (upd i f c)"
  by (simp add: touched_def upd_inst gentle_def)

lemma touched_fields:
  assumes "touched i c c'"
  shows "touched i c (c'\<lparr>cl_open := o1\<rparr>)" "touched i c (c'\<lparr>cl_next := n1\<rparr>)" "touched i c (c'\<lparr>cl_servers := s1\<rparr>)"
    "touched i c (c'\<lparr>cl_next := n1, cl_open := o1\<rparr>)"
  using assms by (simp_all add: touched_def)

lemma touched_set_server: "touched i c c' \<Longrightarrow> touched i c (set_server j srv c')"
  by (simp add: set_server_def touched_fields)

lemma touched_open_service: "touched i c (open_service i c)"
  unfolding open_service_def by (intro touched_fields(4) touched_upd) (simp add: gentle_def calm_def)

lemma touched_drop_service: "touched i c (drop_service i c)"
proof -
  have "touched i c (upd i (\<lambda>m. m\<lparr>mi_svc := None\<rparr>) c)" by (intro touched_upd) (simp add: gentle_def calm_def)
  then show ?thesis by (simp add: drop_service_def Let_def touched_fields split: option.split)
qed

lemma touched_startWatcher: "touched i c (startWatcher i c)"
  unfolding startWatcher_def by (intro touched_upd) (simp add: gentle_def calm_def)

lemma touched_stopWatcher: "touched i c (stopWatcher i c)"
  unfolding stopWatcher_def by (intro touched_upd) (simp add: gentle_def calm_def)

lemma touched_startPortmap: "touched i c (startPortmap err i c)"
  unfolding startPortmap_def by (simp add: touched_upd gentle_def calm_def)

lemma touched_add_jobs: "touched i c (add_jobs js i c)"
  unfolding add_jobs_def by (intro touched_upd) (simp add: gentle_def calm_def)

lemma touched_startMeshListener: "touched i c (snd (startMeshListener err i c))"
  by (simp add: startMeshListener_def touched_set_server split: option.split)

lemma touched_startOSListener: "touched i c (startOSListener err i c)"
  by (simp add: startOSListener_def touched_set_server split: option.split)

lemma touched_rebindMesh: "touched i c (snd (rebindMesh err i c))"
  by (simp add: rebindMesh_def touched_startMeshListener touched_set_server Let_def split: option.split)

lemma touched_shutdownInstance: "touched i c c' \<Longrightarrow> touched i c (shutdownInstance name c')"
  by (simp add: shutdownInstance_def touched_fields)

lemma touched_gentle_then: "touched i c c' \<Longrightarrow> gentle f \<Longrightarrow> touched i c (upd i f c')"
  using touched_trans touched_upd by blast

lemmas touched_steps =
  touched_trans [OF _ touched_open_service] touched_trans [OF _ touched_drop_service] touched_trans [OF _ touched_startWatcher]
  touched_trans [OF _ touched_stopWatcher] touched_trans [OF _ touched_startPortmap] touched_trans [OF _ touched_add_jobs]
  touched_trans [OF _ touched_startOSListener] touched_trans [OF _ touched_startMeshListener] touched_trans [OF _ touched_rebindMesh]
  touched_gentle_then

lemma touched_inst_close: "touched i c (inst_close i c)"
  unfolding inst_close_def Let_def by (intro touched_steps touched_refl) (simp_all add: gentle_def calm_def)

lemma touched_after_start: "touched i c (after_start a i c)"
  unfolding after_start_def Let_def by (simp add: touched_steps touched_refl)

lemma touched_reload: "touched i c (snd (reloadNebula a i c))"
proof (cases "control i c = None")
  case True
  have "touched i c (upd i (\<lambda>m. m\<lparr>mi_dns := at_dns a\<rparr>) (open_service i c))"
    by (intro touched_steps touched_refl) (simp add: gentle_def calm_def)
  then show ?thesis
    using True touched_open_service touched_trans [OF _ touched_after_start]
    by (auto simp: reloadNebula_def Let_def split: option.split)
next
  case False
  have d: "touched i c (drop_service i (stopWatcher i c))" by (intro touched_steps touched_refl)
  then have "touched i c (after_start a i (open_service i (drop_service i (stopWatcher i c))))"
    using touched_trans [OF _ touched_after_start] touched_steps(1) by blast
  then show ?thesis using False d by (auto simp: reloadNebula_def Let_def split: option.split)
qed

lemma touched_retry: "touched i c (snd (retry_attempt a i c))"
proof -
  have "touched i c (after_start a i (open_service i (drop_service i (stopWatcher i c))))"
    by (intro touched_trans [OF _ touched_after_start] touched_steps touched_refl)
  then show ?thesis by (auto simp: retry_attempt_def split: option.split)
qed

lemma touched_mesh_up: "touched i c (mesh_up a i c)"
proof -
  have "touched i c (open_service i (upd i (\<lambda>m. m\<lparr>mi_mesh_err := None, mi_on_restart := cl_hook c\<rparr>) c))"
    by (intro touched_steps touched_refl) (simp add: gentle_def calm_def)
  moreover have "gentle (\<lambda>m. m\<lparr>mi_dns := b\<rparr>)" for b by (simp add: gentle_def calm_def)
  ultimately show ?thesis unfolding mesh_up_def Let_def by (simp add: touched_steps)
qed

lemma touched_startInstance:
  assumes reg: "cl_instances c (inst_name (inst i c)) = Some i"
  shows "touched i c (snd (Client_startInstance a i c))"
proof -
  have "calm (m\<lparr>mi_live := b\<rparr>) = calm m" for m b by (simp add: calm_def)
  then have l: "touched i c (upd i (\<lambda>m. m\<lparr>mi_live := b\<rparr>) c)" for b
    using reg by (auto simp: touched_def upd_inst)
  define c1 where "c1 = upd i (\<lambda>m. m\<lparr>mi_live := cl_started c\<rparr>) c"
  define c2 where "c2 = (if en_endpoint (mi_enrollment (inst i c)) \<noteq> [] \<and> en_node_id (mi_enrollment (inst i c)) \<noteq> []
    then add_jobs [CertRenewal, HeartbeatLoop, RenewalWatchdog, WatcherWatchdog] i c1 else c1)"
  have c1: "touched i c c1" unfolding c1_def by (rule l)
  have c2: "touched i c c2" using touched_steps(6) [OF c1] c1 by (simp add: c2_def)
  have err: "touched i c (upd i (\<lambda>m. m\<lparr>mi_mesh_err := x, mi_on_restart := y\<rparr>) c2)" for x y
    by (rule touched_gentle_then [OF c2]) (simp add: gentle_def calm_def)
  have up: "touched i c (mesh_up a i c2)" by (rule touched_trans [OF c2 touched_mesh_up])
  show ?thesis
    unfolding Client_startInstance_def Let_def c1_def [symmetric] c2_def [symmetric]
    by (simp add: c1 c2 err up touched_steps(7) [OF c2] touched_steps(7) [OF err] touched_steps(8) [OF up]
        touched_steps(6) [OF up] touched_steps(6) [OF touched_steps(8) [OF up]] split: option.split)
qed

end
