(* ===== verification/Watchdogs.thy ===== *)
theory Watchdogs
  imports Agent
begin

text \<open>
  What the watchdogs of the agent can and cannot do: an invariant of all histories of an agent, and the
  consequence that a restart by a watchdog never replaces a running service and never ends the process.
\<close>

section \<open>The escalation of the watchdogs\<close>

text \<open>
  Registered instances have their key as name and an enrollment behind them, and their watchdogs have seen
  no failure; only registered instances are live; the process was never ended by a watchdog.
\<close>

definition dogs_idle :: "Client \<Rightarrow> bool" where
  "dogs_idle c \<longleftrightarrow> cl_exits c = []
     \<and> (\<forall>n i. cl_instances c n = Some i \<longrightarrow> i < length (cl_heap c) \<and> inst_name (inst i c) = n \<and> calm (inst i c)
           \<and> cl_running c \<and> n \<in> en_name ` set (rg_enrollments (cl_enrolls c)))
     \<and> (\<forall>i < length (cl_heap c). mi_live (inst i c) \<longrightarrow> cl_instances c (inst_name (inst i c)) = Some i)"

lemma idleD:
  assumes "dogs_idle c"
  shows "cl_exits c = []"
    and "cl_instances c n = Some i \<Longrightarrow> i < length (cl_heap c) \<and> inst_name (inst i c) = n \<and> calm (inst i c)"
    and "cl_instances c n = Some i \<Longrightarrow> cl_running c \<and> n \<in> en_name ` set (rg_enrollments (cl_enrolls c))"
    and "i < length (cl_heap c) \<Longrightarrow> mi_live (inst i c) \<Longrightarrow> cl_instances c (inst_name (inst i c)) = Some i"
  using assms unfolding dogs_idle_def by blast+

lemma idle_touched:
  assumes "dogs_idle c" "touched i c c'"
  shows "dogs_idle c'"
proof -
  have other: "inst j c' = inst j c" if "j \<noteq> i" for j using assms(2) that by (simp add: touched_def)
  have same: "inst_name (inst i c') = inst_name (inst i c)" "calm (inst i c) \<Longrightarrow> calm (inst i c')"
    "mi_live (inst i c') \<Longrightarrow> mi_live (inst i c) \<or> cl_instances c (inst_name (inst i c)) = Some i"
    "cl_instances c' = cl_instances c" "cl_exits c' = cl_exits c" "cl_running c' = cl_running c" "cl_enrolls c' = cl_enrolls c"
    "length (cl_heap c') = length (cl_heap c)"
    using assms(2) by (auto simp: touched_def)
  have "j < length (cl_heap c') \<and> inst_name (inst j c') = n \<and> calm (inst j c')" if "cl_instances c n = Some j" for n j
    using idleD(2) [OF assms(1) that] same other by (cases "j = i") auto
  moreover have "cl_instances c (inst_name (inst j c')) = Some j" if "j < length (cl_heap c')" "mi_live (inst j c')" for j
    using idleD(4) [OF assms(1)] that same other by (cases "j = i") auto
  ultimately show ?thesis
    unfolding dogs_idle_def using idleD(1,3) [OF assms(1)] same by auto
qed

lemma dead_after_close: "i < length (cl_heap c) \<Longrightarrow> \<not> mi_live (inst i (inst_close i c))"
  by (simp add: inst_close_def drop_service_def stopWatcher_def Let_def upd_inst split: option.split)

lemma idle_remove_close:
  assumes "dogs_idle c" "cl_instances c name = Some i"
  shows "dogs_idle (inst_close i (c\<lparr>cl_instances := (cl_instances c)(name := None)\<rparr>))"
proof -
  let ?d = "c\<lparr>cl_instances := (cl_instances c)(name := None)\<rparr>"
  let ?c = "inst_close i ?d"
  have i: "i < length (cl_heap c)" "inst_name (inst i c) = name" using idleD(2) [OF assms] by auto
  have t: "touched i ?d ?c" by (rule touched_inst_close)
  have other: "inst j ?c = inst j c" if "j \<noteq> i" for j using t that by (simp add: touched_def)
  have live: "\<not> mi_live (inst i ?c)" using i dead_after_close by simp
  have reg: "cl_instances ?c = (cl_instances c)(name := None)" "length (cl_heap ?c) = length (cl_heap c)" "cl_exits ?c = cl_exits c"
    "cl_running ?c = cl_running c" "cl_enrolls ?c = cl_enrolls c"
    using t by (simp_all add: touched_def)
  have "j \<noteq> i" if "n \<noteq> name" "cl_instances c n = Some j" for n j using idleD(2) [OF assms(1) that(2)] i that(1) by auto
  then have "j < length (cl_heap ?c) \<and> inst_name (inst j ?c) = n \<and> calm (inst j ?c)"
    if "n \<noteq> name" "cl_instances c n = Some j" for n j
    using idleD(2) [OF assms(1) that(2)] other that reg by metis
  moreover have "cl_instances c (inst_name (inst j ?c)) = Some j \<and> inst_name (inst j ?c) \<noteq> name"
    if "j < length (cl_heap ?c)" "mi_live (inst j ?c)" for j
    using idleD(4) [OF assms(1), of j] that reg live other assms(2) by (metis option.inject)
  ultimately show ?thesis
    unfolding dogs_idle_def reg using idleD(1,3) [OF assms(1)] by simp
qed

lemma idle_new:
  assumes "dogs_idle c" "cl_instances c (en_name e) = None" "cl_running c" "en_name e \<in> en_name ` set (rg_enrollments (cl_enrolls c))"
  shows "dogs_idle (instances_add (length (cl_heap c)) (c\<lparr>cl_heap := cl_heap c @ [newMeshInstance e]\<rparr>))"
proof -
  have "calm (newMeshInstance e)" "\<not> mi_live (newMeshInstance e)" "inst_name (newMeshInstance e) = en_name e"
    by (simp_all add: newMeshInstance_def calm_def)
  moreover have "inst_name (inst i c) \<noteq> en_name e" if "i < length (cl_heap c)" "mi_live (inst i c)" for i
    using idleD(4) [OF assms(1) that] assms(2) by auto
  ultimately show ?thesis
    unfolding dogs_idle_def instances_add_def
    using idleD [OF assms(1)] assms(2-4) by (auto simp: nth_append less_Suc_eq)
qed

definition grows :: "Client \<Rightarrow> Client \<Rightarrow> bool" where
  "grows c c' \<longleftrightarrow>
     length (cl_heap c) \<le> length (cl_heap c') \<and> (\<forall>j < length (cl_heap c). mi_enrollment (inst j c') = mi_enrollment (inst j c))"

lemma grows_refl [simp]: "grows c c"
  by (simp add: grows_def)

lemma grows_trans: "grows c c' \<Longrightarrow> grows c' c'' \<Longrightarrow> grows c c''"
  by (auto simp: grows_def)

lemma grows_touched: "touched i c c' \<Longrightarrow> grows c c'"
  unfolding touched_def grows_def by (metis order_refl)

text \<open>A failed attempt leaves nothing registered under the name.\<close>

definition after_attempt :: "string \<Rightarrow> Client \<Rightarrow> go_error option \<times> Client \<Rightarrow> bool" where
  "after_attempt name c r \<longleftrightarrow>
     dogs_idle (snd r) \<and> (fst r \<noteq> None \<longrightarrow> cl_instances (snd r) name = None) \<and> cl_running (snd r) = cl_running c
     \<and> cl_enrolls (snd r) = cl_enrolls c \<and> grows c (snd r)"

lemma try_connect_idle:
  assumes "dogs_idle c" "cl_instances c name = None" "cl_running c" "en_name e = name"
    "name \<in> en_name ` set (rg_enrollments (cl_enrolls c))"
  shows "after_attempt name c (try_connect a name e c)"
proof -
  let ?i = "length (cl_heap c)"
  define c0 where "c0 = instances_add ?i (c\<lparr>cl_heap := cl_heap c @ [newMeshInstance e]\<rparr>)"
  obtain r c1 where r: "Client_startInstance a ?i c0 = (r, c1)" by fastforce
  have i: "inst ?i c0 = newMeshInstance e" "length (cl_heap c0) = Suc ?i" "cl_running c0 = cl_running c" "cl_enrolls c0 = cl_enrolls c"
    by (simp_all add: c0_def instances_add_def)
  then have reg: "cl_instances c0 (inst_name (inst ?i c0)) = Some ?i"
    by (simp add: c0_def instances_add_def)
  have t: "touched ?i c0 c1" using touched_startInstance [OF reg, of a] r by simp
  have c1: "dogs_idle c1" using idle_touched [OF _ t] idle_new assms by (simp add: c0_def)
  have name: "cl_instances c1 name = Some ?i"
    using t reg i assms(4) by (simp add: touched_def newMeshInstance_def)
  let ?c2 = "inst_close ?i (c1\<lparr>cl_instances := (cl_instances c1)(name := None)\<rparr>)"
  have c2: "dogs_idle ?c2" by (rule idle_remove_close [OF c1 name])
  have t2: "touched ?i (c1\<lparr>cl_instances := (cl_instances c1)(name := None)\<rparr>) ?c2" by (rule touched_inst_close)
  have c2': "cl_instances ?c2 name = None" "cl_running ?c2 = cl_running c" "cl_enrolls ?c2 = cl_enrolls c" "length (cl_heap ?c2) = Suc ?i"
    using t2 t i by (simp_all add: touched_def)
  have "grows c c0" by (simp add: grows_def c0_def instances_add_def nth_append)
  then have "grows c c1" using grows_trans grows_touched [OF t] by blast
  then have g: "grows c c1" "grows c ?c2" "grows c (?c2\<lparr>cl_servers := sv\<rparr>)" for sv
    using grows_trans [OF _ grows_touched [OF t2]] by (auto simp: grows_def)
  have sh: "dogs_idle (shutdownInstance name ?c2)"
    by (rule idle_touched [OF c2 touched_shutdownInstance [OF touched_refl]])
  show ?thesis
    unfolding try_connect_def Let_def c0_def [symmetric] r
    using c1 c2 c2' sh t i g
    by (auto simp: after_attempt_def instances_remove_def shutdownInstance_def touched_def split: option.split)
qed

lemma attempts_idle:
  assumes "dogs_idle c" "cl_instances c name = None" "cl_running c" "en_name e = name"
    "name \<in> en_name ` set (rg_enrollments (cl_enrolls c))"
  shows "after_attempt name c (connect_attempts as name e err c)"
  using assms(1-3,5)
proof (induction "as" arbitrary: err c)
  case Nil
  then show ?case by (simp add: after_attempt_def)
next
  case (Cons a "as")
  obtain r c' where r: "try_connect a name e c = (r, c')" by fastforce
  have c': "after_attempt name c (r, c')" using try_connect_idle Cons.prems assms(4) r by metis
  show ?case
  proof (cases r)
    case (Some err')
    then show ?thesis using Cons.IH [of c' err'] Cons.prems c' r by (auto simp: after_attempt_def intro: grows_trans)
  qed (use c' r in simp)
qed

text \<open>
  \<open>connect\<close> keeps the invariant. On a running service it does nothing; when it fails for a registered
  name, the instance that was registered is gone.
\<close>

lemma connect_running:
  assumes "dogs_idle c" "cl_instances c name = Some i" "control i c \<noteq> None"
  shows "Client_connect env name c = (None, c)"
proof -
  have "registry_Get name (cl_enrolls c) \<noteq> None"
    using idleD(3) [OF assms(1,2)] by (auto simp: registry_Get_def find_None_iff)
  then show ?thesis using assms(2,3) idleD(3) [OF assms(1,2)] by (auto simp: Client_connect_def)
qed

definition keeps_idle :: "string \<Rightarrow> Client \<Rightarrow> go_error option \<times> Client \<Rightarrow> bool" where
  "keeps_idle name c r \<longleftrightarrow>
     dogs_idle (snd r) \<and> cl_enrolls (snd r) = cl_enrolls c \<and> grows c (snd r)
     \<and> (fst r \<noteq> None \<and> cl_instances c name \<noteq> None \<longrightarrow> cl_instances (snd r) name = None)"

lemma connect_idle:
  assumes "dogs_idle c"
  shows "keeps_idle name c (Client_connect env name c)"
proof (cases "cl_running c")
  case running: True
  show ?thesis
  proof (cases "registry_Get name (cl_enrolls c)")
    case None
    then have "cl_instances c name = None"
      using idleD(3) [OF assms] by (cases "cl_instances c name") (auto simp: registry_Get_def find_None_iff)
    then show ?thesis using running None assms by (simp add: Client_connect_def keeps_idle_def)
  next
    case (Some e)
    then have e: "en_name e = name" "name \<in> en_name ` set (rg_enrollments (cl_enrolls c))"
      by (auto simp: registry_Get_def find_Some_iff)
    define c' where "c' = (case instances_remove name c of
      (Some old, c) \<Rightarrow> shutdownInstance name (inst_close old c) | (None, c) \<Rightarrow> c)"
    have c': "dogs_idle c' \<and> cl_instances c' name = None \<and> cl_running c' = cl_running c \<and> cl_enrolls c' = cl_enrolls c
        \<and> grows c c'"
    proof (cases "cl_instances c name")
      case None
      then have "c' = c" by (simp add: c'_def instances_remove_def fun_upd_idem)
      then show ?thesis using None assms by simp
    next
      case (Some old)
      let ?d = "c\<lparr>cl_instances := (cl_instances c)(name := None)\<rparr>"
      have eq: "c' = shutdownInstance name (inst_close old ?d)" using Some by (simp add: c'_def instances_remove_def)
      have t: "touched old ?d c'" unfolding eq by (rule touched_shutdownInstance [OF touched_inst_close])
      have "dogs_idle c'"
        unfolding eq by (rule idle_touched [OF idle_remove_close [OF assms Some] touched_shutdownInstance [OF touched_refl]])
      moreover have "grows c c'" using grows_touched [OF t] by (simp add: grows_def)
      ultimately show ?thesis using t by (simp add: touched_def)
    qed
    have "after_attempt name c' (connect_attempts (map env [0..<4]) name e (ErrMsg []) c')"
      by (rule attempts_idle) (use c' running e in auto)
    then show ?thesis
      using running Some assms c' unfolding Client_connect_def c'_def [symmetric]
      by (auto simp: keeps_idle_def after_attempt_def Let_def simp del: upt_rec_numeral intro: grows_trans)
  qed
qed (use assms in \<open>auto simp: Client_connect_def keeps_idle_def dest: idleD(3)\<close>)

lemma idle_fields:
  assumes "dogs_idle c"
  shows "dogs_idle (c\<lparr>cl_boot_errors := b\<rparr>)" "dogs_idle (c\<lparr>cl_servers := s\<rparr>)" "dogs_idle (c\<lparr>cl_started := st\<rparr>)"
  using assms by (simp_all add: dogs_idle_def)

lemma Connect_idle: "dogs_idle c \<Longrightarrow> dogs_idle (snd (Connect env name c)) \<and> cl_enrolls (snd (Connect env name c)) = cl_enrolls c"
  using connect_idle [of c name env]
  by (auto simp: Connect_def keeps_idle_def recordBootError_def clearBootError_def idle_fields split: prod.split option.split)

lemma boot_all_idle: "dogs_idle c \<Longrightarrow> dogs_idle (snd (boot_all env es c))"
proof (induction es arbitrary: c)
  case (Cons e es)
  obtain r c' where r: "Connect (env (en_name e)) (en_name e) c = (r, c')" by fastforce
  then have "dogs_idle c'" using Connect_idle [OF Cons.prems, of "env (en_name e)" "en_name e"] by simp
  then show ?case using Cons.IH [of c'] r by (cases r) (auto split: prod.split)
qed simp

lemma disconnect_idle: "dogs_idle c \<Longrightarrow> dogs_idle (Client_disconnect name c)"
  using idle_remove_close [of c name] idle_touched [OF _ touched_shutdownInstance [OF touched_refl]]
  by (auto simp: Client_disconnect_def instances_remove_def fun_upd_idem split: option.split)

text \<open>A watchdog acts on a live instance: a failed restart has closed it.\<close>

lemma restart_idle:
  assumes "dogs_idle c" "exists_inst i c" "mi_live (inst i c)" "gentle f" "restartFn env i (upd i f c) = (r, c')"
  shows "dogs_idle c' \<and> (r \<noteq> None \<longrightarrow> \<not> mi_live (inst i c') \<and> cl_instances c' (inst_name (inst i c)) = None)"
proof -
  let ?c = "upd i f c" and ?n = "inst_name (inst i c)"
  have i: "i < length (cl_heap c)" using assms(2) by (simp add: exists_inst_def)
  have t: "touched i c ?c" by (rule touched_upd [OF assms(4)])
  have idle: "dogs_idle ?c" by (rule idle_touched [OF assms(1) t])
  have n: "inst_name (inst i ?c) = ?n" "cl_instances ?c ?n = Some i"
    using t idleD(4) [OF assms(1) i assms(3)] by (auto simp: touched_def)
  have k: "keeps_idle ?n ?c (r, c')" using connect_idle [OF idle, of ?n env] assms(5) n(1) by (simp add: restartFn_def)
  have "inst_name (inst i c') = ?n" "i < length (cl_heap c')"
    using k i n(1) by (auto simp: keeps_idle_def grows_def)
  then have "\<not> mi_live (inst i c')" if "r \<noteq> None"
    using k n(2) that idleD(4) [of c' i] by (auto simp: keeps_idle_def)
  then show ?thesis using k n by (auto simp: keeps_idle_def)
qed

lemma idle_unregistered:
  assumes "dogs_idle c" "cl_instances c (inst_name (inst i c)) = None"
    and "\<And>m. mi_enrollment (f m) = mi_enrollment m \<and> mi_live (f m) = mi_live m"
  shows "dogs_idle (upd i f c)"
proof -
  have "j \<noteq> i" if "cl_instances c n = Some j" for n j using idleD(2) [OF assms(1) that] assms(2) that by auto
  then show ?thesis
    using idleD [OF assms(1)] assms(2,3) unfolding dogs_idle_def by (auto simp: upd_inst split: if_splits)
qed

lemma dog_idle:
  assumes "dogs_idle c" "exists_inst i c" "mi_live (inst i c)" "gentle f" "gentle g"
    and h: "\<And>m. mi_enrollment (h m) = mi_enrollment m \<and> mi_live (h m) = mi_live m"
    and r: "restartFn env i (upd i f c) = (r, c')"
  shows "dogs_idle (if r = None then upd i g c' else upd i h c')"
proof (cases "r = None")
  case True
  then show ?thesis using restart_idle [OF assms(1-4) r] idle_touched [OF _ touched_upd [OF assms(5)]] by auto
next
  case False
  have idle: "dogs_idle c'" "cl_instances c' (inst_name (inst i c)) = None" "\<not> mi_live (inst i c')"
    using restart_idle [OF assms(1-4) r] False by auto
  have "inst_name (inst i c') = inst_name (inst i c)"
  proof -
    have "dogs_idle (upd i f c)" by (rule idle_touched [OF assms(1) touched_upd [OF assms(4)]])
    then have "grows (upd i f c) c'"
      using connect_idle [of "upd i f c" "inst_name (inst i (upd i f c))" env] r by (simp add: keeps_idle_def restartFn_def)
    then show ?thesis using assms(2,4) by (simp add: grows_def exists_inst_def upd_inst gentle_def)
  qed
  then show ?thesis using False idle_unregistered [OF idle(1) _ h] idle(2) by auto
qed

lemma live_calm:
  assumes "dogs_idle c" "exists_inst i c" "mi_live (inst i c)"
  shows "calm (inst i c)"
  using idleD(2) [OF assms(1) idleD(4) [OF assms(1) _ assms(3)]] assms(2) by (simp add: exists_inst_def)

lemma first_failure [simp]: "recordRestartFailure 0 c = (1, c)"
  by (simp add: recordRestartFailure_def escalateAfterN_def Let_def)

lemma watcher_dog_idle:
  assumes "dogs_idle c" "exists_inst i c" "mi_live (inst i c)"
  shows "dogs_idle (runWatcherWatchdog env now i c)"
proof -
  have z: "snd (mi_watcher_dog (inst i c)) = 0" using live_calm [OF assms] by (simp add: calm_def)
  let ?f = "\<lambda>n m. m\<lparr>mi_watcher_dog := (Some now, n)\<rparr>"
  have g: "gentle (?f 0)" by (simp add: gentle_def calm_def)
  obtain r c' where r: "restartFn env i (upd i (?f 0) c) = (r, c')" by fastforce
  have "dogs_idle (if r = None then upd i (?f 0) c' else upd i (?f 1) c')"
    by (rule dog_idle [OF assms g g _ r]) simp
  then show ?thesis
    using assms(1) r z by (auto simp: runWatcherWatchdog_def recordRestartSuccess_def Let_def split: option.split)
qed

lemma renewal_dog_idle:
  assumes "dogs_idle c" "exists_inst i c" "mi_live (inst i c)"
  shows "dogs_idle (runRenewalWatchdog env now i c)"
proof -
  have z: "snd (mi_renewal_dog (inst i c)) = 0" using live_calm [OF assms] by (simp add: calm_def)
  let ?f = "\<lambda>n m. m\<lparr>mi_renewal_dog := (Some now, n)\<rparr>"
  have g: "gentle (?f 0)" by (simp add: gentle_def calm_def)
  obtain r c' where r: "restartFn env i (upd i (?f 0) c) = (r, c')" by fastforce
  have "dogs_idle (if r = None then upd i (?f 0) c' else upd i (?f 1) c')"
    by (rule dog_idle [OF assms g g _ r]) simp
  then show ?thesis
    using assms(1) r z by (auto simp: runRenewalWatchdog_def recordRestartSuccess_def Let_def split: option.split)
qed

text \<open>The keepalive watchdog trips only on a running service, and then its restart does nothing.\<close>

lemma restart_running:
  assumes "dogs_idle c" "exists_inst i c" "mi_live (inst i c)" "control i c \<noteq> None" "gentle f" "\<And>m. mi_svc (f m) = mi_svc m"
  shows "restartFn env i (upd i f c) = (None, upd i f c)"
proof -
  have t: "touched i c (upd i f c)" by (rule touched_upd [OF assms(5)])
  have "cl_instances (upd i f c) (inst_name (inst i (upd i f c))) = Some i"
    using idleD(4) [OF assms(1) _ assms(3)] assms(2) t by (simp add: exists_inst_def touched_def)
  moreover have "control i (upd i f c) \<noteq> None" using assms(4,6) by (simp add: control_def upd_inst)
  ultimately show ?thesis unfolding restartFn_def by (rule connect_running [OF idle_touched [OF assms(1) t]])
qed

lemma keepalive_trip:
  assumes "dogs_idle c" "exists_inst i c" "mi_live (inst i c)" "control i c \<noteq> None"
  shows "\<exists>f. gentle f \<and> (\<forall>m. mi_svc (f m) = mi_svc m) \<and> watchdogTrip env now i c = upd i f c"
proof -
  let ?f = "\<lambda>m. m\<lparr>mi_restart_at := Some now\<rparr>"
  have r: "restartFn env i (upd i ?f c) = (None, upd i ?f c)"
    by (rule restart_running [OF assms]) (simp_all add: gentle_def calm_def)
  have "upd i id c = c" by (simp add: upd_def list_update_id)
  then have "\<exists>f. gentle f \<and> (\<forall>m. mi_svc (f m) = mi_svc m) \<and> c = upd i f c"
    by (intro exI [of _ id]) (simp add: gentle_def)
  moreover have "upd i (\<lambda>m. m\<lparr>mi_failures := 0\<rparr>) (upd i ?f c) = upd i (\<lambda>m. m\<lparr>mi_restart_at := Some now, mi_failures := 0\<rparr>) c"
    by (cases "i < length (cl_heap c)") (simp_all add: upd_def list_update_beyond)
  moreover have "gentle (\<lambda>m. m\<lparr>mi_restart_at := Some now, mi_failures := 0\<rparr>)" by (simp add: gentle_def calm_def)
  ultimately show ?thesis
    using r unfolding watchdogTrip_def recordRestartSuccess_def
    by (auto split: option.split intro!: exI [of _ "\<lambda>m. m\<lparr>mi_restart_at := Some now, mi_failures := 0\<rparr>"])
qed

lemma keepalive_touched:
  assumes "dogs_idle c" "exists_inst i c" "mi_live (inst i c)"
  shows "touched i c (runMeshKeepalive env now hosts lh dial i c)
    \<and> mi_svc (inst i (runMeshKeepalive env now hosts lh dial i c)) = mi_svc (inst i c)
    \<and> cl_open (runMeshKeepalive env now hosts lh dial i c) = cl_open c
    \<and> cl_next (runMeshKeepalive env now hosts lh dial i c) = cl_next c"
proof -
  let ?s = "\<lambda>n m. m\<lparr>mi_stuck := n\<rparr>"
  have g: "gentle (?s n)" for n by (simp add: gentle_def calm_def)
  have one: "touched i c (upd i (?s n) c) \<and> mi_svc (inst i (upd i (?s n) c)) = mi_svc (inst i c) \<and> cl_open (upd i (?s n) c) = cl_open c
      \<and> cl_next (upd i (?s n) c) = cl_next c" for n
    by (simp add: touched_upd [OF g] upd_inst)
  have trip: "\<exists>f. gentle f \<and> (\<forall>m. mi_svc (f m) = mi_svc m) \<and> watchdogTrip env now i (upd i (?s n) c) = upd i f (upd i (?s n) c)"
    if "control i c \<noteq> None" for n
  proof (rule keepalive_trip)
    show "dogs_idle (upd i (?s n) c)" by (rule idle_touched [OF assms(1) touched_upd [OF g]])
  qed (use assms that in \<open>simp_all add: exists_inst_def control_def upd_inst\<close>)
  have all: "touched i c d \<and> mi_svc (inst i d) = mi_svc (inst i c) \<and> cl_open d = cl_open c \<and> cl_next d = cl_next c"
    if ctl: "control i c \<noteq> None" and d: "d = upd i (?s 0) (watchdogTrip env now i (upd i (?s n) c))" for d n
  proof -
    obtain f where f: "gentle f" "\<forall>m. mi_svc (f m) = mi_svc m" "watchdogTrip env now i (upd i (?s n) c) = upd i f (upd i (?s n) c)"
      using trip [OF ctl] by blast
    have "touched i c d" unfolding d f(3) by (intro touched_gentle_then touched_refl g f(1))
    then show ?thesis using f(2) unfolding d f(3) by (simp add: upd_inst)
  qed
  show ?thesis
    using one all by (cases "control i c") (auto simp: runMeshKeepalive_def keepaliveOneCycle_def Let_def)
qed

lemma fold_close_idle:
  assumes "cl_exits c = []" "cl_instances c = Map.empty" "\<forall>i < length (cl_heap c). mi_live (inst i c) \<longrightarrow> i \<in> set order"
  shows "dogs_idle (fold inst_close order c)"
  using assms
proof (induction order arbitrary: c)
  case Nil
  then show ?case by (auto simp: dogs_idle_def)
next
  case (Cons i order)
  have t: "touched i c (inst_close i c)" by (rule touched_inst_close)
  have "\<not> mi_live (inst i (inst_close i c))" if "i < length (cl_heap c)" using dead_after_close that by simp
  then have "\<forall>j < length (cl_heap (inst_close i c)). mi_live (inst j (inst_close i c)) \<longrightarrow> j \<in> set order"
    using Cons.prems(3) t unfolding touched_def by (metis set_ConsD)
  moreover have "cl_exits (inst_close i c) = []" "cl_instances (inst_close i c) = Map.empty"
    using Cons.prems t by (auto simp: touched_def)
  ultimately show ?case using Cons.IH by simp
qed

lemma stop_idle:
  assumes "dogs_idle c" "set order = ran (cl_instances c)"
  shows "dogs_idle (Client_Stop order c)"
proof (cases "cl_started c")
  case True
  have "\<forall>i < length (cl_heap c). mi_live (inst i c) \<longrightarrow> i \<in> set order"
    using idleD(4) [OF assms(1)] assms(2) by (auto intro: ranI)
  then show ?thesis
    using True idleD(1) [OF assms(1)] unfolding Client_Stop_def closeAll_def shutdownAll_def
    by (simp add: fold_close_idle)
qed (use assms(1) in \<open>simp add: Client_Stop_def\<close>)

lemma Remove_others:
  assumes "registry_Remove f name r = (err, r')" "x \<in> set (rg_enrollments r)" "en_name x \<noteq> name"
  shows "x \<in> set (rg_enrollments r')"
proof (cases "index_of (\<lambda>e. en_name e = name) (rg_enrollments r)")
  case None
  then show ?thesis using assms by (simp add: registry_Remove_def)
next
  case (Some i)
  let ?es = "rg_enrollments r"
  have i: "i < length ?es" "en_name (?es ! i) = name" using index_of_Some [OF Some] by auto
  have "x \<in> set (take i ?es @ ?es ! i # drop (Suc i) ?es)" using assms(2) i(1) by (simp add: id_take_nth_drop [symmetric])
  then have rest: "x \<in> set (take i ?es @ drop (Suc i) ?es)" using assms(3) i(2) by auto
  have r': "r' = snd (registry_Remove f name r)" using assms(1) by simp
  show ?thesis
  proof (cases "fst f")
    case None
    then have "rg_enrollments r' = take i ?es @ drop (Suc i) ?es"
      unfolding r' using Some by (simp add: registry_Remove_def saveLocked_def Let_def)
    then show ?thesis using rest by simp
  next
    case (Some e)
    then have "rg_enrollments r' = take i (take i ?es @ drop (Suc i) ?es) @ [?es ! i] @ drop i (take i ?es @ drop (Suc i) ?es)"
      unfolding r' using \<open>index_of _ _ = Some i\<close> by (simp add: registry_Remove_def saveLocked_def Let_def)
    then show ?thesis using assms(2) insert_back [OF i(1)] by simp
  qed
qed

lemma leave_idle:
  assumes "dogs_idle c"
  shows "dogs_idle (snd (Client_Leave f name c))"
proof -
  let ?d = "Client_disconnect name c"
  have d: "dogs_idle ?d" by (rule disconnect_idle [OF assms])
  have n: "cl_instances ?d name = None" "cl_enrolls ?d = cl_enrolls c"
    using touched_shutdownInstance [OF touched_inst_close, of _ "c\<lparr>cl_instances := (cl_instances c)(name := None)\<rparr>" name]
    by (auto simp: Client_disconnect_def instances_remove_def touched_def split: option.split)
  obtain err reg where reg: "registry_Remove f name (cl_enrolls ?d) = (err, reg)" by fastforce
  have "m \<in> en_name ` set (rg_enrollments reg)" if m: "cl_instances ?d m = Some i" for m i
  proof -
    obtain x where "x \<in> set (rg_enrollments (cl_enrolls ?d))" "en_name x = m" using idleD(3) [OF d m] by auto
    then have "x \<in> set (rg_enrollments reg)" using Remove_others [OF reg, of x] n(1) m by fastforce
    then show ?thesis using \<open>en_name x = m\<close> by blast
  qed
  then show ?thesis using d reg by (auto simp: Client_Leave_def dogs_idle_def Let_def)
qed

lemma start_idle:
  assumes "dogs_idle c" "map en_name (rg_enrollments reg) = map en_name (rg_enrollments (cl_enrolls c))"
  shows "dogs_idle (snd (Client_Start env reg c))"
proof -
  have "en_name ` set (rg_enrollments reg) = en_name ` set (rg_enrollments (cl_enrolls c))"
    using assms(2) by (metis list.set_map)
  then have "dogs_idle (c\<lparr>cl_started := True, cl_running := True, cl_enrolls := reg\<rparr>)"
    using assms(1) by (simp add: dogs_idle_def)
  then show ?thesis
    using assms(1) boot_all_idle [of "c\<lparr>cl_started := True, cl_running := True, cl_enrolls := reg\<rparr>" env "rg_enrollments reg"]
    by (auto simp: Client_Start_def Let_def split: prod.split)
qed

lemma agent_step_idle:
  assumes "dogs_idle c" "enabled op c"
  shows "dogs_idle (agent_step op c)"
proof (cases op)
  case (OpWatcherTick now i)
  then show ?thesis
    by (simp add: markWatcherActivity_def idle_touched [OF assms(1) touched_upd] gentle_def calm_def)
next
  case (OpRenewalTick now i)
  then show ?thesis
    by (simp add: markRenewalActivity_def idle_touched [OF assms(1) touched_upd] gentle_def calm_def)
qed (use assms in \<open>simp_all add: Connect_idle disconnect_idle start_idle stop_idle leave_idle idle_touched [OF _ touched_reload]
       idle_touched [OF _ touched_retry] watcher_dog_idle renewal_dog_idle
       idle_touched [OF _ conjunct1 [OF keepalive_touched]]\<close>)

lemma agent_reachable_idle: "agent_reachable hook reg c \<Longrightarrow> dogs_idle c"
proof (induction rule: agent_reachable.induct)
  case agent_init
  then show ?case by (simp add: dogs_idle_def NewClient_def)
qed (simp add: agent_step_idle)

text \<open>
  Property C35. No watchdog can recover a running enrollment or end the process. In every history of an
  agent, with any failures of Nebula, of the listeners and of the reloads, the process is never ended
  with the code for a respawn; and when one of the three watchdogs acts on an instance whose Nebula
  service is running, the set of open services and the service of the instance stay as they are: a
  wedged service is not replaced.
\<close>

theorem watchdogs_cannot_recover:
  assumes "agent_reachable hook reg c"
  shows "cl_exits c = []
    \<and> (exists_inst i c \<and> mi_live (inst i c) \<and> control i c \<noteq> None \<longrightarrow>
         (\<forall>c' \<in> {runWatcherWatchdog env now i c, runRenewalWatchdog env now i c, runMeshKeepalive env now hosts lh dial i c}.
            cl_open c' = cl_open c \<and> control i c' = control i c))"
proof -
  have idle: "dogs_idle c" by (rule agent_reachable_idle [OF assms])
  have "cl_open (runWatcherWatchdog env now i c) = cl_open c \<and> control i (runWatcherWatchdog env now i c) = control i c"
    if i: "exists_inst i c" "mi_live (inst i c)" "control i c \<noteq> None"
  proof -
    have "restartFn env i (upd i (\<lambda>m. m\<lparr>mi_watcher_dog := (Some now, snd (mi_watcher_dog (inst i c)))\<rparr>) c)
        = (None, upd i (\<lambda>m. m\<lparr>mi_watcher_dog := (Some now, snd (mi_watcher_dog (inst i c)))\<rparr>) c)"
      by (rule restart_running [OF idle i]) (use live_calm [OF idle i(1,2)] in \<open>simp_all add: gentle_def calm_def\<close>)
    then show ?thesis by (simp add: runWatcherWatchdog_def Let_def control_def upd_inst)
  qed
  moreover have "cl_open (runRenewalWatchdog env now i c) = cl_open c \<and> control i (runRenewalWatchdog env now i c) = control i c"
    if i: "exists_inst i c" "mi_live (inst i c)" "control i c \<noteq> None"
  proof -
    have "restartFn env i (upd i (\<lambda>m. m\<lparr>mi_renewal_dog := (Some now, snd (mi_renewal_dog (inst i c)))\<rparr>) c)
        = (None, upd i (\<lambda>m. m\<lparr>mi_renewal_dog := (Some now, snd (mi_renewal_dog (inst i c)))\<rparr>) c)"
      by (rule restart_running [OF idle i]) (use live_calm [OF idle i(1,2)] in \<open>simp_all add: gentle_def calm_def\<close>)
    then show ?thesis by (simp add: runRenewalWatchdog_def Let_def control_def upd_inst)
  qed
  ultimately show ?thesis
    using idleD(1) [OF idle] keepalive_touched [OF idle] by (simp add: control_def)
qed

section \<open>Examples\<close>

definition fine :: attempt where
  "fine = \<lparr>at_token = None, at_config = True, at_mode = ''userspace'', at_kernel = None, at_user = None, at_dns = False,
     at_portmap = None, at_listen = None, at_os_listen = None, at_ids = True\<rparr>"

definition busy :: attempt where
  "busy = fine\<lparr>at_user := Some (ErrMsg ''listen udp: address already in use'')\<rparr>"

definition one_enrollment :: enrollmentRegistry where
  "one_enrollment = fresh_registry\<lparr>rg_enrollments := [example_enrollment ''home'' 4242 1]\<rparr>"

definition agent_up :: Client where
  "agent_up = agent_step (OpStart (\<lambda>n k. fine) one_enrollment) (NewClient True one_enrollment)"

lemma agent_up_reachable: "agent_reachable True one_enrollment agent_up"
  unfolding agent_up_def
  by (rule agent_next [OF agent_init]) (simp add: NewClient_def)

lemma agent_up_running:
  "cl_open agent_up = [0]" "exists_inst 0 agent_up" "mi_live (inst 0 agent_up)" "control 0 agent_up = Some 0" "inst_name (inst 0 agent_up) = ''home''"
  "cl_started agent_up" "cl_instances agent_up ''home'' = Some 0"
  by code_simp+

theorem watchdogs_cannot_recover_witness:
  "let c = agent_step (OpWatcherTick 0 0) agent_up; c' = runWatcherWatchdog (\<lambda>k. fine) (200 * second) 0 c
   in mi_watcher_dog (inst 0 c') = (Some (200 * second), 0) \<and> cl_exits c = [] \<and> cl_open c' = [0] \<and> control 0 c' = Some 0"
proof -
  let ?c = "agent_step (OpWatcherTick 0 0) agent_up"
  have "agent_reachable True one_enrollment ?c"
    by (rule agent_next [OF agent_up_reachable]) (simp add: agent_up_running(2))
  moreover have "exists_inst 0 ?c" "mi_live (inst 0 ?c)" "control 0 ?c = Some 0" "cl_open ?c = [0]" by code_simp+
  moreover have "mi_watcher_dog (inst 0 (runWatcherWatchdog (\<lambda>k. fine) (200 * second) 0 ?c)) = (Some (200 * second), 0)" by code_simp
  ultimately show ?thesis
    using watchdogs_cannot_recover [of True one_enrollment ?c 0 "\<lambda>k. fine" "200 * second"] by (simp add: Let_def)
qed

end
