(* ===== verification/Services.thy ===== *)
theory Services
  imports Watchdogs
begin

text \<open>
  The Nebula services of an agent: which instance holds which service, over all histories.
\<close>

section \<open>Services and instances\<close>

text \<open>Every open service is the service of exactly one instance, and every service of an instance is open.\<close>

definition svc_ok :: "Client \<Rightarrow> bool" where
  "svc_ok c \<longleftrightarrow> distinct (cl_open c) \<and> (\<forall>s \<in> set (cl_open c). s < cl_next c)
     \<and> (\<forall>s \<in> set (cl_open c). \<exists>i < length (cl_heap c). mi_svc (inst i c) = Some s)
     \<and> (\<forall>i < length (cl_heap c). \<forall>s. mi_svc (inst i c) = Some s \<longrightarrow>
          s \<in> set (cl_open c) \<and> (\<forall>j < length (cl_heap c). mi_svc (inst j c) = Some s \<longrightarrow> j = i))"

lemma svcD:
  assumes "svc_ok c"
  shows "distinct (cl_open c)" "s \<in> set (cl_open c) \<Longrightarrow> s < cl_next c"
    "s \<in> set (cl_open c) \<Longrightarrow> \<exists>i < length (cl_heap c). mi_svc (inst i c) = Some s"
    "i < length (cl_heap c) \<Longrightarrow> mi_svc (inst i c) = Some s \<Longrightarrow> s \<in> set (cl_open c)"
    "i < length (cl_heap c) \<Longrightarrow> mi_svc (inst i c) = Some s \<Longrightarrow> j < length (cl_heap c) \<Longrightarrow> mi_svc (inst j c) = Some s \<Longrightarrow> j = i"
  using assms unfolding svc_ok_def by blast+

lemma svc_cong:
  assumes "svc_ok c" "length (cl_heap c') = length (cl_heap c)" "\<And>j. mi_svc (inst j c') = mi_svc (inst j c)" "cl_open c' = cl_open c"
    "cl_next c' = cl_next c"
  shows "svc_ok c'"
  using assms(1) unfolding svc_ok_def assms(2-5) .

lemma svc_upd:
  assumes "svc_ok c" "\<And>m. mi_svc (f m) = mi_svc m"
  shows "svc_ok (upd i f c)"
  by (rule svc_cong [OF assms(1)]) (use assms(2) in \<open>simp_all add: upd_inst\<close>)

lemma svc_open:
  assumes "svc_ok c" "i < length (cl_heap c)" "control i c = None"
  shows "svc_ok (open_service i c)"
proof -
  let ?c = "open_service i c"
  have c': "cl_open ?c = cl_next c # cl_open c" "cl_next ?c = Suc (cl_next c)" "length (cl_heap ?c) = length (cl_heap c)"
    "inst j ?c = (if j = i then (inst i c)\<lparr>mi_svc := Some (cl_next c)\<rparr> else inst j c)" for j
    using assms(2) by (simp_all add: open_service_def upd_def nth_list_update)
  have fresh: "cl_next c \<notin> set (cl_open c)" using svcD(2) [OF assms(1)] by auto
  have dis: "distinct (cl_open ?c)" using fresh svcD(1) [OF assms(1)] by (simp add: c'(1))
  have old: "mi_svc (inst j c) \<noteq> Some (cl_next c)" if "j < length (cl_heap c)" for j
    using svcD(4) [OF assms(1) that] fresh by auto
  have "\<exists>j < length (cl_heap c). mi_svc (inst j ?c) = Some s" if "s \<in> set (cl_open ?c)" for s
  proof (cases "s = cl_next c")
    case False
    then obtain j where "j < length (cl_heap c)" "mi_svc (inst j c) = Some s" using \<open>s \<in> _\<close> svcD(3) [OF assms(1), of s] by (auto simp: c')
    then show ?thesis using assms(3) by (intro exI [of _ j]) (auto simp: c' control_def)
  qed (use assms(2) in \<open>auto simp: c'\<close>)
  moreover have "s < Suc (cl_next c)" if "s \<in> set (cl_open ?c)" for s using that svcD(2) [OF assms(1), of s] by (auto simp: c')
  moreover have "s \<in> set (cl_open ?c) \<and> (\<forall>k < length (cl_heap c). mi_svc (inst k ?c) = Some s \<longrightarrow> k = j)"
    if "j < length (cl_heap c)" "mi_svc (inst j ?c) = Some s" for j s
  proof (cases "j = i")
    case True
    then show ?thesis using that old by (auto simp: c' split: if_splits)
  next
    case False
    then have j: "mi_svc (inst j c) = Some s" using that(2) by (simp add: c')
    then have "s \<in> set (cl_open c)" "s \<noteq> cl_next c" using svcD(4) [OF assms(1) that(1)] fresh by auto
    moreover have "k = j" if "k < length (cl_heap c)" "k \<noteq> i" "mi_svc (inst k c) = Some s" for k
      by (rule svcD(5) [OF assms(1) \<open>j < _\<close> j that(1,3)])
    ultimately show ?thesis by (simp add: c')
  qed
  ultimately show ?thesis
    unfolding svc_ok_def c'(2,3) using dis by blast
qed

lemma svc_drop:
  assumes "svc_ok c" "i < length (cl_heap c)"
  shows "svc_ok (drop_service i c)"
proof (cases "control i c")
  case None
  then have "drop_service i c = upd i (\<lambda>m. m\<lparr>mi_svc := None\<rparr>) c" by (simp add: drop_service_def Let_def)
  moreover have "svc_ok (upd i (\<lambda>m. m\<lparr>mi_svc := None\<rparr>) c)"
    by (rule svc_cong [OF assms(1)]) (use None in \<open>auto simp: upd_inst control_def\<close>)
  ultimately show ?thesis by simp
next
  case (Some s)
  then have s: "mi_svc (inst i c) = Some s" by (simp add: control_def)
  let ?c = "drop_service i c"
  have c': "cl_open ?c = removeAll s (cl_open c)" "cl_next ?c = cl_next c" "length (cl_heap ?c) = length (cl_heap c)"
    "inst j ?c = (if j = i then (inst i c)\<lparr>mi_svc := None\<rparr> else inst j c)" for j
    using s assms(2) by (simp_all add: drop_service_def control_def upd_def Let_def nth_list_update)
  have "\<exists>j < length (cl_heap c). mi_svc (inst j ?c) = Some t" if "t \<in> set (cl_open ?c)" for t
  proof -
    have t: "t \<in> set (cl_open c)" "t \<noteq> s" using \<open>t \<in> _\<close> by (simp_all add: c')
    then obtain j where "j < length (cl_heap c)" "mi_svc (inst j c) = Some t" using svcD(3) [OF assms(1)] by blast
    then show ?thesis using t(2) s by (intro exI [of _ j]) (auto simp: c')
  qed
  moreover have "t \<in> set (cl_open ?c) \<and> (\<forall>k < length (cl_heap c). mi_svc (inst k ?c) = Some t \<longrightarrow> k = j)"
    if "j < length (cl_heap c)" "mi_svc (inst j ?c) = Some t" for j t
  proof -
    have j: "j \<noteq> i" "mi_svc (inst j c) = Some t" using that(2) by (auto simp: c' split: if_splits)
    then have "t \<in> set (cl_open c)" "t \<noteq> s"
      using svcD(4) [OF assms(1) that(1)] svcD(5) [OF assms(1,2) s that(1)] by auto
    moreover have "k = j" if "k < length (cl_heap c)" "mi_svc (inst k c) = Some t" for k
      by (rule svcD(5) [OF assms(1) \<open>j < _\<close> j(2) that])
    ultimately show ?thesis by (simp add: c')
  qed
  moreover have "distinct (cl_open ?c)" using svcD(1) [OF assms(1)] by (simp add: c'(1) distinct_removeAll)
  moreover have "t < cl_next c" if "t \<in> set (cl_open ?c)" for t using that svcD(2) [OF assms(1)] by (simp add: c'(1))
  ultimately show ?thesis unfolding svc_ok_def c'(2,3) by blast
qed

lemma svc_fields:
  assumes "svc_ok c"
  shows "svc_ok (c\<lparr>cl_servers := sv\<rparr>)" "svc_ok (c\<lparr>cl_instances := m\<rparr>)" "svc_ok (c\<lparr>cl_boot_errors := b\<rparr>)"
    "svc_ok (c\<lparr>cl_enrolls := e\<rparr>)" "svc_ok (c\<lparr>cl_started := st\<rparr>)" "svc_ok (c\<lparr>cl_exits := x\<rparr>)"
    "svc_ok (c\<lparr>cl_started := st, cl_running := ru, cl_enrolls := e\<rparr>)"
  by (rule svc_cong [OF assms]; simp)+

lemma svc_steps:
  assumes "svc_ok c"
  shows "svc_ok (startWatcher i c)" "svc_ok (stopWatcher i c)" "svc_ok (startPortmap err i c)" "svc_ok (add_jobs js i c)"
    "svc_ok (set_server i srv c)" "svc_ok (shutdownInstance name c)"
  unfolding startWatcher_def stopWatcher_def startPortmap_def add_jobs_def set_server_def shutdownInstance_def
  using assms by (simp_all add: svc_upd svc_fields)

lemma svc_listeners:
  assumes "svc_ok c"
  shows "svc_ok (snd (startMeshListener err i c))" "svc_ok (startOSListener err i c)" "svc_ok (snd (rebindMesh err i c))"
  using assms
  by (simp_all add: startMeshListener_def startOSListener_def rebindMesh_def svc_steps Let_def split: option.split)

lemma touched_exists: "touched i c c' \<Longrightarrow> exists_inst j c' = exists_inst j c"
  by (simp add: touched_def exists_inst_def)

lemma svc_inst_close:
  assumes "svc_ok c" "exists_inst i c"
  shows "svc_ok (inst_close i c)"
proof -
  let ?c = "upd i (\<lambda>m. m\<lparr>mi_portmap := False\<rparr>) (stopWatcher i (upd i (\<lambda>m. m\<lparr>mi_live := False\<rparr>) c))"
  have "svc_ok (upd i (\<lambda>m. m\<lparr>mi_live := False\<rparr>) c)" by (rule svc_upd [OF assms(1)]) simp
  then have "svc_ok ?c" by (intro svc_upd [OF svc_steps(2)]) simp_all
  then have "svc_ok (drop_service i ?c)" by (rule svc_drop) (use assms(2) in \<open>simp add: exists_inst_def stopWatcher_def\<close>)
  then have "svc_ok (upd i (\<lambda>m. m\<lparr>mi_dns := False\<rparr>) (drop_service i ?c))" by (rule svc_upd) simp
  then show ?thesis by (simp add: inst_close_def Let_def)
qed

lemma closed_service: "exists_inst i c \<Longrightarrow> mi_svc (inst i (inst_close i c)) = None"
  by (simp add: inst_close_def drop_service_def stopWatcher_def upd_inst exists_inst_def Let_def split: option.split)

lemma svc_after_start: "svc_ok c \<Longrightarrow> svc_ok (after_start a i c)"
  unfolding after_start_def Let_def by (simp add: svc_steps svc_listeners)

lemma svc_mesh_up:
  assumes "svc_ok c" "exists_inst i c" "control i c = None"
  shows "svc_ok (mesh_up a i c)"
proof -
  have "svc_ok (open_service i (upd i (\<lambda>m. m\<lparr>mi_mesh_err := None, mi_on_restart := h\<rparr>) c))" for h
    using assms by (intro svc_open svc_upd) (simp_all add: exists_inst_def control_def upd_inst)
  then show ?thesis unfolding mesh_up_def Let_def by (simp add: svc_steps svc_upd)
qed

lemma svc_startInstance:
  assumes "svc_ok c" "exists_inst i c" "control i c = None"
  shows "svc_ok (snd (Client_startInstance a i c))"
proof -
  define c1 where "c1 = upd i (\<lambda>m. m\<lparr>mi_live := cl_started c\<rparr>) c"
  define c2 where "c2 = (if en_endpoint (mi_enrollment (inst i c)) \<noteq> [] \<and> en_node_id (mi_enrollment (inst i c)) \<noteq> []
    then add_jobs [CertRenewal, HeartbeatLoop, RenewalWatchdog, WatcherWatchdog] i c1 else c1)"
  have c1: "svc_ok c1" unfolding c1_def by (rule svc_upd [OF assms(1)]) simp
  have c2: "svc_ok c2" using svc_steps(4) [OF c1] c1 by (simp add: c2_def)
  have "exists_inst i c2" "control i c2 = None"
    using assms(2,3) by (simp_all add: c1_def c2_def add_jobs_def exists_inst_def control_def upd_inst)
  then have up: "svc_ok (mesh_up a i c2)" by (rule svc_mesh_up [OF c2])
  have err: "svc_ok (upd i (\<lambda>m. m\<lparr>mi_mesh_err := x, mi_on_restart := y\<rparr>) c2)" for x y
    by (rule svc_upd [OF c2]) simp
  show ?thesis
    unfolding Client_startInstance_def Let_def c1_def [symmetric] c2_def [symmetric]
    by (simp add: c1 c2 err up svc_listeners svc_steps split: option.split)
qed

lemma svc_replace:
  assumes "svc_ok c" "exists_inst i c"
  shows "svc_ok (after_start a i (open_service i (drop_service i (stopWatcher i c))))" "svc_ok (drop_service i (stopWatcher i c))"
proof -
  have d: "svc_ok (drop_service i (stopWatcher i c))"
    using assms by (intro svc_drop svc_steps) (simp_all add: exists_inst_def stopWatcher_def)
  have "control i (drop_service i (stopWatcher i c)) = None" "i < length (cl_heap (drop_service i (stopWatcher i c)))"
    using assms(2) by (simp_all add: drop_service_def stopWatcher_def control_def upd_inst exists_inst_def Let_def split: option.split)
  then show "svc_ok (after_start a i (open_service i (drop_service i (stopWatcher i c))))"
    using svc_after_start svc_open [OF d] by blast
  show "svc_ok (drop_service i (stopWatcher i c))" by (rule d)
qed

lemma svc_reload:
  assumes "svc_ok c" "exists_inst i c"
  shows "svc_ok (snd (reloadNebula a i c))"
proof (cases "control i c = None")
  case True
  have o: "svc_ok (open_service i c)" using svc_open [OF assms(1)] assms(2) True by (simp add: exists_inst_def)
  have "svc_ok (upd i (\<lambda>m. m\<lparr>mi_dns := at_dns a\<rparr>) (open_service i c))" by (rule svc_upd [OF o]) simp
  then show ?thesis
    using True assms(1) o svc_after_start by (simp add: reloadNebula_def Let_def split: option.split)
next
  case False
  then show ?thesis using svc_replace [OF assms] by (auto simp: reloadNebula_def Let_def split: option.split)
qed

lemma svc_retry: "svc_ok c \<Longrightarrow> exists_inst i c \<Longrightarrow> svc_ok (snd (retry_attempt a i c))"
  using svc_replace(1) by (simp add: retry_attempt_def split: option.split)

text \<open>Only registered instances have a service.\<close>

definition svc_reg :: "Client \<Rightarrow> bool" where
  "svc_reg c \<longleftrightarrow> (\<forall>i < length (cl_heap c). mi_svc (inst i c) \<noteq> None \<longrightarrow> cl_instances c (inst_name (inst i c)) = Some i)"

lemma svc_reg_touched:
  assumes "svc_reg c" "touched i c c'" "cl_instances c (inst_name (inst i c)) = Some i"
  shows "svc_reg c'"
  unfolding svc_reg_def
proof (intro allI impI)
  fix j assume j: "j < length (cl_heap c')" "mi_svc (inst j c') \<noteq> None"
  have "inst_name (inst i c') = inst_name (inst i c)" "cl_instances c' = cl_instances c" "length (cl_heap c') = length (cl_heap c)"
    "j \<noteq> i \<Longrightarrow> inst j c' = inst j c"
    using assms(2) by (auto simp: touched_def)
  then show "cl_instances c' (inst_name (inst j c')) = Some j"
    using assms(1,3) j by (cases "j = i") (auto simp: svc_reg_def)
qed

lemma svc_reg_remove_close:
  assumes "svc_reg c" "exists_inst i c" "cl_instances c name = Some i"
  shows "svc_reg (inst_close i (c\<lparr>cl_instances := (cl_instances c)(name := None)\<rparr>))"
  unfolding svc_reg_def
proof (intro allI impI)
  let ?d = "c\<lparr>cl_instances := (cl_instances c)(name := None)\<rparr>"
  fix j assume j: "j < length (cl_heap (inst_close i ?d))" "mi_svc (inst j (inst_close i ?d)) \<noteq> None"
  have t: "touched i ?d (inst_close i ?d)" by (rule touched_inst_close)
  have "j \<noteq> i" using j(2) closed_service [of i ?d] assms(2) by (auto simp: exists_inst_def)
  then have "cl_instances c (inst_name (inst j c)) = Some j" "inst j (inst_close i ?d) = inst j c"
    using assms(1) j t by (auto simp: svc_reg_def touched_def)
  then show "cl_instances (inst_close i ?d) (inst_name (inst j (inst_close i ?d))) = Some j"
    using assms(3) \<open>j \<noteq> i\<close> t by (auto simp: touched_def)
qed

lemma svc_reg_upd:
  assumes "svc_reg c" "\<And>m. mi_svc (f m) = mi_svc m \<and> mi_enrollment (f m) = mi_enrollment m"
  shows "svc_reg (upd i f c)"
  using assms by (auto simp: svc_reg_def upd_inst)

lemma svc_reg_fields:
  assumes "svc_reg c"
  shows "svc_reg (c\<lparr>cl_servers := sv\<rparr>)" "svc_reg (c\<lparr>cl_boot_errors := b\<rparr>)" "svc_reg (c\<lparr>cl_enrolls := e\<rparr>)"
    "svc_reg (c\<lparr>cl_exits := x\<rparr>)" "svc_reg (c\<lparr>cl_started := st, cl_running := ru, cl_enrolls := e\<rparr>)"
  using assms by (simp_all add: svc_reg_def)

definition tidy :: "Client \<Rightarrow> bool" where
  "tidy c \<longleftrightarrow> svc_ok c \<and> svc_reg c"

lemma tidy_new:
  assumes "tidy c" "cl_instances c (en_name e) = None"
  shows "tidy (instances_add (length (cl_heap c)) (c\<lparr>cl_heap := cl_heap c @ [newMeshInstance e]\<rparr>))"
proof -
  let ?c = "instances_add (length (cl_heap c)) (c\<lparr>cl_heap := cl_heap c @ [newMeshInstance e]\<rparr>)"
  have new: "mi_svc (newMeshInstance e) = None" "inst_name (newMeshInstance e) = en_name e" by (simp_all add: newMeshInstance_def)
  have c': "cl_open ?c = cl_open c" "cl_next ?c = cl_next c" "length (cl_heap ?c) = Suc (length (cl_heap c))"
    "cl_instances ?c = (cl_instances c)(en_name e \<mapsto> length (cl_heap c))"
    "inst j ?c = (if j < length (cl_heap c) then inst j c else (cl_heap c @ [newMeshInstance e]) ! j)" for j
    using new by (simp_all add: instances_add_def nth_append)
  have svc: "mi_svc (inst j ?c) = Some s \<and> j < Suc (length (cl_heap c)) \<longleftrightarrow> j < length (cl_heap c) \<and> mi_svc (inst j c) = Some s" for j s
    using new(1) by (auto simp: c' nth_append less_Suc_eq)
  have ok: "svc_ok c" "svc_reg c" using assms(1) by (auto simp: tidy_def)
  have "svc_ok ?c"
    unfolding svc_ok_def c'(1-3)
  proof (intro conjI ballI allI impI)
    fix s assume "s \<in> set (cl_open c)"
    then show "\<exists>i < Suc (length (cl_heap c)). mi_svc (inst i ?c) = Some s" using svcD(3) [OF ok(1)] svc by blast
  next
    fix i s assume "i < Suc (length (cl_heap c))" "mi_svc (inst i ?c) = Some s"
    then have i: "i < length (cl_heap c)" "mi_svc (inst i c) = Some s" using svc by blast+
    then show "s \<in> set (cl_open c)" by (rule svcD(4) [OF ok(1)])
    fix j assume "j < Suc (length (cl_heap c))" "mi_svc (inst j ?c) = Some s"
    then show "j = i" using svcD(5) [OF ok(1) i] svc by blast
  qed (use svcD(1,2) [OF ok(1)] in auto)
  moreover have "svc_reg ?c"
    unfolding svc_reg_def c'(3)
  proof (intro allI impI)
    fix j assume "j < Suc (length (cl_heap c))" "mi_svc (inst j ?c) \<noteq> None"
    then have j: "j < length (cl_heap c)" "mi_svc (inst j c) \<noteq> None" using svc by (metis not_None_eq)+
    then have "cl_instances c (inst_name (inst j c)) = Some j" using ok(2) by (simp add: svc_reg_def)
    then show "cl_instances ?c (inst_name (inst j ?c)) = Some j" using j(1) assms(2) by (auto simp: c'(4,5))
  qed
  ultimately show ?thesis by (simp add: tidy_def)
qed

lemma tidy_remove_close:
  assumes "tidy c" "exists_inst i c" "cl_instances c name = Some i"
  shows "tidy (inst_close i (c\<lparr>cl_instances := (cl_instances c)(name := None)\<rparr>))"
  using assms svc_reg_remove_close [OF _ assms(2,3)]
  by (simp add: tidy_def svc_inst_close svc_fields exists_inst_def)

lemma tidy_shutdown: "tidy c \<Longrightarrow> tidy (shutdownInstance name c)"
  by (simp add: tidy_def svc_steps shutdownInstance_def svc_fields svc_reg_fields)

lemma try_connect_tidy:
  assumes "tidy c" "cl_instances c name = None" "en_name e = name"
  shows "tidy (snd (try_connect a name e c))"
proof -
  let ?i = "length (cl_heap c)"
  define c0 where "c0 = instances_add ?i (c\<lparr>cl_heap := cl_heap c @ [newMeshInstance e]\<rparr>)"
  obtain r c1 where r: "Client_startInstance a ?i c0 = (r, c1)" by fastforce
  have i: "inst ?i c0 = newMeshInstance e" "exists_inst ?i c0" by (simp_all add: c0_def instances_add_def exists_inst_def)
  have c0: "tidy c0" using tidy_new [OF assms(1), of e] assms(2,3) by (simp add: c0_def)
  have reg: "cl_instances c0 (inst_name (inst ?i c0)) = Some ?i" by (simp add: i) (simp add: c0_def instances_add_def)
  have t: "touched ?i c0 c1" using touched_startInstance [OF reg, of a] r by simp
  have "control ?i c0 = None" by (simp add: control_def i newMeshInstance_def)
  then have "svc_ok c1" using svc_startInstance [of c0 ?i a] c0 i r by (simp add: tidy_def)
  moreover have "svc_reg c1" using svc_reg_touched [OF _ t reg] c0 by (simp add: tidy_def)
  ultimately have c1: "tidy c1" by (simp add: tidy_def)
  have "inst_name (newMeshInstance e) = name" using assms(3) by (simp add: newMeshInstance_def)
  then have "cl_instances c1 name = Some ?i" "exists_inst ?i c1"
    using t reg i touched_exists [OF t] by (auto simp: touched_def)
  then have "tidy (inst_close ?i (c1\<lparr>cl_instances := (cl_instances c1)(name := None)\<rparr>))"
    using tidy_remove_close [OF c1] by blast
  then show ?thesis
    unfolding try_connect_def Let_def c0_def [symmetric] r
    using c1 tidy_shutdown by (simp add: instances_remove_def split: option.split)
qed

lemma attempts_tidy:
  assumes "tidy c" "dogs_idle c" "cl_instances c name = None" "cl_running c" "en_name e = name"
    "name \<in> en_name ` set (rg_enrollments (cl_enrolls c))"
  shows "tidy (snd (connect_attempts as name e err c))"
  using assms(1-4,6)
proof (induction "as" arbitrary: err c)
  case (Cons a "as")
  obtain r c' where r: "try_connect a name e c = (r, c')" by fastforce
  have "tidy c'" using try_connect_tidy [OF Cons.prems(1,3) assms(5), of a] r by simp
  moreover have "after_attempt name c (r, c')"
    using try_connect_idle [OF Cons.prems(2,3,4) assms(5) Cons.prems(5), of a] r by simp
  ultimately show ?case using Cons.IH [of c'] Cons.prems r by (cases r) (auto simp: after_attempt_def)
qed simp

lemma connect_tidy:
  assumes "tidy c" "dogs_idle c"
  shows "tidy (snd (Client_connect env name c))"
proof (cases "\<not> cl_running c \<or> (case cl_instances c name of Some i \<Rightarrow> control i c \<noteq> None | None \<Rightarrow> False)")
  case True
  then show ?thesis using assms(1) by (auto simp: Client_connect_def split: option.split)
next
  case False
  show ?thesis
  proof (cases "registry_Get name (cl_enrolls c)")
    case None
    then show ?thesis using assms(1) by (simp add: Client_connect_def)
  next
    case (Some e)
    then have e: "en_name e = name" "name \<in> en_name ` set (rg_enrollments (cl_enrolls c))"
      by (auto simp: registry_Get_def find_Some_iff)
    define c' where "c' = (case instances_remove name c of
      (Some old, c) \<Rightarrow> shutdownInstance name (inst_close old c) | (None, c) \<Rightarrow> c)"
    have c': "tidy c' \<and> dogs_idle c' \<and> cl_instances c' name = None \<and> cl_running c' \<and> cl_enrolls c' = cl_enrolls c"
    proof (cases "cl_instances c name")
      case None
      then have "c' = c" by (simp add: c'_def instances_remove_def fun_upd_idem)
      then show ?thesis using None assms False by simp
    next
      case (Some old)
      let ?d = "c\<lparr>cl_instances := (cl_instances c)(name := None)\<rparr>"
      have eq: "c' = shutdownInstance name (inst_close old ?d)" using Some by (simp add: c'_def instances_remove_def)
      have "touched old ?d c'" unfolding eq by (rule touched_shutdownInstance [OF touched_inst_close])
      moreover have "dogs_idle c'"
        unfolding eq by (rule idle_touched [OF idle_remove_close [OF assms(2) Some] touched_shutdownInstance [OF touched_refl]])
      moreover have "tidy c'"
        unfolding eq using tidy_shutdown tidy_remove_close [OF assms(1) _ Some] idleD(2) [OF assms(2) Some]
        by (simp add: exists_inst_def)
      ultimately show ?thesis using False by (simp add: touched_def)
    qed
    then have "tidy (snd (connect_attempts (map env [0..<4]) name e (ErrMsg []) c'))"
      using attempts_tidy e by metis
    then show ?thesis
      using False Some unfolding Client_connect_def c'_def [symmetric]
      by (auto simp: Let_def simp del: upt_rec_numeral)
  qed
qed

lemma tidy_upd:
  "tidy c \<Longrightarrow> (\<And>m. mi_svc (f m) = mi_svc m \<and> mi_enrollment (f m) = mi_enrollment m) \<Longrightarrow> tidy (upd i f c)"
  by (simp add: tidy_def svc_upd svc_reg_upd)

lemma tidy_fields:
  assumes "tidy c"
  shows "tidy (c\<lparr>cl_boot_errors := b\<rparr>)" "tidy (c\<lparr>cl_enrolls := e\<rparr>)" "tidy (c\<lparr>cl_exits := x\<rparr>)"
    "tidy (c\<lparr>cl_started := st, cl_running := ru, cl_enrolls := e\<rparr>)"
  using assms by (simp_all add: tidy_def svc_fields svc_reg_fields)

lemma Connect_tidy: "tidy c \<Longrightarrow> dogs_idle c \<Longrightarrow> tidy (snd (Connect env name c))"
  using connect_tidy [of c env name]
  by (auto simp: Connect_def recordBootError_def clearBootError_def tidy_fields split: prod.split option.split)

lemma boot_all_tidy: "tidy c \<Longrightarrow> dogs_idle c \<Longrightarrow> tidy (snd (boot_all env es c))"
proof (induction es arbitrary: c)
  case (Cons e es)
  obtain r c' where r: "Connect (env (en_name e)) (en_name e) c = (r, c')" by fastforce
  then have "tidy c'" "dogs_idle c'"
    using Connect_tidy [OF Cons.prems, of "env (en_name e)" "en_name e"] Connect_idle [OF Cons.prems(2), of "env (en_name e)" "en_name e"]
    by simp_all
  then show ?case using Cons.IH [of c'] r by (cases r) (auto split: prod.split)
qed simp

lemma disconnect_tidy: "tidy c \<Longrightarrow> dogs_idle c \<Longrightarrow> tidy (Client_disconnect name c)"
  using tidy_remove_close [of c _ name] tidy_shutdown idleD(2) [of c name]
  by (auto simp: Client_disconnect_def instances_remove_def fun_upd_idem exists_inst_def split: option.split)

lemma fold_close:
  assumes "svc_ok c" "\<forall>i \<in> set order. exists_inst i c"
  shows "svc_ok (fold inst_close order c) \<and> length (cl_heap (fold inst_close order c)) = length (cl_heap c)
    \<and> (\<forall>j < length (cl_heap c). mi_svc (inst j (fold inst_close order c)) \<noteq> None \<longrightarrow> mi_svc (inst j c) \<noteq> None \<and> j \<notin> set order)"
  using assms
proof (induction order arbitrary: c)
  case (Cons i order)
  let ?c = "inst_close i c"
  have t: "touched i c ?c" by (rule touched_inst_close)
  have ok: "svc_ok ?c" using svc_inst_close Cons.prems by simp
  have ex: "\<forall>j \<in> set order. exists_inst j ?c" using Cons.prems(2) touched_exists [OF t] by simp
  have len: "length (cl_heap ?c) = length (cl_heap c)" using t by (simp add: touched_def)
  have svc: "j \<noteq> i \<and> mi_svc (inst j c) \<noteq> None" if "mi_svc (inst j ?c) \<noteq> None" for j
  proof (cases "j = i")
    case True
    then show ?thesis using that closed_service Cons.prems(2) by simp
  next
    case False
    then have "inst j ?c = inst j c" using t by (simp add: touched_def)
    then show ?thesis using that False by simp
  qed
  show ?case
    unfolding fold_simps comp_def using Cons.IH [OF ok ex] svc unfolding len by (metis set_ConsD)
qed simp

lemma stop_services:
  assumes "tidy c" "dogs_idle c" "set order = ran (cl_instances c)" "cl_started c"
  shows "tidy (Client_Stop order c) \<and> cl_open (Client_Stop order c) = []"
proof -
  let ?d = "c\<lparr>cl_started := False, cl_servers := Map.empty, cl_instances := Map.empty\<rparr>"
  have eq: "Client_Stop order c = fold inst_close order ?d"
    using assms(4) by (simp add: Client_Stop_def closeAll_def shutdownAll_def)
  have ok: "svc_ok ?d" by (rule svc_cong [of c]) (use assms(1) in \<open>simp_all add: tidy_def\<close>)
  have ex: "\<forall>i \<in> set order. exists_inst i ?d"
    using assms(3) idleD(2) [OF assms(2)] by (auto simp: ran_def exists_inst_def)
  have none: "mi_svc (inst j (Client_Stop order c)) = None" if "j < length (cl_heap (Client_Stop order c))" for j
  proof (rule ccontr)
    assume "mi_svc (inst j (Client_Stop order c)) \<noteq> None"
    then have "mi_svc (inst j c) \<noteq> None" "j < length (cl_heap c)" "j \<notin> set order"
      using fold_close [OF ok ex] that unfolding eq by auto
    then have "cl_instances c (inst_name (inst j c)) = Some j" using assms(1) by (simp add: tidy_def svc_reg_def)
    then show False using \<open>j \<notin> set order\<close> assms(3) by (auto intro: ranI)
  qed
  moreover have "svc_ok (Client_Stop order c)" unfolding eq using fold_close [OF ok ex] by simp
  moreover have "cl_open (Client_Stop order c) = []"
    using svcD(3) [OF \<open>svc_ok (Client_Stop order c)\<close>] none by (metis hd_in_set option.distinct(1))
  ultimately show ?thesis by (auto simp: tidy_def svc_reg_def)
qed

lemma dog_tidy:
  assumes "tidy c" "dogs_idle c" "gentle f" "\<And>m. mi_svc (f m) = mi_svc m"
  shows "tidy (snd (restartFn env i (upd i f c)))"
  unfolding restartFn_def
  by (intro connect_tidy tidy_upd idle_touched [OF assms(2) touched_upd [OF assms(3)]] assms(1))
    (use assms(3,4) in \<open>simp add: gentle_def\<close>)

text \<open>Reloads and retries that act on the instance that is registered.\<close>

fun orderly :: "agent_op \<Rightarrow> Client \<Rightarrow> bool" where
  "orderly (OpReload a i) c \<longleftrightarrow> cl_instances c (inst_name (inst i c)) = Some i"
| "orderly (OpRetry a i) c \<longleftrightarrow> cl_instances c (inst_name (inst i c)) = Some i"
| "orderly op c \<longleftrightarrow> True"

lemma dog_step_tidy:
  assumes "tidy c" "dogs_idle c" "exists_inst i c" "mi_live (inst i c)"
  shows "tidy (runWatcherWatchdog env now i c)" "tidy (runRenewalWatchdog env now i c)"
proof -
  have z: "snd (mi_watcher_dog (inst i c)) = 0" "snd (mi_renewal_dog (inst i c)) = 0"
    using live_calm [OF assms(2-4)] by (simp_all add: calm_def)
  have w: "tidy (snd (restartFn env i (upd i (\<lambda>m. m\<lparr>mi_watcher_dog := (Some now, 0)\<rparr>) c)))"
    by (rule dog_tidy [OF assms(1,2)]) (simp_all add: gentle_def calm_def)
  then show "tidy (runWatcherWatchdog env now i c)"
    using assms(1) z(1) by (auto simp: runWatcherWatchdog_def Let_def intro!: tidy_upd split: prod.split option.split)
  have r: "tidy (snd (restartFn env i (upd i (\<lambda>m. m\<lparr>mi_renewal_dog := (Some now, 0)\<rparr>) c)))"
    by (rule dog_tidy [OF assms(1,2)]) (simp_all add: gentle_def calm_def)
  then show "tidy (runRenewalWatchdog env now i c)"
    using assms(1) z(2) by (auto simp: runRenewalWatchdog_def Let_def intro!: tidy_upd split: prod.split option.split)
qed

lemma keepalive_tidy:
  assumes "tidy c" "dogs_idle c" "exists_inst i c" "mi_live (inst i c)"
  shows "tidy (runMeshKeepalive env now hosts lh dial i c)"
proof -
  let ?c = "runMeshKeepalive env now hosts lh dial i c"
  have t: "touched i c ?c" and svc: "mi_svc (inst i ?c) = mi_svc (inst i c)" "cl_open ?c = cl_open c" "cl_next ?c = cl_next c"
    using keepalive_touched [OF assms(2-4)] by auto
  have reg: "cl_instances c (inst_name (inst i c)) = Some i"
    using idleD(4) [OF assms(2) _ assms(4)] assms(3) by (simp add: exists_inst_def)
  have "mi_svc (inst j ?c) = mi_svc (inst j c)" for j using t svc by (cases "j = i") (auto simp: touched_def)
  then have "svc_ok ?c" using svc_cong [of c ?c] assms(1) t svc(2,3) by (auto simp: tidy_def touched_def)
  then show ?thesis using svc_reg_touched [OF _ t reg] assms(1) by (simp add: tidy_def)
qed

lemma touched_tidy:
  assumes "tidy c" "touched i c c'" "svc_ok c'" "cl_instances c (inst_name (inst i c)) = Some i"
  shows "tidy c'"
  using assms svc_reg_touched [OF _ assms(2,4)] by (simp add: tidy_def)

lemma agent_step_tidy:
  assumes "tidy c" "dogs_idle c" "enabled op c" "orderly op c"
  shows "tidy (agent_step op c)"
proof (cases op)
  case (OpStart env reg)
  have "en_name ` set (rg_enrollments reg) = en_name ` set (rg_enrollments (cl_enrolls c))"
    using assms(3) OpStart by (metis enabled.simps(2) list.set_map)
  then have "dogs_idle (c\<lparr>cl_started := True, cl_running := True, cl_enrolls := reg\<rparr>)"
    using assms(2) by (simp add: dogs_idle_def)
  then have "tidy (snd (boot_all env (rg_enrollments reg) (c\<lparr>cl_started := True, cl_running := True, cl_enrolls := reg\<rparr>)))"
    by (rule boot_all_tidy [OF tidy_fields(4) [OF assms(1)]])
  then show ?thesis using OpStart assms(1) by (simp add: Client_Start_def Let_def split_beta)
next
  case (OpStop order)
  then show ?thesis
    using assms stop_services [OF assms(1,2)] by (cases "cl_started c") (auto simp: Client_Stop_def)
next
  case (OpLeave f name)
  then show ?thesis
    using tidy_fields(2) [OF disconnect_tidy [OF assms(1,2)]] by (simp add: Client_Leave_def Let_def split: prod.split)
next
  case (OpReload a i)
  then show ?thesis
    using touched_tidy [OF assms(1) touched_reload] svc_reload assms by (simp add: tidy_def)
next
  case (OpRetry a i)
  then show ?thesis
    using touched_tidy [OF assms(1) touched_retry] svc_retry assms by (simp add: tidy_def)
next
  case (OpWatcherTick now i)
  then show ?thesis using tidy_upd [OF assms(1)] by (simp add: markWatcherActivity_def)
next
  case (OpRenewalTick now i)
  then show ?thesis using tidy_upd [OF assms(1)] by (simp add: markRenewalActivity_def)
qed (use assms in \<open>simp_all add: Connect_tidy disconnect_tidy dog_step_tidy keepalive_tidy\<close>)

inductive orderly_reachable :: "bool \<Rightarrow> enrollmentRegistry \<Rightarrow> Client \<Rightarrow> bool" for hook reg where
  orderly_init: "orderly_reachable hook reg (NewClient hook reg)"
| orderly_next: "orderly_reachable hook reg c \<Longrightarrow> enabled op c \<Longrightarrow> orderly op c \<Longrightarrow> orderly_reachable hook reg (agent_step op c)"

lemma orderly_tidy: "orderly_reachable hook reg c \<Longrightarrow> tidy c \<and> dogs_idle c"
proof (induction rule: orderly_reachable.induct)
  case orderly_init
  then show ?case by (simp add: tidy_def svc_ok_def svc_reg_def NewClient_def dogs_idle_def)
qed (simp add: agent_step_tidy agent_step_idle)



text \<open>
  A retry of a failed reload that fires after its enrollment was disconnected starts Nebula again: the
  retry goroutine looks at the context of the client, not at that of the instance. The new service
  belongs to no registered instance, and nothing can stop it but the end of the process.
\<close>

lemma late_retry_leaks:
  "\<exists>c. agent_reachable True one_enrollment c \<and> cl_instances c ''home'' = None \<and> cl_open c = [1] \<and> cl_open (Client_Stop [] c) = [1]"
proof -
  let ?c = "agent_step (OpRetry fine 0) (agent_step (OpDisconnect ''home'') (agent_step (OpReload busy 0) agent_up))"
  have "exists_inst 0 (agent_step (OpDisconnect ''home'') (agent_step (OpReload busy 0) agent_up))"
    "cl_started (agent_step (OpDisconnect ''home'') (agent_step (OpReload busy 0) agent_up))"
    by code_simp+
  then have e: "enabled (OpReload busy 0) agent_up" "enabled (OpRetry fine 0) (agent_step (OpDisconnect ''home'') (agent_step (OpReload busy 0) agent_up))"
    using agent_up_running(2) by simp_all
  have "agent_reachable True one_enrollment ?c"
    by (intro agent_next agent_up_reachable e) simp
  moreover have "cl_instances ?c ''home'' = None" "cl_open ?c = [1]" "cl_open (Client_Stop [] ?c) = [1]" by code_simp+
  ultimately show ?thesis by blast
qed

end
