(* ===== verification/PeerCache.thy ===== *)
theory PeerCache
  imports Agent
begin

text \<open>
  What an agent knows and says about endpoints (src/internal/client/peer_cache.go, peerstate.go,
  self_endpoints.go and the endpoint handling of renew.go). The host map of Nebula is written by
  \<open>ReplaceStaticHostMap\<close> only; a function that feeds it returns the list of its calls. A Go map is a list of
  pairs in the order of the iteration. A file is the result of reading and decoding it, with no value
  when it does not exist. The interfaces of the host and what the operating system says about them are
  arguments.
\<close>

section \<open>Which entries are accepted\<close>

text \<open>\<open>netip.Prefix.Contains\<close>: an address with a zone or of the other family is in no prefix.\<close>

definition prefix_contains :: "addr_prefix \<Rightarrow> addr \<Rightarrow> bool" where
  "prefix_contains p ip =
     (case (fst p, ip) of
        (A4 a, A4 b) \<Rightarrow> mask_bytes (snd p) (quad_nats a) = mask_bytes (snd p) (quad_nats b)
      | (A6 a z, A6 b z') \<Rightarrow> z' = [] \<and> mask_bytes (snd p) (map of_char a) = mask_bytes (snd p) (map of_char b)
      | _ \<Rightarrow> False)"

definition acceptPeerEndpoint :: "string \<Rightarrow> addr_prefix option \<Rightarrow> string \<Rightarrow> addr option" where
  "acceptPeerEndpoint selfIP subnet ipStr =
     (if selfIP \<noteq> [] \<and> ipStr = selfIP then None
      else case netip_ParseAddr ipStr of
        None \<Rightarrow> None
      | Some vpn \<Rightarrow> (case subnet of Some p \<Rightarrow> if prefix_contains p vpn then Some vpn else None | None \<Rightarrow> Some vpn))"

type_synonym host_call = "addr \<times> addr_port list"

definition host_entry :: "string \<Rightarrow> addr_prefix option \<Rightarrow> string \<times> string list \<Rightarrow> host_call option" where
  "host_entry selfIP subnet e =
     (case acceptPeerEndpoint selfIP subnet (fst e) of
        None \<Rightarrow> None
      | Some vpn \<Rightarrow> let addrs = List.map_filter ParseAddrPort (snd e) in if addrs = [] then None else Some (vpn, addrs))"

section \<open>The cache file\<close>

record peerCacheEntry =
  pe_endpoints :: "string list"
  pe_seen :: int

record peerCache =
  pc_version :: int
  pc_updated :: int
  pc_peers :: "(string \<times> peerCacheEntry) list"

type_synonym cache_file = "peerCache option res"

definition peerCacheSchemaVersion :: int where
  "peerCacheSchemaVersion = 1"

definition peerCacheTTL :: int where
  "peerCacheTTL = 86400"

definition add_endpoint :: "string \<Rightarrow> string list \<Rightarrow> string list" where
  "add_endpoint s out = (if s = [] \<or> s \<in> set out \<or> ParseAddrPort s = None then out else out @ [s])"

definition normalizeEndpoints :: "string list \<Rightarrow> string list" where
  "normalizeEndpoints eps = sort (fold add_endpoint eps [])"

definition loadPeerCacheRaw :: "string \<Rightarrow> cache_file \<Rightarrow> peerCache option res" where
  "loadPeerCacheRaw path f =
     (case f of
        Inl err \<Rightarrow> Inl err
      | Inr None \<Rightarrow> Inr None
      | Inr (Some c) \<Rightarrow>
          if pc_version c \<noteq> peerCacheSchemaVersion
          then Inl (ErrMsg (''peer cache '' @ path @ '': unsupported schemaVersion '' @ dec (pc_version c)))
          else Inr (Some c))"

definition loadPeerCache :: "int \<Rightarrow> string \<Rightarrow> cache_file \<Rightarrow> peerCache option res" where
  "loadPeerCache now path f =
     (case loadPeerCacheRaw path f of
        Inl err \<Rightarrow> Inl err
      | Inr None \<Rightarrow> Inr None
      | Inr (Some c) \<Rightarrow>
          let fresh = filter (\<lambda>e. \<not> pe_seen (snd e) < now - peerCacheTTL) (pc_peers c)
          in if fresh = [] then Inr None else Inr (Some (c\<lparr>pc_peers := fresh\<rparr>)))"

definition note_peer :: "int \<Rightarrow> string \<times> string list \<Rightarrow> (string \<times> peerCacheEntry) list \<times> bool \<Rightarrow> (string \<times> peerCacheEntry) list \<times> bool" where
  "note_peer now e st =
     (let eps = normalizeEndpoints (snd e) in
      if eps = [] \<or> netip_ParseAddr (fst e) = None then st
      else case map_of (fst st) (fst e) of
        Some prev \<Rightarrow>
          if pe_endpoints prev = eps then (AList.update (fst e) (prev\<lparr>pe_seen := now\<rparr>) (fst st), True)
          else (AList.update (fst e) \<lparr>pe_endpoints = eps, pe_seen = now\<rparr> (fst st), True)
      | None \<Rightarrow> (AList.update (fst e) \<lparr>pe_endpoints = eps, pe_seen = now\<rparr> (fst st), True))"

definition savePeerCache ::
  "go_error option \<Rightarrow> int \<Rightarrow> string \<Rightarrow> (string \<times> string list) list \<Rightarrow> cache_file \<Rightarrow> go_error option \<times> cache_file" where
  "savePeerCache fault now path peerEndpoints f =
     (if peerEndpoints = [] then (None, f)
      else
        let cur = (case loadPeerCacheRaw path f of Inr (Some c) \<Rightarrow> pc_peers c | _ \<Rightarrow> []) in
        case fold (note_peer now) peerEndpoints (cur, False) of (peers, changed) \<Rightarrow>
          if \<not> changed then (None, f)
          else case fault of
            Some err \<Rightarrow> (Some err, f)
          | None \<Rightarrow> (None, Inr (Some \<lparr>pc_version = peerCacheSchemaVersion, pc_updated = now, pc_peers = peers\<rparr>)))"

text \<open>
  The entries of a heartbeat, and at the start those of the file. \<open>up\<close> says whether the instance
  has a service. A failed save is only logged.
\<close>

definition injectPeerEndpoints ::
  "go_error option \<Rightarrow> int \<Rightarrow> bool \<Rightarrow> string \<Rightarrow> addr_prefix option \<Rightarrow> string \<Rightarrow> (string \<times> string list) list \<Rightarrow> cache_file
     \<Rightarrow> host_call list \<times> cache_file" where
  "injectPeerEndpoints fault now up selfIP subnet path peerEndpoints f =
     (if peerEndpoints = [] then ([], f)
      else (if up then List.map_filter (host_entry selfIP subnet) peerEndpoints else [],
            snd (savePeerCache fault now path peerEndpoints f)))"

definition injectCachedPeerEndpoints ::
  "int \<Rightarrow> bool \<Rightarrow> string \<Rightarrow> addr_prefix option \<Rightarrow> string \<Rightarrow> cache_file \<Rightarrow> host_call list" where
  "injectCachedPeerEndpoints now up selfIP subnet path f =
     (case loadPeerCache now path f of
        Inr (Some c) \<Rightarrow>
          if up then List.map_filter (host_entry selfIP subnet) (map (\<lambda>e. (fst e, pe_endpoints (snd e))) (pc_peers c)) else []
      | _ \<Rightarrow> [])"

section \<open>Names of the peers\<close>

definition store_info :: "string \<times> 'i \<Rightarrow> (string \<rightharpoonup> 'i) \<Rightarrow> (string \<rightharpoonup> 'i)" where
  "store_info e m = m(fst e \<mapsto> snd e)"

definition updatePeerInfoCache :: "(string \<rightharpoonup> 'i) \<Rightarrow> (string \<times> 'i) list \<Rightarrow> (string \<rightharpoonup> 'i)" where
  "updatePeerInfoCache cache info =
     (let stored = fold store_info info cache
      in stored |` set (map fst info))"

section \<open>Endpoints of the agent itself\<close>

record interface =
  if_name :: string
  if_up :: bool
  if_loopback :: bool
  if_addrs :: "net_ip list res"

definition usable_addr :: "net_ip \<Rightarrow> ipv4 option" where
  "usable_addr ip =
     (case To4 ip of
        None \<Rightarrow> None
      | Some a \<Rightarrow>
          if IsLoopback (A4 a) \<or> IsLinkLocalUnicast (A4 a) \<or> IsMulticast (A4 a) \<or> a = (0, 0, 0, 0)
             \<or> (case a of (p, q, _) \<Rightarrow> p = 10 \<and> q = 42)
          then None else Some a)"

definition localUnicastAddrsOnInterface :: "interface list res \<Rightarrow> string \<Rightarrow> ipv4 list" where
  "localUnicastAddrsOnInterface ifaces onlyIface =
     (case ifaces of
        Inl err \<Rightarrow> []
      | Inr is \<Rightarrow>
          concat (map (\<lambda>i. case if_addrs i of Inl err \<Rightarrow> [] | Inr as \<Rightarrow> List.map_filter usable_addr as)
            (filter (\<lambda>i. if_up i \<and> \<not> if_loopback i \<and> (onlyIface = [] \<or> if_name i = onlyIface)) is)))"

definition append_once :: "'a \<Rightarrow> 'a list \<Rightarrow> 'a list" where
  "append_once s out = (if s \<in> set out then out else out @ [s])"

text \<open>\<open>detect\<close> is \<open>nebulacfg.DetectPhysicalInterface\<close>, \<open>current\<close> the public address of the port mapping, if it has one.\<close>

definition selfEndpoints ::
  "(string \<Rightarrow> string res) \<Rightarrow> interface list res \<Rightarrow> addr_port option \<Rightarrow> string \<Rightarrow> int \<Rightarrow> string list" where
  "selfEndpoints detect ifaces current endpoint port =
     (if port = 0 then []
      else
        let out = (case current of Some pub \<Rightarrow> [AddrPort_String pub] | None \<Rightarrow> []);
            host = extractHost endpoint;
            physIface = (if host = [] then [] else case detect host of Inr i \<Rightarrow> i | Inl err \<Rightarrow> []);
            addrs = localUnicastAddrsOnInterface ifaces physIface
        in fold append_once (map (\<lambda>ip. AddrPort_String (A4 ip, nat (port mod 65536))) addrs) out)"

definition selfEndpointLifetimes :: "(int \<times> addr_port option) option \<Rightarrow> string list \<Rightarrow> int list" where
  "selfEndpointLifetimes portmap addrs =
     (case portmap of
        Some (lifetime, Some pub) \<Rightarrow> map (\<lambda>a. if lifetime > 0 \<and> a = AddrPort_String pub then lifetime else 0) addrs
      | _ \<Rightarrow> map (\<lambda>_. 0) addrs)"

section \<open>Report about the peers\<close>

record host_info =
  hi_vpn :: "addr option"
  hi_remote :: "addr_port option"
  hi_relayed :: bool

record merged =
  mg_direct :: bool
  mg_relay :: bool
  mg_remote :: string

record peer_report =
  pd_vpn :: string
  pd_direct :: bool
  pd_remote :: string
  pd_rtt :: int

definition maxPeersPerReport :: nat where
  "maxPeersPerReport = 100"

definition merge_host :: "host_info \<Rightarrow> (string \<times> merged) list \<Rightarrow> (string \<times> merged) list" where
  "merge_host h byPeer =
     (case hi_vpn h of
        None \<Rightarrow> byPeer
      | Some a \<Rightarrow>
          let vpn = netip_String a;
              entry = (case map_of byPeer vpn of Some m \<Rightarrow> m | None \<Rightarrow> \<lparr>mg_direct = False, mg_relay = False, mg_remote = []\<rparr>);
              entry = (case hi_remote h of
                         Some r \<Rightarrow> if mg_direct entry then entry else entry\<lparr>mg_direct := True, mg_remote := AddrPort_String r\<rparr>
                       | None \<Rightarrow> entry);
              entry = (if hi_relayed h then entry\<lparr>mg_relay := True\<rparr> else entry)
          in AList.update vpn entry byPeer)"

text \<open>The round trip time of a peer with its number of samples is read from \<open>pq\<close>.\<close>

fun report_peers :: "(string \<Rightarrow> int \<times> nat) \<Rightarrow> (string \<times> merged) list \<Rightarrow> nat \<times> nat \<times> peer_report list \<Rightarrow> nat \<times> nat \<times> peer_report list" where
  "report_peers pq [] acc = acc"
| "report_peers pq ((vpn, m) # ms) (direct, relayed, peers) =
     (if mg_direct m then
        let rtt = (if snd (pq vpn) > 0 then fst (pq vpn) else 0);
            peers = peers @ [\<lparr>pd_vpn = vpn, pd_direct = True, pd_remote = mg_remote m, pd_rtt = rtt\<rparr>]
        in if length peers \<ge> maxPeersPerReport then (Suc direct, relayed, peers) else report_peers pq ms (Suc direct, relayed, peers)
      else if mg_relay m then
        let peers = peers @ [\<lparr>pd_vpn = vpn, pd_direct = False, pd_remote = [], pd_rtt = 0\<rparr>]
        in if length peers \<ge> maxPeersPerReport then (direct, Suc relayed, peers) else report_peers pq ms (direct, Suc relayed, peers)
      else report_peers pq ms (direct, relayed, peers))"

definition collectPeerState :: "host_info list option \<Rightarrow> (string \<Rightarrow> int \<times> nat) \<Rightarrow> (nat \<times> nat \<times> peer_report list) option" where
  "collectPeerState hosts pq =
     (case hosts of None \<Rightarrow> None | Some hs \<Rightarrow> Some (report_peers pq (fold merge_host hs []) (0, 0, [])))"

section \<open>Entries that reach the host map\<close>

text \<open>A parsed IPv4 address has one text only.\<close>

lemma dec_val_nonzero: "s \<noteq> [] \<Longrightarrow> list_all is_digit s \<Longrightarrow> hd s \<noteq> CHR ''0'' \<Longrightarrow> dec_val s \<noteq> 0"
proof (induction s rule: rev_induct)
  case (snoc c s)
  show ?case
  proof (cases "s = []")
    case True
    have "CHR ''0'' = char_of (48 :: nat)" by code_simp
    then have "char_of (of_char c :: nat) \<noteq> (char_of (48 :: nat) :: char)" using snoc.prems True by simp
    then have "of_char c \<noteq> (48 :: nat)" by fastforce
    then show ?thesis using snoc.prems True by (simp add: dec_val_snoc is_digit_def) (simp add: dec_val_def)
  next
    case False
    then show ?thesis using snoc by (simp add: dec_val_snoc)
  qed
qed simp

lemma itoa_dec_val: "s \<noteq> [] \<Longrightarrow> list_all is_digit s \<Longrightarrow> (1 < length s \<longrightarrow> hd s \<noteq> CHR ''0'') \<Longrightarrow> itoa (dec_val s) = s"
proof (induction s rule: rev_induct)
  case (snoc c s)
  let ?d = "of_char c - 48 :: nat"
  have d: "?d < 10" "char_of (48 + ?d) = c" using snoc.prems by (auto simp: is_digit_def)
  show ?case
  proof (cases "s = []")
    case True
    then show ?thesis using d by (subst itoa.simps) (simp add: dec_val_def)
  next
    case False
    then have s: "list_all is_digit s" "hd s \<noteq> CHR ''0''" using snoc.prems by auto
    then have "dec_val s \<noteq> 0" "itoa (dec_val s) = s" using dec_val_nonzero [OF False] snoc.IH [OF False] by auto
    moreover have "itoa (10 * dec_val s + ?d) = itoa (dec_val s) @ [char_of (48 + ?d)]"
      using d(1) calculation(1) by (subst itoa.simps) simp
    ultimately show ?thesis using d by (simp add: dec_val_snoc)
  qed
qed simp

lemma parse_octet_canonical: "parse_octet f = Some w \<Longrightarrow> octet_string w = f"
  by (auto simp: parse_octet_def octet_string_def itoa_dec_val unat_of_nat split: if_splits)

lemma Split_inverse: "Split c s = x # ys \<Longrightarrow> s = x @ concat (map (Cons c) ys)"
proof (induction s arbitrary: x ys)
  case (Cons d s)
  obtain y zs where s: "Split c s = y # zs" by (cases "Split c s") auto
  show ?case
  proof (cases "d = c")
    case True
    then have "x = []" "ys = y # zs" using Cons.prems s by auto
    then show ?thesis using True Cons.IH [OF s] by simp
  next
    case False
    then show ?thesis using Cons.prems s Cons.IH [OF s] by auto
  qed
qed simp

lemma ParseAddr_canonical:
  assumes "ParseAddr s = Some a"
  shows "addr_string a = s"
proof -
  obtain f0 f1 f2 f3 p q r t where f: "Split CHR ''.'' s = [f0, f1, f2, f3]" "a = (p, q, r, t)"
      "parse_octet f0 = Some p" "parse_octet f1 = Some q" "parse_octet f2 = Some r" "parse_octet f3 = Some t"
    using assms by (auto simp: ParseAddr_def split: list.splits option.splits)
  show ?thesis using Split_inverse [OF f(1)] f(2-) by (simp add: addr_string_def parse_octet_canonical)
qed

lemma netip_ParseAddr_canonical: "netip_ParseAddr s = Some (A4 a) \<Longrightarrow> s = addr_string a"
  using ParseAddr_canonical by (auto simp: netip_ParseAddr_def Let_def split: list.splits if_splits)

lemma host_entry_Some:
  assumes "host_entry selfIP subnet (ip, eps) = Some (vpn, addrs)"
  shows "netip_ParseAddr ip = Some vpn" "selfIP = [] \<or> ip \<noteq> selfIP" "\<forall>p. subnet = Some p \<longrightarrow> prefix_contains p vpn"
    "addrs = List.map_filter ParseAddrPort eps" "addrs \<noteq> []"
  using assms
  by (auto simp: host_entry_def acceptPeerEndpoint_def Let_def split: option.splits if_splits)

lemma injected_entry:
  "c \<in> set (fst (injectPeerEndpoints fault now up selfIP subnet path eps f)) \<Longrightarrow> \<exists>e \<in> set eps. host_entry selfIP subnet e = Some c"
  by (auto simp: injectPeerEndpoints_def set_map_filter split: if_splits)

lemma cached_entry:
  "c \<in> set (injectCachedPeerEndpoints now up selfIP subnet path f) \<Longrightarrow> \<exists>e. host_entry selfIP subnet e = Some c"
  by (auto simp: injectCachedPeerEndpoints_def set_map_filter split: sum.splits option.splits if_splits)



section \<open>The cache over a restart\<close>

lemma add_endpoints_set: "set (fold add_endpoint eps out) = set out \<union> {s \<in> set eps. ParseAddrPort s \<noteq> None}"
proof (induction eps arbitrary: out)
  case (Cons s eps)
  have "set (add_endpoint s out) = set out \<union> (if ParseAddrPort s = None then {} else {s})"
    by (auto simp: add_endpoint_def ParseAddrPort_def)
  then show ?case using Cons.IH by auto
qed simp

lemma set_normalizeEndpoints [simp]: "set (normalizeEndpoints eps) = {s \<in> set eps. ParseAddrPort s \<noteq> None}"
  by (simp add: normalizeEndpoints_def add_endpoints_set)

lemma normalized_addrs:
  "set (List.map_filter ParseAddrPort (normalizeEndpoints eps)) = set (List.map_filter ParseAddrPort eps)"
  by (auto simp: set_map_filter)

definition good_entry :: "string \<times> string list \<Rightarrow> bool" where
  "good_entry e \<longleftrightarrow> normalizeEndpoints (snd e) \<noteq> [] \<and> netip_ParseAddr (fst e) \<noteq> None"

lemma note_peer_good:
  "good_entry e \<Longrightarrow> note_peer now e st = (AList.update (fst e) \<lparr>pe_endpoints = normalizeEndpoints (snd e), pe_seen = now\<rparr> (fst st), True)"
  by (auto simp: good_entry_def note_peer_def Let_def split: option.split intro!: arg_cong2 [where f = "AList.update (fst e)"])

lemma note_peer_bad: "\<not> good_entry e \<Longrightarrow> note_peer now e st = st"
  by (auto simp: good_entry_def note_peer_def)

lemma note_peers_other:
  "ip \<notin> fst ` set es \<Longrightarrow> map_of (fst (fold (note_peer now) es st)) ip = map_of (fst st) ip"
proof (induction es arbitrary: st)
  case (Cons e es)
  have "map_of (fst (note_peer now e st)) ip = map_of (fst st) ip"
    using Cons.prems by (cases "good_entry e") (auto simp: note_peer_good note_peer_bad update_conv')
  then show ?case using Cons by simp
qed simp

lemma note_peers_changed: "snd (fold (note_peer now) es st) \<longleftrightarrow> snd st \<or> (\<exists>e \<in> set es. good_entry e)"
proof (induction es arbitrary: st)
  case (Cons e es)
  then show ?case by (cases "good_entry e") (auto simp: note_peer_good note_peer_bad)
qed simp

lemma note_peers_own:
  assumes "distinct (map fst es)" "(ip, eps) \<in> set es" "good_entry (ip, eps)"
  shows "map_of (fst (fold (note_peer now) es st)) ip = Some \<lparr>pe_endpoints = normalizeEndpoints eps, pe_seen = now\<rparr>"
proof -
  obtain pre post where es: "es = pre @ (ip, eps) # post" using assms(2) by (meson split_list)
  then have "ip \<notin> fst ` set post" using assms(1) by auto
  then show ?thesis
    using note_peers_other [of ip post] assms(3) by (simp add: es note_peer_good update_conv')
qed

text \<open>What a readable cache file says about a peer.\<close>

definition stored_peer :: "string \<Rightarrow> cache_file \<Rightarrow> string \<Rightarrow> peerCacheEntry option" where
  "stored_peer path f ip = (case loadPeerCacheRaw path f of Inr (Some c) \<Rightarrow> map_of (pc_peers c) ip | _ \<Rightarrow> None)"

lemma savePeerCache_peers:
  "stored_peer path (snd (savePeerCache None now path es f)) ip =
     (if (\<exists>e \<in> set es. good_entry e)
      then map_of (fst (fold (note_peer now) es (case loadPeerCacheRaw path f of Inr (Some c) \<Rightarrow> pc_peers c | _ \<Rightarrow> [], False))) ip
      else stored_peer path f ip)"
proof -
  let ?cur = "case loadPeerCacheRaw path f of Inr (Some c) \<Rightarrow> pc_peers c | _ \<Rightarrow> []"
  obtain peers ch where r: "fold (note_peer now) es (?cur, False) = (peers, ch)" by fastforce
  have "ch \<longleftrightarrow> (\<exists>e \<in> set es. good_entry e)" using note_peers_changed [of now es "(?cur, False)"] r by simp
  then show ?thesis
    using r by (auto simp: savePeerCache_def stored_peer_def loadPeerCacheRaw_def peerCacheSchemaVersion_def)
qed

lemma savePeerCache_own:
  assumes "distinct (map fst es)" "(ip, eps) \<in> set es" "good_entry (ip, eps)"
  shows "stored_peer path (snd (savePeerCache None now path es f)) ip = Some \<lparr>pe_endpoints = normalizeEndpoints eps, pe_seen = now\<rparr>"
  using assms note_peers_own [OF assms] by (auto simp: savePeerCache_peers)

lemma savePeerCache_other:
  assumes "ip \<notin> fst ` set es"
  shows "stored_peer path (snd (savePeerCache None now path es f)) ip = stored_peer path f ip"
  unfolding savePeerCache_peers note_peers_other [OF assms]
  by (simp add: stored_peer_def split: sum.split option.split)

text \<open>The file after a sequence of heartbeat answers, each with its time.\<close>

definition after_heartbeats :: "string \<Rightarrow> addr_prefix option \<Rightarrow> string \<Rightarrow> (int \<times> (string \<times> string list) list) list \<Rightarrow> cache_file \<Rightarrow> cache_file" where
  "after_heartbeats selfIP subnet path hs f = fold (\<lambda>(t, es) f. snd (injectPeerEndpoints None t True selfIP subnet path es f)) hs f"

lemma inject_saves: "snd (injectPeerEndpoints fault t up selfIP subnet path es f) = snd (savePeerCache fault t path es f)"
  by (simp add: injectPeerEndpoints_def savePeerCache_def)

lemma after_heartbeats_other:
  "\<forall>(t, es) \<in> set hs. ip \<notin> fst ` set es \<Longrightarrow> stored_peer path (after_heartbeats selfIP subnet path hs f) ip = stored_peer path f ip"
  by (induction hs arbitrary: f) (auto simp: after_heartbeats_def inject_saves savePeerCache_other)

lemma cached_call:
  assumes "stored_peer path f ip = Some \<lparr>pe_endpoints = eps, pe_seen = t\<rparr>" "now \<le> t + peerCacheTTL"
    "host_entry selfIP subnet (ip, eps) = Some call"
  shows "call \<in> set (injectCachedPeerEndpoints now True selfIP subnet path f)"
proof -
  obtain c where c: "loadPeerCacheRaw path f = Inr (Some c)" "(ip, \<lparr>pe_endpoints = eps, pe_seen = t\<rparr>) \<in> set (pc_peers c)"
    using assms(1) by (auto simp: stored_peer_def split: sum.splits option.splits dest: map_of_SomeD)
  let ?fresh = "filter (\<lambda>e. \<not> pe_seen (snd e) < now - peerCacheTTL) (pc_peers c)"
  have "(ip, \<lparr>pe_endpoints = eps, pe_seen = t\<rparr>) \<in> set ?fresh" using c(2) assms(2) by simp
  then have "?fresh \<noteq> []" by force
  then have "loadPeerCache now path f = Inr (Some (c\<lparr>pc_peers := ?fresh\<rparr>))" using c(1) by (simp add: loadPeerCache_def Let_def)
  then show ?thesis
    using assms(2,3) c(2)
    by (simp add: injectCachedPeerEndpoints_def set_map_filter)
      (rule exI [of _ ip], rule exI [of _ "\<lparr>pe_endpoints = eps, pe_seen = t\<rparr>"], simp)
qed

text \<open>
  Property C40. Peers survive a restart. The endpoints that a heartbeat handed to Nebula for a peer are
  handed to it again after a restart within the next day, also when later heartbeats did not mention the
  peer, and whatever the cache file contained before.
\<close>

theorem peers_survive_restart:
  assumes "(ip, eps) \<in> set es" "distinct (map fst es)" "host_entry selfIP subnet (ip, eps) = Some (vpn, addrs)"
    and "\<forall>(t', es') \<in> set later. ip \<notin> fst ` set es'" and "now \<le> t + peerCacheTTL"
  shows "\<exists>addrs'. set addrs' = set addrs
    \<and> (vpn, addrs') \<in> set (injectCachedPeerEndpoints now True selfIP subnet path (after_heartbeats selfIP subnet path ((t, es) # later) f))"
proof -
  note he = host_entry_Some [OF assms(3)]
  have good: "good_entry (ip, eps)"
    using he(1,4,5) normalized_addrs [of eps] by (auto simp: good_entry_def List.map_filter_simps)
  have stored: "stored_peer path (after_heartbeats selfIP subnet path ((t, es) # later) f) ip = Some \<lparr>pe_endpoints = normalizeEndpoints eps, pe_seen = t\<rparr>"
    using savePeerCache_own [OF assms(2,1) good] after_heartbeats_other [OF assms(4)]
    by (simp add: after_heartbeats_def inject_saves)
  let ?a = "List.map_filter ParseAddrPort (normalizeEndpoints eps)"
  have "set ?a = set addrs" "?a \<noteq> []" using normalized_addrs [of eps] he(4,5) by auto
  moreover have "host_entry selfIP subnet (ip, normalizeEndpoints eps) = Some (vpn, ?a)"
    using assms(3) calculation(2) by (auto simp: host_entry_def Let_def split: option.splits if_splits)
  ultimately show ?thesis using cached_call [OF stored assms(5)] by blast
qed

theorem peers_survive_restart_witness:
  "\<exists>addrs'. set addrs' = {(A4 (198, 51, 100, 9), 4242)}
    \<and> (A4 (10, 42, 1, 8), addrs') \<in> set (injectCachedPeerEndpoints 80000 True [] None ''peers.json''
        (after_heartbeats [] None ''peers.json'' [(1000, [(''10.42.1.8'', [''198.51.100.9:4242''])]), (2000, [(''10.42.1.9'', [''198.51.100.1:4242''])])]
          (Inl not_exist)))"
proof -
  have "host_entry [] None (''10.42.1.8'', [''198.51.100.9:4242'']) = Some (A4 (10, 42, 1, 8), [(A4 (198, 51, 100, 9), 4242)])"
    by code_simp
  then show ?thesis
    using peers_survive_restart [of "''10.42.1.8''" "[''198.51.100.9:4242'']" "[(''10.42.1.8'', [''198.51.100.9:4242''])]" "[]" None
        "A4 (10, 42, 1, 8)" "[(A4 (198, 51, 100, 9), 4242)]" "[(2000, [(''10.42.1.9'', [''198.51.100.1:4242''])])]" 80000 1000 "''peers.json''" "Inl not_exist"]
    by (simp add: peerCacheTTL_def)
qed

section \<open>The report about the peers\<close>

definition classified :: "merged \<Rightarrow> bool" where
  "classified m \<longleftrightarrow> mg_direct m \<or> mg_relay m"

lemma report_peers_counts:
  assumes "report_peers pq ms (d, r, ps) = (d', r', ps')" "length ps < maxPeersPerReport"
    "d = length (filter pd_direct ps)" "r = length (filter (\<lambda>p. \<not> pd_direct p) ps)"
  shows "d' = length (filter pd_direct ps') \<and> r' = length (filter (\<lambda>p. \<not> pd_direct p) ps')
    \<and> length ps' = min maxPeersPerReport (length ps + length (filter (classified \<circ> snd) ms))"
  using assms
proof (induction pq ms "(d, r, ps)" arbitrary: d r ps rule: report_peers.induct)
  case (2 pq vpn m ms direct relayed peers)
  show ?case
  proof (cases "classified m")
    case False
    then show ?thesis using 2 by (auto simp: classified_def)
  next
    case True
    show ?thesis
    proof (cases "Suc (length peers) < maxPeersPerReport")
      case False
      then show ?thesis using 2(4-) True by (auto simp: classified_def Let_def split: if_splits)
    next
      case less: True
      then show ?thesis using 2 True by (auto simp: classified_def Let_def split: if_splits)
    qed
  qed
qed auto

text \<open>The numbers of the report count the listed peers; they stop at the cap like the list.\<close>

lemma report_counts_capped:
  assumes "collectPeerState (Some hs) pq = Some (direct, relayed, peers)"
  shows "direct = length (filter pd_direct peers) \<and> direct + relayed = min 100 (length (filter (classified \<circ> snd) (fold merge_host hs [])))"
proof -
  have "length peers = length (filter pd_direct peers) + length (filter (\<lambda>p. \<not> pd_direct p) peers)"
    by (simp add: sum_length_filter_compl)
  then show ?thesis
    using assms report_peers_counts [of pq "fold merge_host hs []" 0 0 "[]" direct relayed peers]
    by (simp add: collectPeerState_def maxPeersPerReport_def)
qed

lemma merge_host_keys: "distinct (map fst m) \<Longrightarrow> distinct (map fst (merge_host h m))"
  by (auto simp: merge_host_def Let_def distinct_update split: option.split)

lemma merge_hosts_keys: "distinct (map fst (fold merge_host hs []))"
proof -
  have "distinct (map fst m) \<Longrightarrow> distinct (map fst (fold merge_host hs m))" for m
    by (induction hs arbitrary: m) (simp_all add: merge_host_keys)
  then show ?thesis by simp
qed

text \<open>A name that the server no longer reports is forgotten, and a reported one is current.\<close>

lemma updatePeerInfoCache_exact:
  assumes "distinct (map fst info)"
  shows "updatePeerInfoCache cache info = map_of info"
proof -
  have other: "ip \<notin> fst ` set info \<Longrightarrow> fold store_info info cache ip = cache ip" for info cache ip
    by (induction info arbitrary: cache) (auto simp: store_info_def)
  have "ip \<in> fst ` set info \<Longrightarrow> fold store_info info cache ip = map_of info ip" for ip
    using assms
  proof (induction info arbitrary: cache)
    case (Cons e es)
    have "store_info e cache (fst e) = Some (snd e)" by (simp add: store_info_def)
    then show ?case using Cons other [of "fst e" es "store_info e cache"] by (cases e, cases "fst e = ip") auto
  qed simp
  then show ?thesis by (auto simp: updatePeerInfoCache_def Let_def restrict_map_def fun_eq_iff intro!: map_of_eq_None_iff [THEN iffD2, symmetric])
qed

text \<open>
  The endpoints of an agent are distinct, none lies in the mesh range, and each lifetime belongs to the
  endpoint at its position.
\<close>

lemma append_once_distinct: "distinct out \<Longrightarrow> distinct (fold append_once xs out)"
  by (induction xs arbitrary: out) (auto simp: append_once_def)

lemma selfEndpoints_distinct: "distinct (selfEndpoints detect ifaces current endpoint port)"
  by (auto simp: selfEndpoints_def Let_def intro!: append_once_distinct split: option.split)

lemma selfEndpointLifetimes_length: "length (selfEndpointLifetimes portmap addrs) = length addrs"
  by (simp add: selfEndpointLifetimes_def split: option.split prod.split)

end
