(* ===== verification/AgentLoops.thy ===== *)
theory AgentLoops
  imports PeerCache RenewApi Watchdogs
begin

text \<open>
  The two loops with which an agent talks to the control plane: the renewal of its certificate and the
  heartbeat (src/internal/client/renew.go). The state is the set of files of one enrollment together with the
  state of the client, which a reload of Nebula changes. What one request meets (the answer of the server,
  faults of the file system, what a restart of Nebula runs into, the clock and the random number) is a
  record; the answer is a function of the token and the body that are sent. A panic is \<open>None\<close>.
  Times and durations are in nanoseconds, the clock of the cache file in seconds.
\<close>

record 'b node_files =
  nf_token :: "string res"
  nf_crt :: "string res"
  nf_key :: "string res"
  nf_yaml :: "'b res"
  nf_routes :: "string res"
  nf_relay :: "relayState option res"
  nf_cache :: cache_file
  nf_info :: "string \<rightharpoonup> peerInfoEntry"
  nf_hosts :: "host_call list"
  nf_registry :: "stored \<times> stored"

definition readInstanceToken :: "'b node_files \<Rightarrow> string res" where
  "readInstanceToken st = (case nf_token st of Inl err \<Rightarrow> Inl (ErrWrap ''read token'' err) | Inr t \<Rightarrow> Inr (TrimSpace t))"

definition revoked :: "string \<Rightarrow> go_error" where
  "revoked name = ErrMsg (''401: node deleted or token revoked for enrollment '' @ quoted name)"

section \<open>Renewal of the certificate\<close>

record renewal_answer =
  ra_cert :: string
  ra_key :: string
  ra_config :: "nebulaConfigUpdate option"

record renewal_io =
  rx_request :: "go_error option"
  rx_send :: "string \<Rightarrow> string \<Rightarrow> (nat \<times> string \<times> renewal_answer res) res"
  rx_crt_fault :: "go_error option"
  rx_key_fault :: "go_error option"
  rx_yaml_fault :: "go_error option"
  rx_attempt :: attempt
  rx_times :: "int \<times> int"

definition renewCert ::
  "'b yaml_lib \<Rightarrow> renewal_io \<Rightarrow> nat \<Rightarrow> 'b node_files \<times> Client \<Rightarrow> (go_error option \<times> 'b node_files \<times> Client) option" where
  "renewCert Y io i S =
     (case S of (st, c) \<Rightarrow>
      let e = mi_enrollment (inst i c); fail = (\<lambda>err st. Some (Some err, st, c)) in
      case rx_request io of
        Some err \<Rightarrow> fail err st
      | None \<Rightarrow>
       case readInstanceToken st of
         Inl err \<Rightarrow> fail err st
       | Inr token \<Rightarrow>
        case rx_send io token (en_node_id e) of
          Inl err \<Rightarrow> fail (ErrWrap ''request failed'' err) st
        | Inr (code, text, answer) \<Rightarrow>
           if code = 401 then fail (revoked (en_name e)) st
           else if code \<noteq> 200 then fail (ErrMsg (''HTTP '' @ itoa code @ '': '' @ text)) st
           else case answer of
             Inl err \<Rightarrow> fail (ErrWrap ''parse response'' err) st
           | Inr a \<Rightarrow>
              if ra_cert a = [] \<or> ra_key a = [] then fail (ErrMsg ''empty cert or key in response'') st
              else case atomicWrite (rx_crt_fault io) (ra_cert a) (nf_crt st) of
                (Some err, crt) \<Rightarrow> fail (ErrWrap ''write cert'' err) (st\<lparr>nf_crt := crt\<rparr>)
              | (None, crt) \<Rightarrow>
                 case atomicWrite (rx_key_fault io) (ra_key a) (nf_key st) of
                   (Some err, key) \<Rightarrow> fail (ErrWrap ''write key'' err) (st\<lparr>nf_crt := crt, nf_key := key\<rparr>)
                 | (None, key) \<Rightarrow>
                    let st = st\<lparr>nf_crt := crt, nf_key := key\<rparr> in
                    map_option (\<lambda>doc. (None, st\<lparr>nf_yaml := doc\<rparr>, snd (reloadNebula (rx_attempt io) i c)))
                      (case ra_config a of
                         None \<Rightarrow> Some (nf_yaml st)
                       | Some u \<Rightarrow> map_option snd (applyNebulaConfigUpdate Y (rx_yaml_fault io) (en_port e) u (nf_yaml st))))"

text \<open>
  The duration between two instants, which saturates at the ends of the 64-bit range; \<open>notAfter\<close> reads
  the end of the validity out of a certificate, and \<open>draw n\<close> is \<open>rand.Int63n(n)\<close>, which panics for
  \<open>n \<le> 0\<close>.
\<close>

definition time_until :: "int \<Rightarrow> int \<Rightarrow> int" where
  "time_until now t = max (- (2 ^ 63)) (min (2 ^ 63 - 1) (t - now))"

definition timeUntilRenewal :: "(string \<Rightarrow> int res) \<Rightarrow> (int \<Rightarrow> int) \<Rightarrow> int \<Rightarrow> string res \<Rightarrow> int res option" where
  "timeUntilRenewal notAfter draw now crt =
     (case crt of
        Inl err \<Rightarrow> Some (Inl (ErrWrap ''read cert'' err))
      | Inr pem \<Rightarrow>
          (case notAfter pem of
             Inl err \<Rightarrow> Some (Inl (ErrWrap ''parse cert'' err))
           | Inr t \<Rightarrow>
               let remaining = time_until now t in
               if remaining \<le> 0 then Some (Inr 0)
               else if remaining div 5 \<le> 0 then None
               else Some (Inr (remaining div 2 + (draw (remaining div 5) - remaining div 10)))))"

definition renewalPollInterval :: int where
  "renewalPollInterval = 60 * second"

definition next_backoff :: "int \<Rightarrow> int" where
  "next_backoff b = min (2 * b) (30 * minute)"

text \<open>The retries after a first failure, with the waiting times; no answer means that the context was cancelled.\<close>

fun renew_retries ::
  "'b yaml_lib \<Rightarrow> renewal_io option list \<Rightarrow> int \<Rightarrow> nat \<Rightarrow> 'b node_files \<times> Client
     \<Rightarrow> (int list \<times> go_error option \<times> 'b node_files \<times> Client) option" where
  "renew_retries Y [] backoff i (st, c) = Some ([], Some (ErrMsg ''renewal exhausted 12 retries''), st, c)"
| "renew_retries Y (None # ios) backoff i (st, c) = Some ([], Some (ErrMsg ''context canceled''), st, c)"
| "renew_retries Y (Some io # ios) backoff i (st, c) =
     (case renewCert Y io i (st, markRenewalActivity (fst (rx_times io)) i c) of
        None \<Rightarrow> None
      | Some (Some err, st, c) \<Rightarrow>
          map_option (\<lambda>(waits, r). (backoff # waits, r)) (renew_retries Y ios (next_backoff backoff) i (st, c))
      | Some (None, st, c) \<Rightarrow> Some ([backoff], None, st, markRenewalActivity (snd (rx_times io)) i c))"

definition renewNow ::
  "'b yaml_lib \<Rightarrow> renewal_io \<Rightarrow> (nat \<Rightarrow> renewal_io option) \<Rightarrow> nat \<Rightarrow> 'b node_files \<times> Client
     \<Rightarrow> (int list \<times> go_error option \<times> 'b node_files \<times> Client) option" where
  "renewNow Y io retries i S =
     (case S of (st, c) \<Rightarrow>
      case renewCert Y io i (st, markRenewalActivity (fst (rx_times io)) i c) of
        None \<Rightarrow> None
      | Some (None, st, c) \<Rightarrow> Some ([], None, st, markRenewalActivity (snd (rx_times io)) i c)
      | Some (Some err, st, c) \<Rightarrow>
          renew_retries Y (map retries [0..<12]) minute i (st, markRenewalActivity (snd (rx_times io)) i c))"

text \<open>One round of the loop. The first component of the result says whether the server was asked.\<close>

definition runCertRenewal ::
  "'b yaml_lib \<Rightarrow> (string \<Rightarrow> int res) \<Rightarrow> (int \<Rightarrow> int) \<Rightarrow> renewal_io \<Rightarrow> (nat \<Rightarrow> renewal_io option) \<Rightarrow> int \<Rightarrow> nat \<Rightarrow> 'b node_files \<times> Client
     \<Rightarrow> (bool \<times> 'b node_files \<times> Client) option" where
  "runCertRenewal Y notAfter draw io retries now i S =
     (case S of (st, c) \<Rightarrow>
      case timeUntilRenewal notAfter draw now (nf_crt st) of
        None \<Rightarrow> None
      | Some renewAt \<Rightarrow>
          let c = markRenewalActivity now i c in
          (case renewAt of
             Inl err \<Rightarrow> Some (False, st, c)
           | Inr d \<Rightarrow>
               if d \<le> 0 then map_option (\<lambda>(waits, err, S). (True, S)) (renewNow Y io retries i (st, c))
               else Some (False, st, c)))"

section \<open>The heartbeat\<close>

text \<open>The body of a request.\<close>

definition peer_json :: "peer_report \<Rightarrow> string" where
  "peer_json p =
     json_object ([(''vpnAddr'', json_quote (pd_vpn p)), (''direct'', if pd_direct p then ''true'' else ''false'')]
       @ (if pd_remote p = [] then [] else [(''remoteAddr'', json_quote (pd_remote p))])
       @ (if pd_rtt p = 0 then [] else [(''rttMs'', dec (pd_rtt p))]))"

record host_view =
  hv_version :: string
  hv_client_type :: string
  hv_hosts :: "host_info list"
  hv_quality :: "string \<Rightarrow> int \<times> nat"
  hv_detect :: "string \<Rightarrow> string res"
  hv_interfaces :: "interface list res"
  hv_portmap :: "(int \<times> addr_port option) option"
  hv_self :: string
  hv_subnet :: "addr_prefix option"

definition heartbeat_body :: "host_view \<Rightarrow> nat \<Rightarrow> Client \<Rightarrow> HeartbeatBody" where
  "heartbeat_body H i c =
     (let e = mi_enrollment (inst i c);
          state = collectPeerState (if control i c = None then None else Some (hv_hosts H)) (hv_quality H);
          eps = selfEndpoints (hv_detect H) (hv_interfaces H) (case hv_portmap H of Some (_, pub) \<Rightarrow> pub | None \<Rightarrow> None) (en_endpoint e) (en_port e)
      in \<lparr>hb_node_id = en_node_id e,
          hq_peers_direct = map_option (\<lambda>(d, r, ps). int d) state,
          hq_peers_relayed = map_option (\<lambda>(d, r, ps). int r) state,
          hq_peers = (case state of Some (d, r, ps) \<Rightarrow> if ps = [] then None else Some (map peer_json ps) | None \<Rightarrow> None),
          hq_agent_version = Some (hv_version H),
          hq_client_type = (if hv_client_type H = [] then None else Some (hv_client_type H)),
          hq_endpoints = (if eps = [] then None else Some eps),
          hq_lifetimes = (if eps = [] then [] else selfEndpointLifetimes (hv_portmap H) eps)\<rparr>)"

record 'b heartbeat_io =
  hx_request :: "go_error option"
  hx_send :: "string \<Rightarrow> HeartbeatBody \<Rightarrow> (nat \<times> HeartbeatResponse res) res"
  hx_cache_path :: string
  hx_cache_fault :: "go_error option"
  hx_relay_fault :: "go_error option"
  hx_routes_fault :: "go_error option"
  hx_routes_kept :: bool
  hx_yaml_fault :: "(go_error \<times> 'b res) option"
  hx_registry_faults :: faults
  hx_attempt :: attempt
  hx_view :: host_view
  hx_unix :: int
  hx_now :: int
  hx_random :: int

definition store_network_id :: "faults \<Rightarrow> string \<Rightarrow> string \<Rightarrow> stored \<times> stored \<Rightarrow> stored \<times> stored" where
  "store_network_id faults name networkID disk =
     (case loadEnrollmentRegistry (fst disk) (snd disk) of
        Inl err \<Rightarrow> disk
      | Inr reg \<Rightarrow> (case SetNetworkID faults name networkID reg of (err, reg) \<Rightarrow> (rg_main reg, rg_backup reg)))"

text \<open>What the answer changes, in the order of the code.\<close>

definition apply_answer ::
  "'b yaml_lib \<Rightarrow> 'b heartbeat_io \<Rightarrow> nat \<Rightarrow> HeartbeatResponse \<Rightarrow> 'b node_files \<times> Client \<Rightarrow> ('b node_files \<times> Client) option" where
  "apply_answer Y io i body S =
     (case S of (st, c) \<Rightarrow>
      let H = hx_view io;
          inj = injectPeerEndpoints (hx_cache_fault io) (hx_unix io) (control i c \<noteq> None) (hv_self H) (hv_subnet H) (hx_cache_path io)
                  (hr_endpoints body) (nf_cache st);
          st = st\<lparr>nf_hosts := nf_hosts st @ fst inj, nf_cache := snd inj, nf_info := updatePeerInfoCache (nf_info st) (hr_info body),
                  nf_relay := snd (saveRelayState (hx_relay_fault io) (hr_am_relay body) (hr_relays body) (nf_relay st))\<rparr>
      in case applyRoutesUpdate Y (hx_routes_fault io) (hx_routes_kept io) (hx_yaml_fault io) (hr_routes body) (nf_routes st) (nf_yaml st) of
           None \<Rightarrow> None
         | Some (routes, doc, reload) \<Rightarrow>
             let st = st\<lparr>nf_routes := routes, nf_yaml := doc\<rparr>;
                 c = (if reload then snd (reloadNebula (hx_attempt io) i c) else c);
                 e = mi_enrollment (inst i c)
             in if hr_network_id body \<noteq> [] \<and> en_network_id e \<noteq> hr_network_id body
                then Some (st\<lparr>nf_registry := store_network_id (hx_registry_faults io) (en_name e) (hr_network_id body) (nf_registry st)\<rparr>,
                           upd i (\<lambda>m. m\<lparr>mi_enrollment := (mi_enrollment m)\<lparr>en_network_id := hr_network_id body\<rparr>\<rparr>) c)
                else Some (st, c))"

definition sendHeartbeat ::
  "'b yaml_lib \<Rightarrow> 'b heartbeat_io \<Rightarrow> nat \<Rightarrow> 'b node_files \<times> Client \<Rightarrow> (go_error option \<times> 'b node_files \<times> Client) option" where
  "sendHeartbeat Y io i S =
     (case S of (st, c) \<Rightarrow>
      let fail = (\<lambda>err. Some (Some err, st, c)); done = (\<lambda>(st, c). (None, st, markHeartbeatSuccess (hx_now io) i c)) in
      case readInstanceToken st of
        Inl err \<Rightarrow> fail err
      | Inr token \<Rightarrow>
       case hx_request io of
         Some err \<Rightarrow> fail err
       | None \<Rightarrow>
        case hx_send io token (heartbeat_body (hx_view io) i c) of
          Inl err \<Rightarrow> fail (ErrWrap ''request failed'' err)
        | Inr (code, answer) \<Rightarrow>
            if code = 401 then fail (revoked (inst_name (inst i c)))
            else if code = 204 then Some (None, st, c)
            else if code \<noteq> 200 then fail (ErrMsg (''HTTP '' @ itoa code))
            else case answer of
              Inl err \<Rightarrow> Some (done (st, c))
            | Inr body \<Rightarrow> map_option done (apply_answer Y io i body (st, c)))"

text \<open>
  The pacing of the loop: whether the last heartbeat failed and the interval for a retry. \<open>rand.Float64\<close>
  is a multiple of \<open>2 ^ -53\<close>; the product is exact here and rounded in the code.
\<close>

definition addJitter :: "int \<Rightarrow> int \<Rightarrow> int" where
  "addJitter random d = (let x = d * (2 * random - 2 ^ 53); m = 10 * 2 ^ 53 in d + sgn x * (\<bar>x\<bar> div m))"

record beat =
  bt_failing :: bool
  bt_retry :: int

definition normalInterval :: int where
  "normalInterval = 60 * second"

definition initialRetry :: int where
  "initialRetry = 5 * second"

definition maxRetry :: int where
  "maxRetry = 2 * minute"

definition first_beat :: "bool \<Rightarrow> int \<times> beat" where
  "first_beat failed = (if failed then initialRetry else normalInterval, \<lparr>bt_failing = failed, bt_retry = initialRetry\<rparr>)"

definition fire :: "bool \<Rightarrow> beat \<Rightarrow> int \<times> beat" where
  "fire failed b =
     (if failed then
        let b = (if \<not> bt_failing b then \<lparr>bt_failing = True, bt_retry = initialRetry\<rparr> else b\<lparr>bt_retry := min (2 * bt_retry b) maxRetry\<rparr>)
        in (bt_retry b, b)
      else (normalInterval, if bt_failing b then \<lparr>bt_failing = False, bt_retry = initialRetry\<rparr> else b))"

text \<open>The log of a run: for each heartbeat whether it failed, and the time until the next one.\<close>

fun heartbeats ::
  "'b yaml_lib \<Rightarrow> 'b heartbeat_io list \<Rightarrow> nat \<Rightarrow> beat \<Rightarrow> 'b node_files \<times> Client \<Rightarrow> ((bool \<times> int) list \<times> 'b node_files \<times> Client) option" where
  "heartbeats Y [] i b S = Some ([], S)"
| "heartbeats Y (io # ios) i b S =
     (case sendHeartbeat Y io i S of
        None \<Rightarrow> None
      | Some (err, S) \<Rightarrow>
          (case fire (err \<noteq> None) b of (d, b) \<Rightarrow>
             map_option (\<lambda>(log, S). ((err \<noteq> None, addJitter (hx_random io) d) # log, S)) (heartbeats Y ios i b S)))"

definition runHeartbeat ::
  "'b yaml_lib \<Rightarrow> 'b heartbeat_io \<Rightarrow> 'b heartbeat_io list \<Rightarrow> nat \<Rightarrow> 'b node_files \<times> Client
     \<Rightarrow> ((bool \<times> int) list \<times> 'b node_files \<times> Client) option" where
  "runHeartbeat Y io ios i S =
     (case sendHeartbeat Y io i S of
        None \<Rightarrow> None
      | Some (err, S) \<Rightarrow>
          (case first_beat (err \<noteq> None) of (d, b) \<Rightarrow>
             map_option (\<lambda>(log, S). ((err \<noteq> None, addJitter (hx_random io) d) # log, S)) (heartbeats Y ios i b S)))"

lemma apply_answer_files:
  assumes "applyRoutesUpdate Y (hx_routes_fault io) (hx_routes_kept io) (hx_yaml_fault io) (hr_routes body) (nf_routes st) (nf_yaml st) = Some (rf, f, r)"
  shows "\<exists>st' c'. apply_answer Y io i body (st, c) = Some (st', c') \<and> nf_routes st' = rf \<and> nf_yaml st' = f"
  using assms by (simp add: apply_answer_def Let_def)

section \<open>When a certificate is renewed\<close>

definition fair_draw :: "(int \<Rightarrow> int) \<Rightarrow> bool" where
  "fair_draw draw \<longleftrightarrow> (\<forall>n > 0. 0 \<le> draw n \<and> draw n < n)"

lemma timeUntilRenewal_valid:
  assumes "notAfter pem = Inr t" "fair_draw draw" "now + 5 \<le> t"
  shows "\<exists>d. timeUntilRenewal notAfter draw now (Inr pem) = Some (Inr d) \<and> 0 < d \<and> d < t - now"
proof -
  define r where "r = time_until now t"
  have r: "5 \<le> r" "r \<le> t - now" using assms(3) by (auto simp: r_def time_until_def)
  then have "0 \<le> draw (r div 5)" "draw (r div 5) < r div 5" using assms(2) by (auto simp: fair_draw_def)
  moreover have "r div 10 < r div 2" "r div 2 + r div 5 \<le> r" using r(1) by presburger+
  moreover have "0 < r div 5" using r(1) by simp
  moreover have "timeUntilRenewal notAfter draw now (Inr pem) = Some (Inr (r div 2 + (draw (r div 5) - r div 10)))"
    using assms(1) r(1) calculation(5) by (simp add: timeUntilRenewal_def Let_def r_def [symmetric])
  moreover have "0 \<le> r div 10" using r(1) by simp
  ultimately show ?thesis using r(2) by auto
qed

lemma timeUntilRenewal_expired: "notAfter pem = Inr t \<Longrightarrow> t \<le> now \<Longrightarrow> timeUntilRenewal notAfter draw now (Inr pem) = Some (Inr 0)"
  by (simp add: timeUntilRenewal_def time_until_def)

text \<open>In the last four nanoseconds of a certificate the loop panics.\<close>

lemma timeUntilRenewal_panics: "notAfter pem = Inr t \<Longrightarrow> now < t \<Longrightarrow> t < now + 5 \<Longrightarrow> timeUntilRenewal notAfter draw now (Inr pem) = None"
  by (simp add: timeUntilRenewal_def time_until_def)

record poll =
  po_time :: int
  po_draw :: "int \<Rightarrow> int"
  po_io :: renewal_io
  po_retries :: "nat \<Rightarrow> renewal_io option"

fun renewal_polls ::
  "'b yaml_lib \<Rightarrow> (string \<Rightarrow> int res) \<Rightarrow> poll list \<Rightarrow> nat \<Rightarrow> 'b node_files \<times> Client \<Rightarrow> (bool list \<times> 'b node_files \<times> Client) option" where
  "renewal_polls Y notAfter [] i S = Some ([], S)"
| "renewal_polls Y notAfter (p # ps) i S =
     (case runCertRenewal Y notAfter (po_draw p) (po_io p) (po_retries p) (po_time p) i S of
        None \<Rightarrow> None
      | Some (asked, S) \<Rightarrow> map_option (\<lambda>(trace, S). (asked # trace, S)) (renewal_polls Y notAfter ps i S))"

lemma poll_valid:
  assumes "nf_crt st = Inr pem" "notAfter pem = Inr t" "fair_draw draw" "now + 5 \<le> t"
  shows "runCertRenewal Y notAfter draw io retries now i (st, c) = Some (False, st, markRenewalActivity now i c)"
  using timeUntilRenewal_valid [of notAfter pem t draw now] assms(2,3,4) by (auto simp: runCertRenewal_def assms(1) Let_def)

lemma poll_expired:
  assumes "nf_crt st = Inr pem" "notAfter pem = Inr t" "t \<le> now"
  shows "runCertRenewal Y notAfter draw io retries now i (st, c)
    = map_option (\<lambda>(waits, err, S). (True, S)) (renewNow Y io retries i (st, markRenewalActivity now i c))"
  using assms by (simp add: runCertRenewal_def timeUntilRenewal_expired)

lemma control_markRenewalActivity [simp]: "control j (markRenewalActivity now i c) = control j c"
  by (cases "i < length (cl_heap c)") (auto simp: control_def markRenewalActivity_def upd_inst)

lemma open_markRenewalActivity [simp]: "cl_open (markRenewalActivity now i c) = cl_open c"
  by (simp add: markRenewalActivity_def)

lemma polls_valid:
  assumes "nf_crt st = Inr pem" "notAfter pem = Inr t" "\<forall>p \<in> set ps. fair_draw (po_draw p) \<and> po_time p + 5 \<le> t"
  shows "\<exists>c'. renewal_polls Y notAfter ps i (st, c) = Some (replicate (length ps) False, st, c')
    \<and> control i c' = control i c \<and> cl_open c' = cl_open c"
  using assms(3)
proof (induction ps arbitrary: c)
  case (Cons p ps)
  then show ?case using poll_valid [where notAfter = notAfter and pem = pem, OF assms(1,2), of "po_draw p" "po_time p"] Cons.IH [of "markRenewalActivity (po_time p) i c"] by auto
qed simp

text \<open>
  Property C36. A certificate is renewed after it has expired, and never before. However often the loop
  wakes up while the certificate of the enrollment is valid, it does not ask the server, and the files
  and the running service stay as they are; the first round at or after the end of the validity asks.
  (The comments promise a renewal at half of the lifetime.)
\<close>

theorem renewal_only_after_expiry:
  assumes "nf_crt st = Inr pem" "notAfter pem = Inr t"
    and "\<forall>p \<in> set ps. fair_draw (po_draw p) \<and> po_time p + 5 \<le> t" and "t \<le> po_time p"
    and "renewal_polls Y notAfter (ps @ [p]) i (st, c) = Some (trace, st', c')"
  shows "trace = replicate (length ps) False @ [True]
    \<and> (\<exists>c1. renewal_polls Y notAfter ps i (st, c) = Some (replicate (length ps) False, st, c1)
          \<and> control i c1 = control i c \<and> cl_open c1 = cl_open c)"
proof -
  have append: "renewal_polls Y notAfter (ps @ qs) i S =
      (case renewal_polls Y notAfter ps i S of None \<Rightarrow> None | Some (l, S) \<Rightarrow> map_option (\<lambda>(m, S). (l @ m, S)) (renewal_polls Y notAfter qs i S))" for qs S
    by (induction ps arbitrary: S) (auto split: option.split simp: option.map_comp comp_def case_prod_beta option.map_id0 intro!: option.map_cong0)
  obtain c1 where c1: "renewal_polls Y notAfter ps i (st, c) = Some (replicate (length ps) False, st, c1)"
      "control i c1 = control i c" "cl_open c1 = cl_open c"
    using polls_valid [where notAfter = notAfter and pem = pem, OF assms(1-3)] by blast
  then show ?thesis
    using assms(5) poll_expired [where notAfter = notAfter and pem = pem, OF assms(1,2,4), of Y "po_draw p" "po_io p" "po_retries p" i c1]
    by (auto simp: append split: option.splits)
qed

definition sample_files :: "config node_files" where
  "sample_files =
     \<lparr>nf_token = Inr ''agent'', nf_crt = Inr ''old'', nf_key = Inr ''old-key'', nf_yaml = Inr example_config, nf_routes = Inl not_exist,
      nf_relay = Inr None, nf_cache = Inr None, nf_info = Map.empty, nf_hosts = [], nf_registry = (Absent, Absent)\<rparr>"

definition sample_renewal :: renewal_io where
  "sample_renewal =
     \<lparr>rx_request = None, rx_send = (\<lambda>token node. Inr (200, [], Inr \<lparr>ra_cert = ''new'', ra_key = ''new-key'', ra_config = None\<rparr>)),
      rx_crt_fault = None, rx_key_fault = None, rx_yaml_fault = None, rx_attempt = fine, rx_times = (0, 0)\<rparr>"

definition sample_poll :: "int \<Rightarrow> poll" where
  "sample_poll t = \<lparr>po_time = t, po_draw = (\<lambda>n. 0), po_io = sample_renewal, po_retries = (\<lambda>k. None)\<rparr>"

theorem renewal_only_after_expiry_witness:
  "let hour = 60 * minute; notAfter = (\<lambda>pem. Inr (if pem = ''old'' then 24 * hour else 48 * hour))
   in \<exists>st' c'. renewal_polls plain_yaml notAfter ([sample_poll (12 * hour), sample_poll (23 * hour)] @ [sample_poll (24 * hour)]) 0 (sample_files, agent_up)
          = Some ([False, False, True], st', c') \<and> nf_crt st' = Inr ''new''"
proof -
  define hour where "hour = 60 * minute"
  define notAfter :: "string \<Rightarrow> int res" where "notAfter = (\<lambda>pem. Inr (if pem = ''old'' then 24 * hour else 48 * hour))"
  let ?ps = "[sample_poll (12 * hour), sample_poll (23 * hour)]" and ?p = "sample_poll (24 * hour)"
  have "case renewal_polls plain_yaml notAfter (?ps @ [?p]) 0 (sample_files, agent_up) of None \<Rightarrow> False | Some (t, st', c') \<Rightarrow> nf_crt st' = Inr ''new''"
    unfolding notAfter_def hour_def by code_simp
  then obtain t st' c' where r: "renewal_polls plain_yaml notAfter (?ps @ [?p]) 0 (sample_files, agent_up) = Some (t, st', c')" "nf_crt st' = Inr ''new''"
    by (auto split: option.splits)
  have "t = [False, False, True]"
    using renewal_only_after_expiry [where notAfter = notAfter and pem = "''old''" and t = "24 * hour", OF _ _ _ _ r(1)]
    by (simp add: sample_files_def notAfter_def sample_poll_def fair_draw_def hour_def minute_def second_def eval_nat_numeral)
  then show ?thesis using r unfolding notAfter_def hour_def Let_def by auto
qed

section \<open>What a renewal leaves behind\<close>



section \<open>Pacing of the heartbeat\<close>

definition failures_in_row :: "nat \<Rightarrow> bool list \<Rightarrow> nat" where
  "failures_in_row k fs = foldl (\<lambda>k f. if f then Suc k else 0) k fs"

definition planned_wait :: "nat \<Rightarrow> int" where
  "planned_wait k = (if k = 0 then normalInterval else min (initialRetry * 2 ^ (k - 1)) maxRetry)"

definition beat_ok :: "nat \<Rightarrow> beat \<Rightarrow> bool" where
  "beat_ok k b \<longleftrightarrow> (bt_failing b \<longleftrightarrow> k \<noteq> 0) \<and> (k \<noteq> 0 \<longrightarrow> bt_retry b = planned_wait k)"

lemma planned_wait_step: "k \<noteq> 0 \<Longrightarrow> min (2 * planned_wait k) maxRetry = planned_wait (Suc k)"
  by (cases k) (auto simp: planned_wait_def min_def maxRetry_def initialRetry_def minute_def second_def)

lemma fire_paced:
  assumes "beat_ok k b"
  shows "fire failed b = (d, b') \<Longrightarrow> d = planned_wait (if failed then Suc k else 0) \<and> beat_ok (if failed then Suc k else 0) b'"
proof -
  have one: "planned_wait (Suc 0) = initialRetry" by (simp add: planned_wait_def initialRetry_def maxRetry_def minute_def second_def)
  show "fire failed b = (d, b') \<Longrightarrow> d = planned_wait (if failed then Suc k else 0) \<and> beat_ok (if failed then Suc k else 0) b'"
    using assms planned_wait_step [of k] one
    by (cases "k = 0") (auto simp: fire_def beat_ok_def Let_def planned_wait_def [of 0] split: if_splits)
qed

lemma first_beat_paced:
  "first_beat failed = (d, b) \<Longrightarrow> d = planned_wait (if failed then 1 else 0) \<and> beat_ok (if failed then 1 else 0) b"
  by (auto simp: first_beat_def beat_ok_def planned_wait_def initialRetry_def maxRetry_def minute_def second_def)

definition near :: "int \<Rightarrow> int \<Rightarrow> bool" where
  "near d w \<longleftrightarrow> 9 * d \<le> 10 * w \<and> 10 * w \<le> 11 * d"

lemma addJitter_near:
  assumes "0 \<le> d" "0 \<le> random" "random \<le> 2 ^ 53"
  shows "near d (addJitter random d)"
proof -
  define x where "x = d * (2 * random - 2 ^ 53)"
  have "\<bar>2 * random - 2 ^ 53\<bar> \<le> 2 ^ 53" using assms by auto
  then have "\<bar>x\<bar> \<le> d * 2 ^ 53" using assms(1) by (simp add: x_def abs_mult mult_left_mono)
  then have b: "10 * (\<bar>x\<bar> div (10 * 2 ^ 53)) \<le> d" by simp
  have "addJitter random d = d + sgn x * (\<bar>x\<bar> div (10 * 2 ^ 53))" by (simp add: addJitter_def x_def Let_def)
  moreover have "\<bar>sgn x * (\<bar>x\<bar> div (10 * 2 ^ 53))\<bar> \<le> \<bar>x\<bar> div (10 * 2 ^ 53)" by (cases "x = 0") (simp_all add: abs_mult)
  ultimately show ?thesis using b unfolding near_def by linarith
qed

lemma planned_wait_pos: "0 \<le> planned_wait k"
  by (auto simp: planned_wait_def normalInterval_def initialRetry_def maxRetry_def minute_def second_def)

lemma heartbeats_paced:
  assumes "heartbeats Y ios i b S = Some (trace, S')" "beat_ok k b" "\<forall>x \<in> set ios. 0 \<le> hx_random x \<and> hx_random x \<le> 2 ^ 53" "n < length trace"
  shows "near (planned_wait (failures_in_row k (map fst (take (Suc n) trace)))) (snd (trace ! n))"
  using assms
proof (induction ios arbitrary: b S trace k n)
  case (Cons io ios)
  obtain err S1 where s: "sendHeartbeat Y io i S = Some (err, S1)" using Cons.prems(1) by (auto split: option.splits)
  obtain d b1 where f: "fire (err \<noteq> None) b = (d, b1)" by fastforce
  let ?k = "if err \<noteq> None then Suc k else 0"
  have d: "d = planned_wait ?k" "beat_ok ?k b1" using fire_paced [OF Cons.prems(2) f] by auto
  obtain rest where l: "trace = (err \<noteq> None, addJitter (hx_random io) d) # rest" "heartbeats Y ios i b1 S1 = Some (rest, S')"
    using Cons.prems(1) s f by (auto simp del: not_None_eq)
  show ?case
  proof (cases n)
    case 0
    then show ?thesis using addJitter_near [OF planned_wait_pos] d(1) l(1) Cons.prems(3) by (simp add: failures_in_row_def)
  next
    case (Suc m)
    then show ?thesis using Cons.IH [OF l(2) d(2), of m] Cons.prems(3,4) l(1) by (simp add: failures_in_row_def)
  qed
qed simp


definition sample_view :: host_view where
  "sample_view =
     \<lparr>hv_version = ''v0.11'', hv_client_type = [], hv_hosts = [], hv_quality = (\<lambda>_. (0, 0)), hv_detect = (\<lambda>_. Inl not_exist), hv_interfaces = Inr [],
      hv_portmap = None, hv_self = [], hv_subnet = None\<rparr>"

definition sample_heartbeat :: "(string \<Rightarrow> HeartbeatBody \<Rightarrow> (nat \<times> HeartbeatResponse res) res) \<Rightarrow> config heartbeat_io" where
  "sample_heartbeat send =
     \<lparr>hx_request = None, hx_send = send, hx_cache_path = ''peers.json'', hx_cache_fault = None, hx_relay_fault = None, hx_routes_fault = None,
      hx_routes_kept = False, hx_yaml_fault = None, hx_registry_faults = (None, None), hx_attempt = fine, hx_view = sample_view, hx_unix = 0, hx_now = 0,
      hx_random = 0\<rparr>"


end
