(* ===== verification/DeviceSpec.thy ===== *)
theory DeviceSpec
  imports DeviceCodes
begin

text \<open>
  What the device-code store promises, without tables, SQL and failures: an office that keeps one grant
  per code. A grant waits, is given by a user for a network, and is redeemed; each of these happens under
  its condition only. The store of DeviceCodes refines the office: every history of the store, with any
  failures of the database, is a history of the office.
\<close>

section \<open>The contract of a refinement\<close>

fun behaviour :: "('op \<Rightarrow> 's \<Rightarrow> 's) \<Rightarrow> ('op \<Rightarrow> 's \<Rightarrow> 'e option) \<Rightarrow> 'op list \<Rightarrow> 's \<Rightarrow> 'e list" where
  "behaviour step event [] s = []"
| "behaviour step event (x # xs) s = (case event x s of None \<Rightarrow> [] | Some e \<Rightarrow> [e]) @ behaviour step event xs (step x s)"

fun perform :: "('e \<Rightarrow> 'a \<Rightarrow> bool) \<Rightarrow> ('e \<Rightarrow> 'a \<Rightarrow> 'a) \<Rightarrow> 'e list \<Rightarrow> 'a \<Rightarrow> 'a option" where
  "perform allowed effect [] a = Some a"
| "perform allowed effect (e # es) a = (if allowed e a then perform allowed effect es (effect e a) else None)"

text \<open>
  A concrete step either performs one event of the specification, which must be allowed in the abstracted
  state, or leaves the abstracted state alone.
\<close>

locale refinement = stable_invariant step inv
  for step :: "'op \<Rightarrow> 's \<Rightarrow> 's" and inv :: "'s \<Rightarrow> bool" +
  fixes view :: "'s \<Rightarrow> 'a"
    and event :: "'op \<Rightarrow> 's \<Rightarrow> 'e option"
    and allowed :: "'e \<Rightarrow> 'a \<Rightarrow> bool"
    and effect :: "'e \<Rightarrow> 'a \<Rightarrow> 'a"
  assumes performs: "inv s \<Longrightarrow> event x s = Some e \<Longrightarrow> allowed e (view s) \<and> view (step x s) = effect e (view s)"
    and stutters: "inv s \<Longrightarrow> event x s = None \<Longrightarrow> view (step x s) = view s"
begin

lemma refines: "inv s \<Longrightarrow> perform allowed effect (behaviour step event xs s) (view s) = Some (view (run step xs s))"
proof (induction xs arbitrary: s)
  case (Cons x xs)
  then have "perform allowed effect (behaviour step event xs (step x s)) (view (step x s)) = Some (view (run step xs (step x s)))"
    using inv_step by blast
  then show ?case using Cons.prems performs [of s x] stutters [of s x] by (cases "event x s") auto
qed simp

end

section \<open>The office\<close>

datatype phase = Waiting | Given string string | Redeemed string string

record grant =
  gr_user_code :: string
  gr_expires :: int
  gr_phase :: phase

type_synonym office = "string \<rightharpoonup> grant"

datatype office_event =
    Issue string string int
  | Approve string int string string
  | Redeem string int string string
  | Purge int

definition approvable :: "string \<Rightarrow> int \<Rightarrow> grant \<Rightarrow> bool" where
  "approvable userCode now g \<longleftrightarrow> gr_user_code g = userCode \<and> gr_phase g = Waiting \<and> now < gr_expires g"

primrec office_allows :: "office_event \<Rightarrow> office \<Rightarrow> bool" where
  "office_allows (Issue code userCode ex) a \<longleftrightarrow> a code = None \<and> (\<forall>g \<in> ran a. gr_user_code g \<noteq> userCode)"
| "office_allows (Approve userCode now user network) a \<longleftrightarrow> (\<exists>g \<in> ran a. approvable userCode now g)"
| "office_allows (Redeem code now user network) a \<longleftrightarrow>
     (\<exists>g. a code = Some g \<and> gr_phase g = Given user network \<and> now < gr_expires g)"
| "office_allows (Purge now) a \<longleftrightarrow> True"

primrec office_does :: "office_event \<Rightarrow> office \<Rightarrow> office" where
  "office_does (Issue code userCode ex) a = a(code \<mapsto> \<lparr>gr_user_code = userCode, gr_expires = ex, gr_phase = Waiting\<rparr>)"
| "office_does (Approve userCode now user network) a =
     map_option (\<lambda>g. if approvable userCode now g then g\<lparr>gr_phase := Given user network\<rparr> else g) \<circ> a"
| "office_does (Redeem code now user network) a = a(code := map_option (\<lambda>g. g\<lparr>gr_phase := Redeemed user network\<rparr>) (a code))"
| "office_does (Purge now) a = (\<lambda>code. case a code of Some g \<Rightarrow> if gr_expires g < now then None else Some g | None \<Rightarrow> None)"

section \<open>The store as an office\<close>

definition phase_of :: "DeviceCode \<Rightarrow> phase" where
  "phase_of r =
     (if dc_status r = ''pending'' then Waiting
      else if dc_status r = ''authorized'' then Given (the (dc_user_id r)) (the (dc_network_id r))
      else Redeemed (the (dc_user_id r)) (the (dc_network_id r)))"

definition office_row :: "DeviceCode \<Rightarrow> grant" where
  "office_row r = \<lparr>gr_user_code = dc_user_code r, gr_expires = dc_expires_at r, gr_phase = phase_of r\<rparr>"

definition office_of :: "device_codes \<Rightarrow> office" where
  "office_of t code = map_option office_row (find (\<lambda>r. dc_code r = code) t)"

text \<open>The event that an operation performs, read off its answer.\<close>

primrec dc_event :: "(string \<Rightarrow> string) \<Rightarrow> dc_op \<Rightarrow> device_codes \<Rightarrow> office_event option" where
  "dc_event sha (DcCreate b draws now fault) t =
     (case fst (DeviceCodeStore_Create sha b draws now fault t) of
        Inl e \<Rightarrow> None | Inr dc \<Rightarrow> Some (Issue (hashDeviceCode sha (dc_code dc)) (dc_user_code dc) (dc_expires_at dc)))"
| "dc_event sha (DcAuthorize fault now userCode userID networkID) t =
     (if fst (DeviceCodeStore_Authorize fault now userCode userID networkID t) = None
      then Some (Approve (ToUpper userCode) now userID networkID) else None)"
| "dc_event sha (DcClaim fault now code) t =
     (case fst (ClaimAuthorized sha fault now code t) of
        Inr (Some dc) \<Rightarrow> Some (Redeem (hashDeviceCode sha code) now (the (dc_user_id dc)) (the (dc_network_id dc))) | _ \<Rightarrow> None)"
| "dc_event sha (DcSetNode fault code nodeID) t = None"
| "dc_event sha (DcSweep fault now) t = (if fault = None then Some (Purge now) else None)"

lemma office_of_ran:
  assumes "clash_free dc_clash t"
  shows "ran (office_of t) = office_row ` set t"
proof -
  have "find (\<lambda>x. dc_code x = dc_code r) t = Some r" if "r \<in> set t" for r
    using dct.select_key [OF assms that] by (simp add: select_one_def split: option.splits)
  then show ?thesis by (force simp: ran_def office_of_def dest: find_Some_conv)
qed

lemma create_event:
  assumes t: "clash_free dc_clash t" and e: "dc_event sha (DcCreate b draws now fault) t = Some ev"
  shows "office_allows ev (office_of t) \<and> office_of (dc_step sha (DcCreate b draws now fault) t) = office_does ev (office_of t)"
proof -
  obtain res t' where c: "DeviceCodeStore_Create sha b draws now fault t = (res, t')" by fastforce
  then obtain dc where dc: "res = Inr dc" "ev = Issue (hashDeviceCode sha (dc_code dc)) (dc_user_code dc) (dc_expires_at dc)"
    using e by (auto split: sum.splits)
  obtain row where row: "t' = t @ [row]" "\<forall>x \<in> set t. \<not> dc_clash row x" "dc_code row = hashDeviceCode sha (dc_code dc)"
      "dc_status row = ''pending''" "dc_user_code row = dc_user_code dc" "dc_expires_at row = dc_expires_at dc"
    using Create_outcome [OF c] dc(1) by auto
  have new: "find (\<lambda>r. dc_code r = dc_code row) t = None" using row(2) by (auto simp: find_None_iff dc_clash_def)
  have "office_of t' code = ((office_of t)(dc_code row \<mapsto> office_row row)) code" for code
    using new by (auto simp: office_of_def row(1) find_append split: option.split)
  moreover have "office_row row = \<lparr>gr_user_code = dc_user_code dc, gr_expires = dc_expires_at dc, gr_phase = Waiting\<rparr>"
    using row by (simp add: office_row_def phase_of_def)
  moreover have "\<forall>g \<in> ran (office_of t). gr_user_code g \<noteq> dc_user_code dc"
    using row(2,5) unfolding office_of_ran [OF t] by (auto simp: office_row_def dc_clash_def)
  ultimately show ?thesis using c dc(2) row(3) new by (auto simp: office_of_def)
qed

lemma approve_event:
  assumes t: "clash_free dc_clash t" and e: "dc_event sha (DcAuthorize fault now u user network) t = Some ev"
  shows "office_allows ev (office_of t) \<and> office_of (dc_step sha (DcAuthorize fault now u user network) t) = office_does ev (office_of t)"
proof -
  have f: "fst (DeviceCodeStore_Authorize fault now u user network t) = None" "ev = Approve (ToUpper u) now user network"
    using e by (auto split: if_splits)
  then have ok: "fault = None" "\<exists>r \<in> set t. dc_user_code r = ToUpper u \<and> dc_status r = ''pending'' \<and> dc_expires_at r > now"
    using Authorize_success by blast+
  have ap: "approvable (ToUpper u) now (office_row r) \<longleftrightarrow> dc_user_code r = ToUpper u \<and> dc_status r = ''pending'' \<and> dc_expires_at r > now" for r
    by (auto simp: approvable_def office_row_def phase_of_def)
  have "office_allows ev (office_of t)" using ok(2) ap unfolding f(2) by (auto simp: office_of_ran [OF t])
  moreover have "office_of (dc_step sha (DcAuthorize fault now u user network) t) = office_does ev (office_of t)"
  proof
    fix code
    show "office_of (dc_step sha (DcAuthorize fault now u user network) t) code = office_does ev (office_of t) code"
      using ap
      by (cases "find (\<lambda>r. dc_code r = code) t")
        (simp_all add: f(2) Authorize_table ok(1) find_update office_of_def, simp add: office_row_def phase_of_def)
  qed
  ultimately show ?thesis by blast
qed

lemma redeem_event:
  assumes e: "dc_event sha (DcClaim fault now code) t = Some ev" and t: "clash_free dc_clash t"
  shows "office_allows ev (office_of t) \<and> office_of (dc_step sha (DcClaim fault now code) t) = office_does ev (office_of t)"
proof -
  obtain res t' where c: "ClaimAuthorized sha fault now code t = (res, t')" by fastforce
  then obtain dc where dc: "res = Inr (Some dc)" "ev = Redeem (hashDeviceCode sha code) now (the (dc_user_id dc)) (the (dc_network_id dc))"
    using e by (auto split: sum.splits option.splits)
  obtain row where row: "row \<in> set t" "dc_code row = hashDeviceCode sha code" "dc_status row = ''authorized''" "dc_expires_at row > now"
      "dc_user_id dc = dc_user_id row" "dc_network_id dc = dc_network_id row" and t': "t' = complete_code (hashDeviceCode sha code) t"
    using Claim_outcome [OF c] dc(1) by auto
  have found: "find (\<lambda>r. dc_code r = hashDeviceCode sha code) t = Some row"
    using dct.select_key [OF t row(1)] row(2) by (simp add: select_one_def split: option.splits)
  have "office_of t' k = (office_does ev (office_of t)) k" for k
  proof (cases "k = hashDeviceCode sha code")
    case True
    then show ?thesis
      using found row by (simp add: t' complete_code_def find_update dc(2) office_of_def office_row_def phase_of_def)
  next
    case False
    then show ?thesis
      by (cases "find (\<lambda>r. dc_code r = k) t") (auto simp: t' complete_code_def find_update dc(2) office_of_def dest: find_Some_conv)
  qed
  then show ?thesis using c dc(2) found row by (auto simp: office_of_def office_row_def phase_of_def)
qed

lemma purge_event:
  assumes t: "clash_free dc_clash t"
  shows "office_of (delete_where (\<lambda>r. dc_expires_at r < now) t) = office_does (Purge now) (office_of t)"
proof
  fix code
  have "find (\<lambda>r. dc_code r = code) (delete_where (\<lambda>r. dc_expires_at r < now) t) =
      (case find (\<lambda>r. dc_code r = code) t of None \<Rightarrow> None | Some r \<Rightarrow> if dc_expires_at r < now then None else Some r)"
    by (rule dct.find_delete [OF t]) (simp add: dc_clash_def)
  then show "office_of (delete_where (\<lambda>r. dc_expires_at r < now) t) code = office_does (Purge now) (office_of t) code"
    by (cases "find (\<lambda>r. dc_code r = code) t") (simp_all add: office_of_def office_row_def)
qed

lemma quiet_claim: "dc_event sha (DcClaim fault now code) t = None \<Longrightarrow> dc_step sha (DcClaim fault now code) t = t"
  using Claim_outcome [of sha fault now code t "fst (ClaimAuthorized sha fault now code t)" "snd (ClaimAuthorized sha fault now code t)"]
  by (simp split: sum.splits option.splits)

lemma quiet_authorize:
  assumes "dc_event sha (DcAuthorize fault now u user network) t = None"
  shows "dc_step sha (DcAuthorize fault now u user network) t = t"
proof -
  have "fst (DeviceCodeStore_Authorize fault now u user network t) \<noteq> None" using assms by (auto split: if_splits)
  then have "fault \<noteq> None \<or> (\<forall>r \<in> set t. \<not> (dc_user_code r = ToUpper u \<and> dc_status r = ''pending'' \<and> dc_expires_at r > now))"
    using Authorize_success [of fault now u user network t] by (cases fault) auto
  then have "fault = None \<Longrightarrow> update_where (\<lambda>r. dc_user_code r = ToUpper u \<and> dc_status r = ''pending'' \<and> dc_expires_at r > now) f t = t" for f
    unfolding update_where_def by (intro map_idI) auto
  then show ?thesis by (simp add: Authorize_table)
qed

lemma quiet_create: "dc_event sha (DcCreate b draws now fault) t = None \<Longrightarrow> dc_step sha (DcCreate b draws now fault) t = t"
  using Create_outcome [of sha b draws now fault t "fst (DeviceCodeStore_Create sha b draws now fault t)"
      "snd (DeviceCodeStore_Create sha b draws now fault t)"]
  by (simp split: sum.splits)

interpretation dco: refinement "dc_step sha" "clash_free dc_clash" office_of "dc_event sha" office_allows office_does for sha
proof
  fix t x e
  assume t: "clash_free dc_clash t"
  show "office_allows e (office_of t) \<and> office_of (dc_step sha x t) = office_does e (office_of t)" if "dc_event sha x t = Some e"
    using that
  proof (cases x)
    case (DcSweep fault now)
    then show ?thesis using that purge_event [OF t] by (auto simp: dc_step_update split: if_splits)
  qed (use create_event [OF t] approve_event [OF t] redeem_event t in auto)
  show "office_of (dc_step sha x t) = office_of t" if "dc_event sha x t = None"
  proof (cases x)
    case (DcSetNode fault code nodeID)
    have "office_of (dc_step sha x t) code = office_of t code" for code
      by (cases "find (\<lambda>r. dc_code r = code) t")
        (auto simp: DcSetNode dc_step_update find_update office_of_def office_row_def phase_of_def)
    then show ?thesis by blast
  next
    case (DcSweep fault now)
    then show ?thesis using that by (auto simp: dc_step_update split: if_splits)
  next
    case (DcCreate b draws now fault)
    then show ?thesis using that quiet_create by metis
  next
    case (DcAuthorize fault now u user network)
    then show ?thesis using that quiet_authorize by metis
  next
    case (DcClaim fault now code)
    then show ?thesis using that quiet_claim by metis
  qed
qed

text \<open>
  Property C3. The device-code store refines the office. Every history of the store, with any
  interleaving of requests and any failures of the database, shows a sequence of events that the office
  allows from the beginning, and the table it ends with is the state the office ends with. So a code is
  given only while it waits and is valid, redeemed only by what was given, and what a claim hands out is
  the user and the network of the approval.
\<close>

theorem device_store_refines:
  "perform office_allows office_does (behaviour (dc_step sha) (dc_event sha) ops []) Map.empty = Some (office_of (run (dc_step sha) ops []))"
proof -
  have "office_of [] = Map.empty" by (simp add: fun_eq_iff office_of_def)
  then show ?thesis using dco.refines [of "[]" sha ops] by simp
qed

section \<open>What the office guarantees\<close>

text \<open>A redeemed grant is never redeemed again, unless its code was purged and issued anew.\<close>

definition spent :: "office \<Rightarrow> string \<Rightarrow> bool" where
  "spent a code = (case a code of None \<Rightarrow> True | Some g \<Rightarrow> (case gr_phase g of Redeemed u n \<Rightarrow> True | _ \<Rightarrow> False))"

lemma spent_stays: "spent a code \<Longrightarrow> (\<And>u ex. e \<noteq> Issue code u ex) \<Longrightarrow> spent (office_does e a) code"
  by (cases e; cases "a code") (auto simp: spent_def approvable_def split: phase.splits)

lemma redeemed_stays:
  assumes "perform office_allows office_does es a = Some a'" "\<And>u ex. Issue code u ex \<notin> set es" "spent a code"
  shows "Redeem code now u n \<notin> set es"
  using assms
proof (induction es arbitrary: a)
  case (Cons e es)
  have ok: "office_allows e a" and rest: "perform office_allows office_does es (office_does e a) = Some a'"
    using Cons.prems(1) by (auto split: if_splits)
  have "e \<noteq> Redeem code now u n" using ok Cons.prems(3) by (auto simp: spent_def)
  moreover have "spent (office_does e a) code" by (rule spent_stays [OF Cons.prems(3)]) (use Cons.prems(2) in \<open>metis list.set_intros(1)\<close>)
  moreover have "Issue code u ex \<notin> set es" for u ex using Cons.prems(2) [of u ex] by simp
  ultimately have "Redeem code now u n \<notin> set es" by (intro Cons.IH [OF rest]) blast+
  then show ?case using \<open>e \<noteq> Redeem code now u n\<close> by simp
qed simp

end
