(* ===== verification/OAuth.thy ===== *)
theory OAuth
  imports AccountApi
begin

text \<open>
  Signing in with GitHub (src/internal/api/auth_oauth.go). GitHub is a record: what it answers to the exchange of a
  code and to the two requests for the profile, already decoded. The browser keeps the cookie that the first
  step sets and returns it to the second; \<open>net/http\<close> drops the bytes from a cookie value that a cookie
  cannot hold. A redirect is a reply with status 302 whose body is the target handed to \<open>http.Redirect\<close>.
\<close>

section \<open>The provider\<close>

record OAuthProvider =
  GitHubClientID :: string
  GitHubClientSecret :: string
  PublicEndpoint :: string

definition Configured :: "OAuthProvider option \<Rightarrow> bool" where
  "Configured p = (case p of None \<Rightarrow> False | Some p \<Rightarrow> GitHubClientID p \<noteq> [] \<and> GitHubClientSecret p \<noteq> [])"

definition oauth_Status :: "OAuthProvider option \<Rightarrow> bool http" where
  "oauth_Status p = Reply 200 (Configured p)"

record githubEmail =
  ge_email :: string
  ge_primary :: bool
  ge_verified :: bool

record githubProfile =
  gp_id :: int
  gp_login :: string
  gp_name :: string
  gp_public_mail :: string
  gp_emails :: "githubEmail list"

definition profile_email :: "githubProfile \<Rightarrow> string" where
  "profile_email p =
     (if gp_public_mail p \<noteq> [] then gp_public_mail p
      else case find (\<lambda>e. ge_primary e \<and> ge_verified e) (gp_emails p) of
        Some e \<Rightarrow> ge_email e
      | None \<Rightarrow> (case find ge_verified (gp_emails p) of Some e \<Rightarrow> ge_email e | None \<Rightarrow> []))"

record token_answer =
  ta_access_token :: string
  ta_error :: string
  ta_description :: string

text \<open>Status, text of the body and its decoding; for the list of addresses a failed decoding is ignored.\<close>

record github =
  gh_token :: "OAuthProvider \<Rightarrow> string \<Rightarrow> string \<Rightarrow> (nat \<times> string \<times> token_answer res) res"
  gh_user :: "string \<Rightarrow> (nat \<times> string \<times> githubProfile res) res"
  gh_mails :: "string \<Rightarrow> (nat \<times> githubEmail list) res"

definition long_dash :: string where
  "long_dash = [CHR 0xE2, CHR 0x80, CHR 0x94]"

definition exchangeGitHubCode :: "github \<Rightarrow> OAuthProvider \<Rightarrow> string \<Rightarrow> string \<Rightarrow> string res" where
  "exchangeGitHubCode G p code callbackURL =
     (case gh_token G p code callbackURL of
        Inl err \<Rightarrow> Inl err
      | Inr (status, text, answer) \<Rightarrow>
          if status \<noteq> 200 then Inl (ErrMsg (''github code exchange returned '' @ itoa status @ '': '' @ text))
          else case answer of
            Inl err \<Rightarrow> Inl err
          | Inr out \<Rightarrow>
              if ta_error out \<noteq> []
              then Inl (ErrMsg (''github oauth error: '' @ ta_error out @ '' '' @ long_dash @ '' '' @ ta_description out))
              else if ta_access_token out = [] then Inl (ErrMsg ''github did not return an access token'')
              else Inr (ta_access_token out))"

definition fetchGitHubProfile :: "github \<Rightarrow> string \<Rightarrow> githubProfile res" where
  "fetchGitHubProfile G accessToken =
     (case gh_user G accessToken of
        Inl err \<Rightarrow> Inl err
      | Inr (status, text, answer) \<Rightarrow>
          if status \<noteq> 200 then Inl (ErrMsg (''/user returned '' @ itoa status @ '': '' @ text))
          else case answer of
            Inl err \<Rightarrow> Inl err
          | Inr p \<Rightarrow>
              if gp_public_mail p \<noteq> [] then Inr p
              else case gh_mails G accessToken of
                Inl err \<Rightarrow> Inr p
              | Inr (status, emails) \<Rightarrow> Inr (if status = 200 then p\<lparr>gp_emails := emails\<rparr> else p))"

section \<open>The first step\<close>

definition oauthStateTTL :: int where
  "oauthStateTTL = 10 * 60"

definition secure_request :: "bool \<Rightarrow> transport \<Rightarrow> bool" where
  "secure_request trusted r \<longleftrightarrow> tls r \<or> (trusted \<and> forwarded_proto r = ''https'')"

definition state_cookie :: "bool \<Rightarrow> transport \<Rightarrow> string \<Rightarrow> int \<Rightarrow> cookie" where
  "state_cookie trusted r v maxAge =
     \<lparr>ck_name = ''oauth_state'', ck_value = v, ck_path = ''/api/auth'', ck_max_age = maxAge, ck_http_only = True,
      ck_secure = secure_request trusted r, ck_same_site_lax = True\<rparr>"

definition randomToken :: "string res \<Rightarrow> string res" where
  "randomToken b = (case b of Inl err \<Rightarrow> Inl err | Inr bs \<Rightarrow> Inr (EncodeToString bs))"

definition TrimRight_slash :: "string \<Rightarrow> string" where
  "TrimRight_slash s = rev (dropWhile (\<lambda>c. c = CHR ''/'') (rev s))"

definition callbackURL :: "OAuthProvider \<Rightarrow> string" where
  "callbackURL p = TrimRight_slash (PublicEndpoint p) @ ''/api/auth/github/callback''"

text \<open>\<open>url.QueryEscape\<close>, and the parameters in the order of their names.\<close>

definition upper_hex :: "nat \<Rightarrow> char" where
  "upper_hex n = (if n < 10 then char_of (48 + n) else char_of (55 + n))"

definition query_char :: "char \<Rightarrow> string" where
  "query_char c =
     (let n = of_char c :: nat in
      if (48 \<le> n \<and> n \<le> 57) \<or> (65 \<le> n \<and> n \<le> 90) \<or> (97 \<le> n \<and> n \<le> 122) \<or> c \<in> {CHR ''-'', CHR ''_'', CHR ''.'', CHR ''~''} then [c]
      else if c = CHR '' '' then ''+'' else [CHR ''%'', upper_hex (n div 16), upper_hex (n mod 16)])"

definition QueryEscape :: "string \<Rightarrow> string" where
  "QueryEscape s = concat (map query_char s)"

definition buildGitHubAuthURL :: "OAuthProvider \<Rightarrow> string \<Rightarrow> string \<Rightarrow> string" where
  "buildGitHubAuthURL p state callback =
     ''https://github.com/login/oauth/authorize?allow_signup=true&client_id='' @ QueryEscape (GitHubClientID p)
     @ ''&redirect_uri='' @ QueryEscape callback @ ''&scope='' @ QueryEscape ''read:user user:email'' @ ''&state='' @ QueryEscape state"

definition safe_redirect :: "string \<Rightarrow> string" where
  "safe_redirect redirect = (if redirect = [] \<or> \<not> HasPrefix redirect ''/'' \<or> HasPrefix redirect ''//'' then ''/'' else redirect)"

definition StartGitHub ::
  "platform \<Rightarrow> OAuthProvider option \<Rightarrow> transport \<Rightarrow> string res \<Rightarrow> string \<Rightarrow> cookie list \<times> string http" where
  "StartGitHub P provider r random redirect =
     (case provider of
        None \<Rightarrow> ([], Reject 503 ''GitHub OAuth not configured on this server'')
      | Some p \<Rightarrow>
          if \<not> Configured provider then ([], Reject 503 ''GitHub OAuth not configured on this server'')
          else case randomToken random of
            Inl err \<Rightarrow> ([], Reject 500 ''internal error'')
          | Inr state \<Rightarrow>
              ([state_cookie (trusted_proxy P) r (state @ ''|'' @ safe_redirect redirect) oauthStateTTL],
               Reply 302 (buildGitHubAuthURL p state (callbackURL p))))"

text \<open>The value that the browser returns for a cookie.\<close>

definition cookie_byte :: "char \<Rightarrow> bool" where
  "cookie_byte c \<longleftrightarrow> 32 \<le> (of_char c :: nat) \<and> (of_char c :: nat) < 127 \<and> c \<noteq> CHR 0x22 \<and> c \<noteq> CHR '';'' \<and> c \<noteq> CHR 0x5C"

definition returned_value :: "cookie \<Rightarrow> string" where
  "returned_value ck = filter cookie_byte (ck_value ck)"

section \<open>The second step\<close>

record callback =
  cb_cookie :: "string option"
  cb_state :: string
  cb_code :: string
  cb_error :: string

text \<open>\<open>strings.SplitN(v, "|", 2)\<close> when it has two parts.\<close>

definition state_parts :: "string \<Rightarrow> (string \<times> string) option" where
  "state_parts v =
     (if CHR ''|'' \<in> set v then Some (takeWhile (\<lambda>c. c \<noteq> CHR ''|'') v, tl (dropWhile (\<lambda>c. c \<noteq> CHR ''|'') v)) else None)"

definition findOrCreateUser :: "request \<Rightarrow> githubProfile \<Rightarrow> User list \<Rightarrow> User res \<times> User list" where
  "findOrCreateUser e p users =
     (if gp_id p = 0 then (Inl (ErrMsg ''github profile missing user id''), users)
      else
        let githubID = dec (gp_id p) in
        case GetByGitHubID (fails e ''Users.GetByGitHubID'') githubID users of
          Inl err \<Rightarrow> (Inl err, users)
        | Inr (Some u) \<Rightarrow> (Inr u, users)
        | Inr None \<Rightarrow>
            let email = profile_email p in
            case (if email = [] then Inr None else GetByEmail (fails e ''Users.GetByEmail'') email users) of
              Inl err \<Rightarrow> (Inl err, users)
            | Inr (Some u) \<Rightarrow>
                (case SetGitHubID (fails e ''Users.SetGitHubID'') (u_id u) githubID users of
                   (Some err, t) \<Rightarrow> (Inl err, t)
                 | (None, t) \<Rightarrow> (Inr (u\<lparr>u_github_id := Some githubID\<rparr>), t))
            | Inr None \<Rightarrow>
                let u = \<lparr>u_id = new_id e 0, u_email = (if email = [] then gp_login p @ ''@users.noreply.github.com'' else email),
                         u_name = (if gp_name p = [] then gp_login p else gp_name p), u_password_hash = [],
                         u_github_id = Some githubID, u_created_at = 0\<rparr>
                in case UserStore_Create (fails e ''Users.Create'') (clock e 0) u users of
                     (Some err, t) \<Rightarrow> (Inl err, t)
                   | (None, t) \<Rightarrow> (Inr u, t))"

definition CallbackGitHub ::
  "platform \<Rightarrow> OAuthProvider option \<Rightarrow> github \<Rightarrow> request \<Rightarrow> transport \<Rightarrow> callback \<Rightarrow> server \<Rightarrow> cookie list \<times> string http \<times> server" where
  "CallbackGitHub P provider G e r q s =
     (case provider of
        None \<Rightarrow> ([], Reject 503 ''GitHub OAuth not configured on this server'', s)
      | Some p \<Rightarrow>
          if \<not> Configured provider then ([], Reject 503 ''GitHub OAuth not configured on this server'', s)
          else case cb_cookie q of
            None \<Rightarrow> ([], Reject 400 (''OAuth state missing '' @ long_dash @ '' start the login flow again''), s)
          | Some v \<Rightarrow>
            case state_parts v of
              None \<Rightarrow> ([], Reject 400 ''OAuth state malformed'', s)
            | Some (expectedState, redirectPath) \<Rightarrow>
              let clear = state_cookie (trusted_proxy P) r [] (- 1); fail = (\<lambda>code msg s. ([clear], Reject code msg, s)) in
              if cb_state q \<noteq> expectedState then fail 400 (''OAuth state mismatch '' @ long_dash @ '' possible CSRF'') s
              else if cb_code q = [] then
                (if cb_error q \<noteq> [] then fail 400 (''GitHub OAuth declined: '' @ cb_error q) s else fail 400 ''OAuth code missing'' s)
              else case exchangeGitHubCode G p (cb_code q) (callbackURL p) of
                Inl err \<Rightarrow> fail 502 (''OAuth code exchange failed: '' @ Error err) s
              | Inr accessToken \<Rightarrow>
                case fetchGitHubProfile G accessToken of
                  Inl err \<Rightarrow> fail 502 (''OAuth profile fetch failed: '' @ Error err) s
                | Inr profile \<Rightarrow>
                  case findOrCreateUser e profile (sv_users s) of
                    (Inl err, t) \<Rightarrow> fail 500 (''internal error: '' @ Error err) (s\<lparr>sv_users := t\<rparr>)
                  | (Inr user, t) \<Rightarrow>
                      let s = s\<lparr>sv_users := t\<rparr>; token = generateSessionToken (new_token e 0) in
                      (case SessionStore_Create (sha256 P) (fails e ''Sessions.Create'') (clock e 1) token (u_id user) sessionTTL (sv_sessions s) of
                         (Some err, t) \<Rightarrow> fail 500 ''internal error'' (s\<lparr>sv_sessions := t\<rparr>)
                       | (None, t) \<Rightarrow>
                           ([clear, setSessionCookie (trusted_proxy P) r token], Reply 302 redirectPath,
                            s\<lparr>sv_sessions := t,
                              sv_audit := AuditStore_Log (new_id e 1) (u_id user) ''login.github'' None None None (sv_audit s)\<rparr>)))"

section \<open>Who is signed in\<close>

text \<open>How a profile is matched with a user of the table.\<close>

definition matches :: "githubProfile \<Rightarrow> User list \<Rightarrow> User \<Rightarrow> bool" where
  "matches p users u \<longleftrightarrow>
     u \<in> set users \<and> u_github_id u = Some (dec (gp_id p))
     \<or> (\<forall>x \<in> set users. u_github_id x \<noteq> Some (dec (gp_id p)))
        \<and> ((\<exists>v \<in> set users. u = v\<lparr>u_github_id := Some (dec (gp_id p))\<rparr> \<and> u_email v = profile_email p \<and> profile_email p \<noteq> [])
           \<or> (\<forall>v \<in> set users. u_id v \<noteq> u_id u \<and> u_email v \<noteq> u_email u) \<and> (profile_email p = [] \<or> u_email u = profile_email p))"

lemma dec_nonempty: "dec n \<noteq> []"
  by (simp add: dec_def)

lemma GetByGitHubID_None:
  "GetByGitHubID f g users = Inr None \<Longrightarrow> g \<noteq> [] \<Longrightarrow> (\<And>err. f = Some err \<Longrightarrow> \<not> is_no_rows err) \<Longrightarrow> \<forall>x \<in> set users. u_github_id x \<noteq> Some g"
  by (auto simp: GetByGitHubID_def or_nil_def GetUserByGitHubID_def query_one_def select_one_def find_None_iff split: option.splits sum.splits if_splits)

lemma GetByGitHubID_Some: "GetByGitHubID f g users = Inr (Some u) \<Longrightarrow> u \<in> set users \<and> u_github_id u = Some g"
  by (auto simp: GetByGitHubID_def or_nil_Some GetUserByGitHubID_def split: if_splits dest!: query_one_Inr select_one_Inr)

lemma GetByEmail_Some: "GetByEmail f m users = Inr (Some u) \<Longrightarrow> u \<in> set users \<and> u_email u = m"
  by (auto simp: GetByEmail_def or_nil_Some GetUserByEmail_def dest!: query_one_Inr select_one_Inr)

lemma SetGitHubID_None:
  assumes "SetGitHubID f uid g users = (None, t)"
  shows "t = update_where (\<lambda>r. u_id r = uid) (\<lambda>r. r\<lparr>u_github_id := Some g\<rparr>) users \<and> clash_free user_clash t"
  using assms by (auto simp: SetGitHubID_def SetUserGitHubID_def exec_def update_checked_def Let_def split: option.splits if_splits)

lemma findOrCreateUser_ok:
  assumes "findOrCreateUser e p users = (Inr u, t)" "clash_free user_clash users"
    and proper: "\<forall>l err. fails e l = Some err \<longrightarrow> \<not> is_no_rows err"
  shows "gp_id p \<noteq> 0 \<and> matches p users u \<and> clash_free user_clash t
    \<and> (\<exists>x \<in> set t. u_id x = u_id u \<and> u_email x = u_email u \<and> u_name x = u_name u \<and> u_github_id x = Some (dec (gp_id p)))"
proof -
  let ?g = "dec (gp_id p)"
  have id: "gp_id p \<noteq> 0" using assms(1) by (auto simp: findOrCreateUser_def split: if_splits)
  obtain r where r: "GetByGitHubID (fails e ''Users.GetByGitHubID'') ?g users = Inr r"
    using assms(1) id by (cases "GetByGitHubID (fails e ''Users.GetByGitHubID'') ?g users") (auto simp: findOrCreateUser_def Let_def)
  show ?thesis
  proof (cases r)
    case (Some v)
    then have "u = v" "t = users" using assms(1) id r by (auto simp: findOrCreateUser_def Let_def)
    then show ?thesis using GetByGitHubID_Some [of _ ?g users v] r Some id assms(2) by (auto simp: matches_def)
  next
    case None
    then have none: "\<forall>x \<in> set users. u_github_id x \<noteq> Some ?g" using GetByGitHubID_None r dec_nonempty proper by blast
    let ?m = "profile_email p"
    obtain by_mail where m: "(if ?m = [] then Inr None else GetByEmail (fails e ''Users.GetByEmail'') ?m users) = Inr by_mail"
      using assms(1) id r None
      by (cases "if ?m = [] then Inr None else GetByEmail (fails e ''Users.GetByEmail'') ?m users") (auto simp: findOrCreateUser_def Let_def)
    show ?thesis
    proof (cases by_mail)
      case (Some v)
      then have v: "?m \<noteq> []" "v \<in> set users" "u_email v = ?m"
        using m GetByEmail_Some [of _ ?m users v] by (auto split: if_splits)
      have s: "SetGitHubID (fails e ''Users.SetGitHubID'') (u_id v) ?g users = (None, t)" "u = v\<lparr>u_github_id := Some ?g\<rparr>"
        using assms(1) id r None m Some by (auto simp: findOrCreateUser_def Let_def split: prod.splits option.splits)
      have "v\<lparr>u_github_id := Some ?g\<rparr> \<in> set t" "clash_free user_clash t"
        using SetGitHubID_None [OF s(1)] v(2) by (force simp: update_where_def)+
      moreover have "matches p users u" unfolding matches_def using none v s(2) by blast
      ultimately show ?thesis using id s(2) by (auto intro!: bexI [of _ "v\<lparr>u_github_id := Some ?g\<rparr>"])
    next
      case mail: None
      obtain w where w: "UserStore_Create (fails e ''Users.Create'') (clock e 0) u users = (None, t)"
          "u = \<lparr>u_id = new_id e 0, u_email = (if ?m = [] then w else ?m), u_name = u_name u, u_password_hash = [], u_github_id = Some ?g, u_created_at = 0\<rparr>"
        using assms(1) id r None m mail by (auto simp: findOrCreateUser_def Let_def split: prod.splits option.splits)
      have c: "\<forall>x \<in> set users. \<not> user_clash (u\<lparr>u_created_at := clock e 0\<rparr>) x" "t = users @ [u\<lparr>u_created_at := clock e 0\<rparr>]"
        using w(1) by (auto simp: UserStore_Create_None)
      have "clash_free user_clash t"
        using usert.clash_free_insert [OF assms(2), of "[]" "u\<lparr>u_created_at := clock e 0\<rparr>" t] c by (simp add: insert_row_Inr)
      moreover have "\<forall>v \<in> set users. u_id v \<noteq> u_id u \<and> u_email v \<noteq> u_email u" using c(1) by (auto simp: user_clash_def)
      moreover have "u_github_id u = Some ?g" "?m = [] \<or> u_email u = ?m" by (subst w(2), simp)+
      ultimately show ?thesis using id none c(2) by (auto simp: matches_def)
    qed
  qed
qed

lemma session_authenticates:
  assumes "SessionStore_Create (sha256 P) f now token uid sessionTTL (sv_sessions s) = (None, sv_sessions s')"
    and "find (\<lambda>u. u_id u = uid) (sv_users s') = Some u" "uid \<noteq> []"
    and "extractToken c = token" "token \<noteq> []" "\<And>l. fails e' l = None" "clock e' 0 < now + sessionTTL"
  shows "authenticated P e' c s' = Some \<lparr>p_id = u_id u, p_email = u_email u, p_name = u_name u\<rparr>"
proof -
  let ?x = "\<lparr>s_token = hashSessionToken (sha256 P) token, s_user_id = uid, s_created_at = now, s_expires_at = now + sessionTTL\<rparr>"
  have c: "hashSessionToken (sha256 P) token \<notin> s_token ` set (sv_sessions s)" "sv_sessions s' = sv_sessions s @ [?x]"
    using assms(1) by (auto simp: SessionStore_Create_None)
  have "find (\<lambda>x. s_token x = hashSessionToken (sha256 P) (extractToken c) \<and> s_expires_at x > clock e' 0) (sv_sessions s') = Some ?x"
    unfolding c(2) assms(4) by (subst find_snoc_fresh) (use c(1) assms(7) in \<open>auto simp: image_iff\<close>)
  moreover have "attempts e' l i = None" for l i using assms(6) by (simp add: attempts_def)
  ultimately show ?thesis using authenticated_by [of e' c P s' ?x u] assms by auto
qed

text \<open>
  Property C0. Signing in with GitHub is sound. The second step creates a session only when the state of
  the request is the one of the browser's cookie and GitHub exchanged the code for a profile with an id.
  The session is the one of the user with this GitHub id; if there was none, of the user with the
  address of the profile, who is linked with it; if there was none either, of a new user. The session
  cookie authenticates this user for thirty days. In every other case no session is created.
\<close>

theorem github_login_sound:
  assumes "CallbackGitHub P provider G e r q s = (cookies, answer, s')" "clash_free user_clash (sv_users s)"
    and "new_token e 0 \<noteq> []" "\<And>l. fails e' l = None" "clock e' 0 < clock e 1 + sessionTTL"
    and proper: "\<forall>l err. fails e l = Some err \<longrightarrow> \<not> is_no_rows err"
  shows "case answer of
      Reject code msg \<Rightarrow> sv_sessions s' = sv_sessions s
    | Reply code target \<Rightarrow>
        \<exists>p v accessToken profile user.
          provider = Some p \<and> cb_cookie q = Some v \<and> state_parts v = Some (cb_state q, target)
          \<and> exchangeGitHubCode G p (cb_code q) (callbackURL p) = Inr accessToken \<and> fetchGitHubProfile G accessToken = Inr profile
          \<and> gp_id profile \<noteq> 0 \<and> matches profile (sv_users s) user
          \<and> (\<exists>x \<in> set (sv_users s'). u_id x = u_id user \<and> u_email x = u_email user \<and> u_name x = u_name user
                \<and> u_github_id x = Some (dec (gp_id profile)))
          \<and> (u_id user \<noteq> [] \<longrightarrow> (\<forall>c. extractToken c = ck_value (cookies ! 1) \<longrightarrow>
               authenticated P e' c s' = Some \<lparr>p_id = u_id user, p_email = u_email user, p_name = u_name user\<rparr>))"
proof (cases answer)
  case (Reject code msg)
  then show ?thesis
    using assms(1)
    by (auto simp: CallbackGitHub_def Let_def SessionStore_Create_def CreateSession_def exec_def
        split: option.splits if_splits sum.splits prod.splits)
next
  case (Reply code target)
  let ?token = "generateSessionToken (new_token e 0)"
  obtain p v accessToken profile user t where f: "provider = Some p" "cb_cookie q = Some v" "state_parts v = Some (cb_state q, target)"
      "exchangeGitHubCode G p (cb_code q) (callbackURL p) = Inr accessToken" "fetchGitHubProfile G accessToken = Inr profile"
      "findOrCreateUser e profile (sv_users s) = (Inr user, t)" "sv_users s' = t"
      "SessionStore_Create (sha256 P) (fails e ''Sessions.Create'') (clock e 1) ?token (u_id user) sessionTTL (sv_sessions s) = (None, sv_sessions s')"
      "ck_value (cookies ! 1) = ?token"
    using assms(1) Reply
    by (auto simp: CallbackGitHub_def Let_def setSessionCookie_def split: option.splits if_splits sum.splits prod.splits)
  have u: "gp_id profile \<noteq> 0 \<and> matches profile (sv_users s) user \<and> clash_free user_clash t
    \<and> (\<exists>x \<in> set t. u_id x = u_id user \<and> u_email x = u_email user \<and> u_name x = u_name user \<and> u_github_id x = Some (dec (gp_id profile)))"
    by (rule findOrCreateUser_ok [OF f(6) assms(2) proper])
  then obtain x where x: "x \<in> set t" "u_id x = u_id user" "u_email x = u_email user" "u_name x = u_name user" "u_github_id x = Some (dec (gp_id profile))"
    by blast
  have "find (\<lambda>y. u_id y = u_id user) (sv_users s') = Some x"
    using usert.select_key [of t x] u x f(7) by (simp add: select_one_def split: option.splits)
  moreover have "?token \<noteq> []" using assms(3) by (metis generateSessionToken_def length_EncodeToString length_0_conv mult_is_0 zero_neq_numeral)
  ultimately have "u_id user \<noteq> [] \<Longrightarrow> extractToken c = ?token \<Longrightarrow> authenticated P e' c s' = Some \<lparr>p_id = u_id user, p_email = u_email user, p_name = u_name user\<rparr>" for c
    using session_authenticates [OF f(8), of x c e'] assms(4,5) x by auto
  then show ?thesis using Reply f u x by auto
qed

definition sample_provider :: OAuthProvider where
  "sample_provider = \<lparr>GitHubClientID = ''id'', GitHubClientSecret = ''secret'', PublicEndpoint = ''https://hop.example/''\<rparr>"

definition sample_github :: github where
  "sample_github =
     \<lparr>gh_token = (\<lambda>p code url. Inr (200, [], Inr \<lparr>ta_access_token = ''gho'', ta_error = [], ta_description = []\<rparr>)),
      gh_user = (\<lambda>t. Inr (200, [], Inr \<lparr>gp_id = 7, gp_login = ''ann'', gp_name = ''Ann'', gp_public_mail = [], gp_emails = []\<rparr>)),
      gh_mails = (\<lambda>t. Inr (200, [\<lparr>ge_email = ''old@b.co'', ge_primary = False, ge_verified = True\<rparr>, \<lparr>ge_email = ''a@b.co'', ge_primary = True, ge_verified = True\<rparr>]))\<rparr>"

definition sample_callback :: callback where
  "sample_callback = \<lparr>cb_cookie = Some ''ab12|/networks'', cb_state = ''ab12'', cb_code = ''xyz'', cb_error = []\<rparr>"

theorem github_login_sound_witness:
  "\<exists>cookies s'. CallbackGitHub sample_platform (Some sample_provider) sample_github sample_request \<lparr>tls = True, forwarded_proto = []\<rparr> sample_callback empty_server
        = (cookies, Reply 302 ''/networks'', s')
     \<and> authenticated sample_platform sample_request \<lparr>authorization = [], session_cookie = Some (ck_value (cookies ! 1))\<rparr> s'
        = Some \<lparr>p_id = ''id0'', p_email = ''a@b.co'', p_name = ''Ann''\<rparr>"
proof -
  let ?r = "CallbackGitHub sample_platform (Some sample_provider) sample_github sample_request \<lparr>tls = True, forwarded_proto = []\<rparr> sample_callback empty_server"
  have "case ?r of (cks, Reply c x, s') \<Rightarrow> c = 302 \<and> x = ''/networks'' \<and> map u_id (sv_users s') = [''id0''] \<and> map u_email (sv_users s') = [''a@b.co'']
      \<and> map u_name (sv_users s') = [''Ann''] | _ \<Rightarrow> False" by code_simp
  then obtain cks s' where r: "?r = (cks, Reply 302 ''/networks'', s')" "map u_id (sv_users s') = [''id0'']" "map u_email (sv_users s') = [''a@b.co'']"
      "map u_name (sv_users s') = [''Ann'']"
    by (auto split: prod.splits http.splits)
  have e: "clock sample_request i = 1000" "fails sample_request l = None" "new_token sample_request 0 \<noteq> []" for i l
    by (simp_all add: sample_request_def)
  have tok: "extractToken \<lparr>authorization = [], session_cookie = Some (ck_value (cks ! 1))\<rparr> = ck_value (cks ! 1)"
    by (simp add: extractToken_def HasPrefix_def)
  have cf: "clash_free user_clash (sv_users empty_server)" by (simp add: empty_server_def)
  have soon: "clock sample_request 0 < clock sample_request 1 + sessionTTL" by (simp add: e sessionTTL_def)
  have proper: "\<forall>l err. fails sample_request l = Some err \<longrightarrow> \<not> is_no_rows err" by (simp add: e)
  obtain user :: User and x where u: "x \<in> set (sv_users s')" "u_id x = u_id user" "u_email x = u_email user" "u_name x = u_name user"
      "u_id user \<noteq> [] \<longrightarrow> (\<forall>c. extractToken c = ck_value (cks ! 1) \<longrightarrow>
         authenticated sample_platform sample_request c s' = Some \<lparr>p_id = u_id user, p_email = u_email user, p_name = u_name user\<rparr>)"
    using github_login_sound [OF r(1) cf e(3) e(2) soon proper] unfolding http.case by blast
  have "u_id x = ''id0''" "u_email x = ''a@b.co''" "u_name x = ''Ann''" using r(2-4) u(1) by (auto simp: map_eq_Cons_conv)
  then show ?thesis using r(1) u tok by auto
qed

text \<open>
  The check of the redirect happens before the cookie drops its bytes: a path that begins with a slash, a
  backslash and another slash passes, and comes back from the browser as an address of another host.
\<close>

lemma hex_text_cookie: "c \<in> set (EncodeToString bs) \<Longrightarrow> cookie_byte c \<and> c \<noteq> CHR ''|''"
proof -
  have "cookie_byte (hex_digit n) \<and> hex_digit n \<noteq> CHR ''|''" if n: "n < 16" for n
  proof -
    have "of_char (hex_digit n) \<in> {48..57} \<union> {97..102 :: nat}" using n by (auto simp: hex_digit_def)
    then show ?thesis by (auto simp: cookie_byte_def)
  qed
  moreover have "of_char x div 16 < (16 :: nat)" for x :: char using nat_of_char_less_256 [of x] by (simp add: div_less_iff_less_mult)
  ultimately show "c \<in> set (EncodeToString bs) \<Longrightarrow> ?thesis" by (auto simp: EncodeToString_def hex_byte_def)
qed

lemma redirect_leaves_site:
  assumes "Configured (Some p)" "random = Inr bs"
    and "StartGitHub P (Some p) r random (''/'' @ [CHR 0x5C] @ ''/evil.example'') = ([ck], Reply 302 url)"
  shows "state_parts (returned_value ck) = Some (EncodeToString bs, ''//evil.example'')"
proof -
  let ?h = "EncodeToString bs"
  have hex: "filter cookie_byte ?h = ?h" "CHR ''|'' \<notin> set ?h" using hex_text_cookie [of _ bs] by (auto simp: filter_id_conv)
  have "ck_value ck = ?h @ ''|'' @ safe_redirect (''/'' @ [CHR 0x5C] @ ''/evil.example'')"
    using assms by (auto simp: StartGitHub_def randomToken_def state_cookie_def)
  moreover have "filter cookie_byte (''|'' @ safe_redirect (''/'' @ [CHR 0x5C] @ ''/evil.example'')) = ''|//evil.example''" by code_simp
  ultimately have "returned_value ck = ?h @ ''|//evil.example''" using hex by (simp add: returned_value_def)
  then show ?thesis using hex(2) by (simp add: state_parts_def takeWhile_append dropWhile_append takeWhile_eq_all_conv dropWhile_eq_Nil_conv)
qed

end
