(* ===== verification/Clipboard.thy ===== *)
theory Clipboard
  imports RenewApi
begin

text \<open>
  The clipboard relay of the control plane (src/internal/api/clipboard.go). The cache is a list of entries
  keyed by the id of the clip, in the order in which the map is iterated. A request carries the token of
  an agent; the node it names is read from the store. Times are in nanoseconds.
\<close>

section \<open>The cache\<close>

definition clipboardMaxBytes :: int where
  "clipboardMaxBytes = 256 * 1024"

definition clipboardTTL :: int where
  "clipboardTTL = 120 * 1000000000"

record clipboardEntry =
  ce_network_id :: string
  ce_node_id :: string
  ce_clip_id :: string
  ce_hash :: string
  ce_type :: string
  ce_content :: string
  ce_created :: int

type_synonym clipboardCache = "(string \<times> clipboardEntry) list"

definition evictExpired :: "int \<Rightarrow> clipboardCache \<Rightarrow> clipboardCache" where
  "evictExpired now c = filter (\<lambda>(ident, e). \<not> now - ce_created e > clipboardTTL) c"

definition cache_put :: "clipboardEntry \<Rightarrow> clipboardCache \<Rightarrow> clipboardCache" where
  "cache_put e c = AList.update (ce_clip_id e) e c"

definition cache_get :: "string \<Rightarrow> string \<Rightarrow> int \<Rightarrow> clipboardCache \<Rightarrow> clipboardEntry option" where
  "cache_get clipID requestingNetworkID now c =
     (case map_of c clipID of
        None \<Rightarrow> None
      | Some e \<Rightarrow>
          if now - ce_created e > clipboardTTL then None
          else if ce_network_id e \<noteq> requestingNetworkID then None else Some e)"

definition newer :: "string \<Rightarrow> string \<Rightarrow> int \<Rightarrow> clipboardEntry option \<Rightarrow> string \<times> clipboardEntry \<Rightarrow> clipboardEntry option" where
  "newer networkID excludeNodeID now best x =
     (let e = snd x in
      if ce_network_id e \<noteq> networkID \<or> ce_node_id e = excludeNodeID \<or> now - ce_created e > clipboardTTL then best
      else case best of None \<Rightarrow> Some e | Some b \<Rightarrow> if ce_created e > ce_created b then Some e else best)"

definition latestForNetwork :: "string \<Rightarrow> string \<Rightarrow> int \<Rightarrow> clipboardCache \<Rightarrow> clipboardEntry option" where
  "latestForNetwork networkID excludeNodeID now c = foldl (newer networkID excludeNodeID now) None c"

section \<open>The handlers\<close>

record announceRequest =
  an_node_id :: string
  an_clip_id :: string
  an_hash :: string
  an_type :: string
  an_content :: string
  an_size :: int

definition node_with_token :: "platform \<Rightarrow> request \<Rightarrow> string \<Rightarrow> string \<Rightarrow> server \<Rightarrow> Node option" where
  "node_with_token P e nodeID token s =
     (case NodeStore_Get (aead P) (encryptor P) (attempts e ''Nodes.Get'') nodeID (sv_nodes s) of
        Inr (Some node) \<Rightarrow> if token \<noteq> nd_agent_token node then None else Some node
      | _ \<Rightarrow> None)"

definition Announce ::
  "platform \<Rightarrow> request \<Rightarrow> string \<Rightarrow> announceRequest option \<Rightarrow> server \<times> clipboardCache \<Rightarrow> unit http \<times> server \<times> clipboardCache" where
  "Announce P e authHeader body st =
     (case st of (s, cache) \<Rightarrow>
      if \<not> HasPrefix authHeader ''Bearer '' then (Reject 401 ''unauthorized'', s, cache)
      else case body of
        None \<Rightarrow> (Reject 400 ''invalid body'', s, cache)
      | Some b \<Rightarrow>
          if an_node_id b = [] \<or> an_clip_id b = [] \<or> an_hash b = [] then (Reject 400 ''missing required field'', s, cache)
          else
            let typ = (if an_type b = [] then ''text'' else an_type b) in
            if typ \<noteq> ''text'' then (Reject 400 ''only type=text supported in v1'', s, cache)
            else if int (length (an_content b)) > clipboardMaxBytes then (Reject 413 ''content too large'', s, cache)
            else case node_with_token P e (an_node_id b) (TrimPrefix authHeader ''Bearer '') s of
              None \<Rightarrow> (Reject 401 ''unauthorized'', s, cache)
            | Some node \<Rightarrow>
                let cache = cache_put \<lparr>ce_network_id = nd_network_id node, ce_node_id = an_node_id b, ce_clip_id = an_clip_id b,
                                       ce_hash = an_hash b, ce_type = typ, ce_content = an_content b, ce_created = nanos e 0\<rparr> cache;
                    evt = [(''clipId'', an_clip_id b), (''hash'', an_hash b), (''originator'', an_node_id b),
                           (''size'', itoa (length (an_content b))), (''type'', typ)]
                          @ (if an_content b \<noteq> [] \<and> int (length (an_content b)) \<le> 8 * 1024 then [(''content'', an_content b)] else [])
                in (Reply 204 (), emit (Publish (nd_network_id node) ''clipboard.announce'' evt) s, cache))"

text \<open>The number after the digits, in 64 bits; another byte makes it 0.\<close>

fun parse_since :: "string \<Rightarrow> int \<Rightarrow> int" where
  "parse_since [] n = n"
| "parse_since (c # s) n = (if is_digit c then parse_since s (wrap64 (n * 10 + int (of_char c - 48))) else 0)"

definition Clipboard_Poll ::
  "platform \<Rightarrow> request \<Rightarrow> string \<Rightarrow> string \<Rightarrow> string \<Rightarrow> server \<times> clipboardCache \<Rightarrow> clipboardEntry option http" where
  "Clipboard_Poll P e authHeader nodeID since st =
     (case st of (s, cache) \<Rightarrow>
      if \<not> HasPrefix authHeader ''Bearer '' then Reject 401 ''unauthorized''
      else if nodeID = [] then Reject 400 ''nodeId required''
      else case node_with_token P e nodeID (TrimPrefix authHeader ''Bearer '') s of
        None \<Rightarrow> Reject 401 ''unauthorized''
      | Some node \<Rightarrow>
          (case latestForNetwork (nd_network_id node) nodeID (nanos e 0) cache of
             None \<Rightarrow> Reply 204 None
           | Some entry \<Rightarrow>
               if ce_created entry div 1000000000 \<le> parse_since since 0 then Reply 204 None else Reply 200 (Some entry)))"

definition Content ::
  "platform \<Rightarrow> request \<Rightarrow> string \<Rightarrow> string \<Rightarrow> string \<Rightarrow> server \<times> clipboardCache \<Rightarrow> clipboardEntry http" where
  "Content P e authHeader nodeID clipID st =
     (case st of (s, cache) \<Rightarrow>
      if clipID = [] then Reject 400 ''clipId required''
      else if \<not> HasPrefix authHeader ''Bearer '' then Reject 401 ''unauthorized''
      else if nodeID = [] then Reject 400 ''nodeId query param required''
      else case node_with_token P e nodeID (TrimPrefix authHeader ''Bearer '') s of
        None \<Rightarrow> Reject 401 ''unauthorized''
      | Some node \<Rightarrow>
          (case cache_get clipID (nd_network_id node) (nanos e 0) cache of
             None \<Rightarrow> Reject 404 ''not found''
           | Some entry \<Rightarrow> Reply 200 entry))"

section \<open>What a clip that is handed out is\<close>

text \<open>Histories of the relay: announcements against any state of the server, and sweeps.\<close>

datatype clip_op =
    ClipAnnounce platform request string "announceRequest option" server
  | ClipSweep int

primrec clip_step :: "clip_op \<Rightarrow> clipboardCache \<Rightarrow> clipboardCache" where
  "clip_step (ClipAnnounce P e auth body s) c = snd (snd (Announce P e auth body (s, c)))"
| "clip_step (ClipSweep now) c = evictExpired now c"

text \<open>An accepted announcement of the contents of an entry.\<close>

definition announced :: "clip_op \<Rightarrow> clipboardEntry \<Rightarrow> bool" where
  "announced x e \<longleftrightarrow>
     (\<exists>P rq auth b s node. x = ClipAnnounce P rq auth (Some b) s \<and> HasPrefix auth ''Bearer ''
        \<and> node_with_token P rq (an_node_id b) (TrimPrefix auth ''Bearer '') s = Some node
        \<and> ce_network_id e = nd_network_id node \<and> ce_node_id e = an_node_id b \<and> ce_clip_id e = an_clip_id b
        \<and> ce_content e = an_content b \<and> ce_hash e = an_hash b \<and> int (length (ce_content e)) \<le> clipboardMaxBytes \<and> ce_created e = nanos rq 0)"

definition backed_cache :: "clip_op list \<Rightarrow> clipboardCache \<Rightarrow> bool" where
  "backed_cache ops c \<longleftrightarrow> (\<forall>(k, e) \<in> set c. k = ce_clip_id e \<and> (\<exists>x \<in> set ops. announced x e))"

lemma announce_cache:
  "snd (snd (Announce P e auth body (s, c))) = c
   \<or> (\<exists>x. snd (snd (Announce P e auth body (s, c))) = cache_put x c \<and> announced (ClipAnnounce P e auth body s) x)"
  by (auto simp: Announce_def announced_def Let_def not_less split: option.splits if_splits)

lemma clip_step_backed: "backed_cache ops c \<Longrightarrow> backed_cache (ops @ [x]) (clip_step x c)"
proof (cases x)
  case (ClipAnnounce P e auth body s)
  assume c: "backed_cache ops c"
  then have c': "backed_cache (ops @ [x]) c" by (auto simp: backed_cache_def)
  show ?thesis
    using announce_cache [of P e auth body s c] c' ClipAnnounce
    by (auto simp: backed_cache_def cache_put_def dest!: update_entries)
next
  case (ClipSweep now)
  assume "backed_cache ops c"
  then show ?thesis by (auto simp: ClipSweep backed_cache_def evictExpired_def)
qed

lemma clip_run_backed: "backed_cache ops (run clip_step ops [])"
proof (induction ops rule: rev_induct)
  case (snoc x ops)
  then show ?case by (simp add: clip_step_backed)
qed (simp add: backed_cache_def)

lemma latest_entry:
  "foldl (newer n x now) best c = Some e \<Longrightarrow>
     best = Some e \<or> (\<exists>k. (k, e) \<in> set c) \<and> ce_network_id e = n \<and> ce_node_id e \<noteq> x \<and> now - ce_created e \<le> clipboardTTL"
proof (induction c arbitrary: best)
  case (Cons y c)
  from Cons.IH [of "newer n x now best y"] Cons.prems show ?case
    by (cases y) (auto simp: newer_def Let_def not_less split: if_splits option.splits)
qed simp

text \<open>
  Property C0. A clip stays in its network and does not outlive two minutes. Whatever was announced and
  swept before, an entry that the relay hands to an agent with a valid token was announced, with these
  contents and at most 256 KB, by a node of the network of that agent with a valid token, at most 120
  seconds ago; polling never returns the agent's own clip, and a fetch returns the clip that was asked for.
\<close>

theorem clipboard_scoped:
  assumes "cache = run clip_step ops []"
    and "Clipboard_Poll P e auth nodeID since (s, cache) = Reply 200 (Some x) \<or> Content P e auth nodeID clipID (s, cache) = Reply 200 x"
  shows "\<exists>node op. node_with_token P e nodeID (TrimPrefix auth ''Bearer '') s = Some node \<and> op \<in> set ops \<and> announced op x
    \<and> ce_network_id x = nd_network_id node \<and> nanos e 0 - ce_created x \<le> clipboardTTL
    \<and> (Clipboard_Poll P e auth nodeID since (s, cache) = Reply 200 (Some x) \<longrightarrow> ce_node_id x \<noteq> nodeID)
    \<and> (Content P e auth nodeID clipID (s, cache) = Reply 200 x \<longrightarrow> ce_clip_id x = clipID)"
proof -
  have b: "backed_cache ops cache" unfolding assms(1) by (rule clip_run_backed)
  have poll: "\<exists>node k. node_with_token P e nodeID (TrimPrefix auth ''Bearer '') s = Some node \<and> (k, x) \<in> set cache
      \<and> ce_network_id x = nd_network_id node \<and> nanos e 0 - ce_created x \<le> clipboardTTL \<and> ce_node_id x \<noteq> nodeID"
    if "Clipboard_Poll P e auth nodeID since (s, cache) = Reply 200 (Some x)"
    using that by (auto simp: Clipboard_Poll_def latestForNetwork_def split: if_splits option.splits dest!: latest_entry)
  have content: "\<exists>node. node_with_token P e nodeID (TrimPrefix auth ''Bearer '') s = Some node \<and> (clipID, x) \<in> set cache
      \<and> ce_network_id x = nd_network_id node \<and> nanos e 0 - ce_created x \<le> clipboardTTL"
    if "Content P e auth nodeID clipID (s, cache) = Reply 200 x"
    using that by (auto simp: Content_def cache_get_def split: if_splits option.splits dest: map_of_SomeD)
  obtain node k where n: "node_with_token P e nodeID (TrimPrefix auth ''Bearer '') s = Some node" "(k, x) \<in> set cache"
      "ce_network_id x = nd_network_id node" "nanos e 0 - ce_created x \<le> clipboardTTL"
    using assms(2) poll content by blast
  moreover obtain op where "op \<in> set ops" "announced op x" using b n(2) by (auto simp: backed_cache_def)
  moreover have "Content P e auth nodeID clipID (s, cache) = Reply 200 x \<longrightarrow> ce_clip_id x = clipID"
    using content b by (fastforce simp: backed_cache_def)
  ultimately show ?thesis using poll by blast
qed

definition sample_clip :: announceRequest where
  "sample_clip = \<lparr>an_node_id = ''node-aaa'', an_clip_id = ''c1'', an_hash = ''h'', an_type = [], an_content = ''hello'', an_size = 5\<rparr>"

definition sample_server :: server where
  "sample_server = with_nodes sample_pair (empty_server\<lparr>sv_networks := sample_networks\<rparr>)"

definition sample_clips :: "clip_op list" where
  "sample_clips = [ClipAnnounce sample_platform sample_request ''Bearer agent'' (Some sample_clip) sample_server]"

theorem clipboard_scoped_witness:
  "let cache = run clip_step sample_clips [] in
   \<exists>x. Clipboard_Poll sample_platform sample_request ''Bearer agent'' ''node-bbb'' ''0'' (sample_server, cache) = Reply 200 (Some x)
     \<and> ce_content x = ''hello'' \<and> announced (hd sample_clips) x"
proof -
  let ?c = "run clip_step sample_clips []"
  let ?p = "Clipboard_Poll sample_platform sample_request ''Bearer agent'' ''node-bbb'' ''0'' (sample_server, ?c)"
  have "case ?p of Reply c (Some x) \<Rightarrow> c = 200 \<and> ce_content x = ''hello'' | _ \<Rightarrow> False" by code_simp
  then obtain x where x: "?p = Reply 200 (Some x)" "ce_content x = ''hello''" by (auto split: http.splits option.splits)
  then have "\<exists>op. op \<in> set sample_clips \<and> announced op x"
    using clipboard_scoped [OF refl, of sample_platform sample_request "''Bearer agent''" "''node-bbb''" "''0''" sample_server sample_clips x "[]"] by blast
  then show ?thesis using x by (auto simp: Let_def sample_clips_def)
qed

text \<open>The key of the cache is the id that the agent chose: a clip of another network with the same id takes its place.\<close>

lemma foreign_clip_replaces:
  assumes "ce_clip_id x = ce_clip_id y" "ce_network_id x \<noteq> ce_network_id y"
  shows "cache_get (ce_clip_id x) (ce_network_id x) now (cache_put y (cache_put x c)) = None"
  using assms by (simp add: cache_get_def cache_put_def update_conv')

text \<open>A poll compares whole seconds: a second clip in the second of the one already seen is not delivered.\<close>

lemma same_second_not_delivered:
  assumes "latestForNetwork (nd_network_id node) nodeID (nanos e 0) cache = Some x"
    and "node_with_token P e nodeID (TrimPrefix auth ''Bearer '') s = Some node" "HasPrefix auth ''Bearer ''" "nodeID \<noteq> []"
    and "parse_since since 0 = seen div 1000000000" "ce_created x div 1000000000 = seen div 1000000000"
  shows "Clipboard_Poll P e auth nodeID since (s, cache) = Reply 204 None"
  using assms by (simp add: Clipboard_Poll_def)

end
