(* ===== verification/BundleApi.thy ===== *)
theory BundleApi
  imports RenewApi AccountApi
begin

text \<open>
  Enrollment bundles (src/internal/api/bundles.go): a node that is enrolled on the server and handed to its
  machine as an archive behind a link that works once. The archive is the list of its files with their modes;
  tar and gzip are not modelled, nor is a connection that breaks while the archive is sent.
\<close>

section \<open>The handlers\<close>

definition bundleCertDuration :: int where
  "bundleCertDuration = 24 * 60 * 60"

record BundleResponse =
  bu_url :: string
  bu_node_id :: string
  bu_ip :: string
  bu_expires_in :: int

definition CreateBundle ::
  "platform \<Rightarrow> request \<Rightarrow> UserProfile \<Rightarrow> string \<Rightarrow> server \<Rightarrow> BundleResponse http \<times> server" where
  "CreateBundle P e user networkID s =
     owner_only P e user networkID s (\<lambda>network.
       case NextNodeIndex (fails e ''NextNodeIndex'') networkID (sv_nodes s) of
         Inl err \<Rightarrow> (Reject 500 (''failed to allocate node IP: '' @ Error err), s)
       | Inr nextIndex \<Rightarrow>
           (case NodeAddress (n_subnet network) nextIndex of
              Inl err \<Rightarrow> (Reject 500 (''failed to allocate node IP: '' @ Error err), s)
            | Inr nextIP \<Rightarrow>
                let token = generateToken (new_token e 0); nodeID = new_id e 0;
                    node = zero_node\<lparr>nd_id := nodeID, nd_network_id := networkID, nd_ip := prefix_string nextIP,
                             nd_agent_token := token, nd_status := ''pending''\<rparr>
                in case create_node P e node s of
                     (Some err, s) \<Rightarrow> (Reject 500 (''failed to create node: '' @ Error err), s)
                   | (None, s) \<Rightarrow>
                       (case node_cert P e network nodeID nextIP bundleCertDuration of
                          None \<Rightarrow> (panic, s)
                        | Some (Inl err) \<Rightarrow> (Reject 500 (''failed to issue cert: '' @ Error err), s)
                        | Some (Inr cert) \<Rightarrow>
                            (case store_cert P e nodeID cert [] [] [] s of
                               (Some err, s) \<Rightarrow> (Reject 500 (''failed to complete enrollment: '' @ Error err), s)
                             | (None, s) \<Rightarrow>
                                 (case BundleStore_Create (sha256 P) (rand_bytes e) (fails e ''Bundles.Create'') (clock e 30)
                                         (new_id e 1) nodeID (sv_bundles s) of
                                    (Inl err, t) \<Rightarrow> (Reject 500 (''failed to create bundle: '' @ Error err), s\<lparr>sv_bundles := t\<rparr>)
                                  | (Inr bundle, t) \<Rightarrow>
                                      (Reply 201 \<lparr>bu_url = endpoint_url P @ ''/api/bundles/'' @ b_token bundle, bu_node_id = nodeID,
                                         bu_ip = nd_ip node, bu_expires_in = seconds_until (b_expires_at bundle) (nanos e 0)\<rparr>,
                                       s\<lparr>sv_bundles := t\<rparr>))))))"

text \<open>
  The verb \<open>%q\<close>: control characters, quotes and backslashes are escaped. The bytes of a printable character
  outside ASCII are kept; texts with other bytes beyond ASCII are not meant.
\<close>

definition quote_char :: "char \<Rightarrow> string" where
  "quote_char c =
     (let n = of_char c :: nat in
      if n = 0x22 \<or> n = 0x5C then [CHR 0x5C, c]
      else if n = 7 then [CHR 0x5C, CHR ''a''] else if n = 8 then [CHR 0x5C, CHR ''b'']
      else if n = 9 then [CHR 0x5C, CHR ''t''] else if n = 10 then [CHR 0x5C, CHR ''n'']
      else if n = 11 then [CHR 0x5C, CHR ''v''] else if n = 12 then [CHR 0x5C, CHR ''f'']
      else if n = 13 then [CHR 0x5C, CHR ''r'']
      else if n < 32 \<or> n = 127 then [CHR 0x5C, CHR ''x''] @ hex_byte c else [c])"

definition go_quote :: "string \<Rightarrow> string" where
  "go_quote s = [CHR 0x22] @ concat (map quote_char s) @ [CHR 0x22]"

definition line_feed :: string where
  "line_feed = [CHR 0x0A]"

definition config_line :: "string \<Rightarrow> string \<Rightarrow> string" where
  "config_line k v = ''  '' @ quoted k @ '': '' @ v"

definition bundle_config :: "platform \<Rightarrow> Node \<Rightarrow> Network \<Rightarrow> string" where
  "bundle_config P node network =
     (let comma = '','' @ line_feed;
          lighthouseHostJSON = (if lighthouse_host P \<noteq> [] then comma @ config_line ''lighthouseHost'' (go_quote (lighthouse_host P)) else [])
      in ''{'' @ line_feed
         @ config_line ''nodeId'' (go_quote (nd_id node)) @ comma
         @ config_line ''networkId'' (go_quote (nd_network_id node)) @ comma
         @ config_line ''agentToken'' (go_quote (nd_agent_token node)) @ comma
         @ config_line ''serverIP'' (go_quote (server_ip_text (n_subnet network))) @ comma
         @ config_line ''nebulaIP'' (go_quote (nd_ip node)) @ comma
         @ config_line ''lighthousePort'' (dec (case n_port network of None \<Rightarrow> 0 | Some p \<Rightarrow> p)) @ comma
         @ config_line ''dnsDomain'' (go_quote (n_dns_domain network)) @ comma
         @ config_line ''endpoint'' (go_quote (endpoint_url P)) @ lighthouseHostJSON @ line_feed @ ''}'' @ line_feed)"

definition bundle_files :: "platform \<Rightarrow> Node \<Rightarrow> Network \<Rightarrow> (string \<times> string \<times> nat) list" where
  "bundle_files P node network =
     [(''etc/hop-agent/ca.crt'', n_ca_cert network, 420),
      (''etc/hop-agent/node.crt'', nd_cert node, 420),
      (''etc/hop-agent/node.key'', nd_key node, 384),
      (''etc/hop-agent/token'', nd_agent_token node, 384),
      (''etc/hop-agent/config.json'', bundle_config P node network, 384)]"

text \<open>The answer is the name in \<open>Content-Disposition\<close> and the files of the archive.\<close>

definition DownloadBundle ::
  "platform \<Rightarrow> request \<Rightarrow> transport \<Rightarrow> string \<Rightarrow> server \<Rightarrow> (string \<times> (string \<times> string \<times> nat) list) http \<times> server" where
  "DownloadBundle P e r token s =
     (if \<not> tls r \<and> \<not> (trusted_proxy P \<and> forwarded_proto r = ''https'') then (Reject 403 ''bundle download requires HTTPS'', s)
      else case ClaimByToken (sha256 P) (steps e ''ClaimByToken'') (clock e 0) token (sv_bundles s) of
        (Inl err, t) \<Rightarrow> (Reject 404 ''bundle not found, already downloaded, or expired'', s\<lparr>sv_bundles := t\<rparr>)
      | (Inr None, t) \<Rightarrow> (Reject 404 ''bundle not found, already downloaded, or expired'', s\<lparr>sv_bundles := t\<rparr>)
      | (Inr (Some bundle), t) \<Rightarrow>
          (let s = s\<lparr>sv_bundles := t\<rparr> in
           case NodeStore_Get (aead P) (encryptor P) (attempts e ''Nodes.Get'') (b_node_id bundle) (sv_nodes s) of
             Inl err \<Rightarrow> (Reject 500 ''node not found'', s)
           | Inr None \<Rightarrow> (Reject 500 ''node not found'', s)
           | Inr (Some node) \<Rightarrow>
               (case Networks_Get P e (nd_network_id node) s of
                  Inl err \<Rightarrow> (Reject 500 ''network not found'', s)
                | Inr None \<Rightarrow> (Reject 500 ''network not found'', s)
                | Inr (Some network) \<Rightarrow>
                    if length (nd_id node) < 8 then (panic, s)
                    else (Reply 200 (''hop-bundle-'' @ take 8 (nd_id node) @ ''.tar.gz'', bundle_files P node network), s))))"

section \<open>A bundle enrolls its machine, once\<close>

lemma NodeStore_Create_stored:
  assumes "NodeStore_Create sha g enc n1 n2 fault now n t = (None, t')" "nd_ip n \<noteq> []"
  shows "\<exists>r. t' = t @ [r] \<and> (\<forall>x \<in> set t. \<not> node_clash r x) \<and> d_id r = nd_id n \<and> d_network_id r = nd_network_id n
    \<and> d_ip r = Some (nd_ip n) \<and> Encrypt g enc n2 (nd_agent_token n) = Inr (d_agent_token r)"
  using assms by (auto simp: NodeStore_Create_def InsertNode_def exec_def insert_row_Inr split: option.splits sum.splits)

lemma enrolled_node_read:
  assumes "gcm_correct (aead P)" "nonce e 1 = Inr n1" "nonce e 2 = Inr n2" "length n1 = NonceSize" "length n2 = NonceSize"
    and create: "create_node P e node s = (None, s1)" and store: "store_cert P e (nd_id node) cert h os arch s1 = (None, s2)"
    and "nd_ip node \<noteq> []" and e': "\<And>l. fails e' l = None"
  shows "\<exists>n. NodeStore_Get (aead P) (encryptor P) (attempts e' call) (nd_id node) (sv_nodes s2) = Inr (Some n)
     \<and> nd_id n = nd_id node \<and> nd_network_id n = nd_network_id node \<and> nd_ip n = nd_ip node
     \<and> nd_agent_token n = nd_agent_token node \<and> nd_cert n = CertPEM cert \<and> nd_key n = KeyPEM cert"
proof -
  obtain r where r: "sv_nodes s1 = sv_nodes s @ [r]" "\<forall>x \<in> set (sv_nodes s). \<not> node_clash r x" "d_id r = nd_id node"
      "d_network_id r = nd_network_id node" "d_ip r = Some (nd_ip node)"
      "Encrypt (aead P) (encryptor P) (Inr n1) (nd_agent_token node) = Inr (d_agent_token r)"
    using create NodeStore_Create_stored [of "sha256 P" "aead P" "encryptor P" "nonce e 0" "nonce e 1" "fails e ''Nodes.Create''" "clock e 5" node "sv_nodes s"]
      assms(2,8) by (auto simp: create_node_def split: prod.splits)
  obtain k where k: "EncryptBytes (aead P) (encryptor P) (Inr n2) (KeyPEM cert) = Inr k"
      "sv_nodes s2 = update_where (\<lambda>x. d_id x = nd_id node)
         (\<lambda>x. x\<lparr>d_cert := CertPEM cert, d_key := k, d_hostname := h, d_os := os, d_arch := arch, d_status := ''enrolled''\<rparr>) (sv_nodes s1)"
    using store assms(3)
    by (auto simp: store_cert_def NodeStore_CompleteEnrollment_def CompleteEnrollment_query_def exec_def split: prod.splits sum.splits option.splits)
  let ?r = "r\<lparr>d_cert := CertPEM cert, d_key := k, d_hostname := h, d_os := os, d_arch := arch, d_status := ''enrolled''\<rparr>"
  have "find (\<lambda>x. d_id x = nd_id node) (sv_nodes s) = None" using r(2,3) by (auto simp: node_clash_def find_None_conv)
  then have "find (\<lambda>x. d_id x = nd_id node) (sv_nodes s1) = Some r" using r(1,3) by (simp add: find_append)
  then have "find (\<lambda>x. d_id x = nd_id node) (sv_nodes s2) = Some ?r"
    unfolding k(2) using r(3) by (subst find_update) simp_all
  then have get: "GetNodeByID None (nd_id node) (sv_nodes s2) = Inr ?r"
    by (simp add: GetNodeByID_def query_one_def select_one_def)
  have tok: "DecryptBytes (aead P) (encryptor P) (d_agent_token r) = Inr (nd_agent_token node)" "d_agent_token r \<noteq> []"
    using DecryptBytes_EncryptBytes [OF assms(1,4)] r(6) by (auto simp: EncryptBytes_def)
  have "decrypt_key (aead P) (encryptor P) m k = Inr (KeyPEM cert)" for m by (rule decrypt_key_roundtrip [OF assms(1,5) k(1)])
  moreover have "Decrypt (aead P) (encryptor P) (d_agent_token r) = Inr (nd_agent_token node)"
    using tok(1) by (auto simp: DecryptBytes_def split: sum.splits)
  ultimately obtain n where "mapNodeRow (aead P) (encryptor P) ?r = Inr n" "nd_id n = nd_id node" "nd_network_id n = nd_network_id node"
      "nd_ip n = nd_ip node" "nd_agent_token n = nd_agent_token node" "nd_cert n = CertPEM cert" "nd_key n = KeyPEM cert"
    using tok(2) r(3-5) by (simp add: mapNodeRow_def)
  then show ?thesis using get e' by (simp add: NodeStore_Get_def attempts_def Let_def)
qed

lemma create_bundle_claims:
  assumes "BundleStore_Create sha random f now ident nodeID t = (Inr b, t')" "clash_free bundle_clash t"
    and "\<And>l. fault l = None" "now' < now + bundleTTL"
  shows "\<exists>row t''. ClaimByToken sha fault now' (b_token b) t' = (Inr (Some row), t'') \<and> b_node_id row = nodeID
    \<and> (\<forall>fault' now'' x. fst (ClaimByToken sha fault' now'' (b_token b) t'') \<noteq> Inr (Some x))"
proof -
  let ?h = "hashBundleToken sha (b_token b)"
  obtain r where r: "t' = t @ [r]" "\<forall>x \<in> set t. \<not> bundle_clash r x" "b_node_id r = nodeID" "b_token r = ?h"
      "b_downloaded r = 0" "b_expires_at r = now + bundleTTL"
    using assms(1) by (auto simp: BundleStore_Create_def InsertBundle_def exec_def insert_row_Inr Let_def split: sum.splits option.splits prod.splits)
  have other: "\<forall>x \<in> set t. b_token x \<noteq> ?h" using r(2,4) by (auto simp: bundle_clash_def)
  then have "find (\<lambda>x. b_token x = ?h \<and> b_downloaded x = 0 \<and> b_expires_at x > now') t' = Some r"
    using r assms(4) by (auto simp: find_append find_None_conv split: option.splits dest: find_Some_conv)
  then have c: "ClaimByToken sha fault now' (b_token b) t' = (Inr (Some r), mark_bundle (b_id r) t')"
    using assms(3) by (simp add: ClaimByToken_def GetBundleByToken_def query_one_def select_one_def MarkBundleDownloaded_def exec_def mark_bundle_def)
  have "\<not> (b_token x = ?h \<and> b_downloaded x = 0)" if "x \<in> set (mark_bundle (b_id r) t')" for x
    using that other r(1) by (auto simp: mark_bundle_def set_update_where)
  then have "fst (ClaimByToken sha fault' now'' (b_token b) (mark_bundle (b_id r) t')) \<noteq> Inr (Some x)" for fault' now'' x
    using ClaimByToken_outcome [of sha fault' now'' "b_token b" "mark_bundle (b_id r) t'"]
    by (cases "ClaimByToken sha fault' now'' (b_token b) (mark_bundle (b_id r) t')") force
  then show ?thesis using c r(3) by blast
qed

lemma CreateBundle_Reply:
  assumes "CreateBundle P e user networkID s = (Reply code b, s')"
  obtains network nextIP node s1 cert s2 bd t where
    "owns (p_id user) networkID (sv_networks s)" "Networks_Get P e networkID s = Inr (Some network)"
    "node = zero_node\<lparr>nd_id := new_id e 0, nd_network_id := networkID, nd_ip := prefix_string nextIP,
       nd_agent_token := generateToken (new_token e 0), nd_status := ''pending''\<rparr>"
    "create_node P e node s = (None, s1)" "node_cert P e network (new_id e 0) nextIP bundleCertDuration = Some (Inr cert)"
    "store_cert P e (new_id e 0) cert [] [] [] s1 = (None, s2)"
    "BundleStore_Create (sha256 P) (rand_bytes e) (fails e ''Bundles.Create'') (clock e 30) (new_id e 1) (new_id e 0) (sv_bundles s2) = (Inr bd, t)"
    "code = 201" "s' = s2\<lparr>sv_bundles := t\<rparr>"
    "bu_url b = endpoint_url P @ ''/api/bundles/'' @ b_token bd" "bu_node_id b = new_id e 0" "bu_ip b = prefix_string nextIP"
proof -
  have "owns (p_id user) networkID (sv_networks s)"
    using owner_only_cases [OF assms [unfolded CreateBundle_def]] by auto
  moreover obtain network where "Networks_Get P e networkID s = Inr (Some network)"
    using assms by (auto simp: CreateBundle_def owner_only_def with_network_def split: sum.splits option.splits)
  ultimately show thesis
    using assms that
    by (auto simp: CreateBundle_def owner_only_def with_network_def Let_def panic_def
        split: sum.splits option.splits if_splits prod.splits)
qed

lemma NetworkStore_Get_again:
  assumes "NetworkStore_Get g enc f ident t = Inr (Some n)" "f' 0 = None"
  shows "NetworkStore_Get g enc f' ident t = Inr (Some n)"
proof -
  obtain fault row where "GetNetworkByID fault ident t = Inr row" "map_network_row g enc row = Inr n"
    using assms(1) by (auto simp: NetworkStore_Get_def Let_def split: sum.splits if_splits)
  then have "GetNetworkByID None ident t = Inr row" "map_network_row g enc row = Inr n"
    by (auto simp: GetNetworkByID_def query_one_def split: option.splits)
  then show ?thesis using assms(2) by (simp add: NetworkStore_Get_def Let_def)
qed

lemma DownloadBundle_spent:
  assumes "\<And>x. fst (ClaimByToken (sha256 P) (steps e ''ClaimByToken'') (clock e 0) token (sv_bundles s)) \<noteq> Inr (Some x)"
  shows "\<exists>code msg. DownloadBundle P e r token s = (Reject code msg, s) \<and> code \<in> {403, 404}"
  using assms ClaimByToken_outcome [of "sha256 P" "steps e ''ClaimByToken''" "clock e 0" token "sv_bundles s"]
  by (fastforce simp: DownloadBundle_def split: prod.splits sum.splits option.splits)

text \<open>
  Property C0. A bundle enrolls the machine that downloads it, once. When the owner of a network has
  created a bundle, a download over HTTPS within fifteen minutes delivers an archive with the certificate
  of the CA, the certificate and key just issued for the address in the answer, and a token that
  authenticates the new node. Every later request for the link is rejected and changes nothing.
\<close>

theorem bundle_enrolls_once:
  assumes "gcm_correct (aead P)" "nonce e 1 = Inr n1" "nonce e 2 = Inr n2" "length n1 = NonceSize" "length n2 = NonceSize"
    and "clash_free bundle_clash (sv_bundles s)"
    and "CreateBundle P e user networkID s = (Reply 201 b, s')"
    and "\<And>l. fails e' l = None" "clock e' 0 < clock e 30 + bundleTTL"
    and "tls r \<or> trusted_proxy P \<and> forwarded_proto r = ''https''"
  shows "\<exists>token network ip cert name files s'' node.
     bu_url b = endpoint_url P @ ''/api/bundles/'' @ token \<and> owns (p_id user) networkID (sv_networks s)
     \<and> Networks_Get P e networkID s = Inr (Some network) \<and> bu_ip b = prefix_string ip
     \<and> node_cert P e network (bu_node_id b) ip bundleCertDuration = Some (Inr cert)
     \<and> DownloadBundle P e' r token s' = (Reply 200 (name, files), s'')
     \<and> map_of files ''etc/hop-agent/ca.crt'' = Some (n_ca_cert network, 420)
     \<and> map_of files ''etc/hop-agent/node.crt'' = Some (CertPEM cert, 420)
     \<and> map_of files ''etc/hop-agent/node.key'' = Some (KeyPEM cert, 384)
     \<and> map_of files ''etc/hop-agent/token'' = Some (nd_agent_token node, 384)
     \<and> nd_id node = bu_node_id b \<and> nd_ip node = bu_ip b \<and> nd_network_id node = networkID
     \<and> authenticate_agent P e' (''Bearer '' @ nd_agent_token node) (Some (bu_node_id b)) s'' = Inr node
     \<and> (\<forall>e'' r''. \<exists>code msg. DownloadBundle P e'' r'' token s'' = (Reject code msg, s''))"
proof -
  obtain network ip node s1 cert s2 bd t where c: "owns (p_id user) networkID (sv_networks s)" "Networks_Get P e networkID s = Inr (Some network)"
      "node = zero_node\<lparr>nd_id := new_id e 0, nd_network_id := networkID, nd_ip := prefix_string ip,
         nd_agent_token := generateToken (new_token e 0), nd_status := ''pending''\<rparr>"
      "create_node P e node s = (None, s1)" "node_cert P e network (new_id e 0) ip bundleCertDuration = Some (Inr cert)"
      "store_cert P e (new_id e 0) cert [] [] [] s1 = (None, s2)"
      "BundleStore_Create (sha256 P) (rand_bytes e) (fails e ''Bundles.Create'') (clock e 30) (new_id e 1) (new_id e 0) (sv_bundles s2) = (Inr bd, t)"
      "s' = s2\<lparr>sv_bundles := t\<rparr>" "bu_url b = endpoint_url P @ ''/api/bundles/'' @ b_token bd" "bu_node_id b = new_id e 0" "bu_ip b = prefix_string ip"
    by (rule CreateBundle_Reply [OF assms(7)])
  have same: "sv_networks s2 = sv_networks s" "sv_bundles s2 = sv_bundles s"
    using c(4,6) by (auto simp: create_node_def store_cert_def split: prod.splits)
  have ident: "nd_id node = new_id e 0" "nd_ip node = prefix_string ip" "nd_ip node \<noteq> []" "nd_network_id node = networkID"
    using c(3) by (simp_all add: prefix_string_def)
  obtain n where n: "NodeStore_Get (aead P) (encryptor P) (attempts e' ''Nodes.Get'') (new_id e 0) (sv_nodes s2) = Inr (Some n)"
      "nd_id n = new_id e 0" "nd_network_id n = networkID" "nd_ip n = prefix_string ip" "nd_cert n = CertPEM cert" "nd_key n = KeyPEM cert"
    using enrolled_node_read [OF assms(1-5) c(4) _ ident(3) assms(8), of cert "[]" "[]" "[]" s2 "''Nodes.Get''"] c(6) ident by auto
  have "clash_free bundle_clash (sv_bundles s2)" using assms(6) same by simp
  moreover have "steps e' ''ClaimByToken'' l = None" for l using assms(8) by (simp add: steps_def)
  ultimately obtain row t' where d: "ClaimByToken (sha256 P) (steps e' ''ClaimByToken'') (clock e' 0) (b_token bd) t = (Inr (Some row), t')"
      "b_node_id row = new_id e 0" "\<And>f now x. fst (ClaimByToken (sha256 P) f now (b_token bd) t') \<noteq> Inr (Some x)"
    using create_bundle_claims [OF c(7) _ _ assms(9), of "steps e' ''ClaimByToken''"] by blast
  let ?s = "s2\<lparr>sv_bundles := t'\<rparr>"
  have net: "Networks_Get P e' networkID ?s = Inr (Some network)"
    using NetworkStore_Get_again [OF c(2) [unfolded Networks_Get_def], of "attempts e' ''Networks.Get''"] same(1) assms(8)
    by (simp add: Networks_Get_def attempts_def)
  have len: "8 \<le> length (new_id e 0)" using c(5) by (auto simp: node_cert_def split: if_splits)
  have down: "DownloadBundle P e' r (b_token bd) s' =
      (Reply 200 (''hop-bundle-'' @ take 8 (nd_id n) @ ''.tar.gz'', bundle_files P n network), ?s)"
    using assms(10) d(1,2) n(1-3) net len c(8) by (simp add: DownloadBundle_def Let_def)
  moreover have "authenticate_agent P e' (''Bearer '' @ nd_agent_token n) (Some (bu_node_id b)) ?s = Inr n"
    using n(1) len c(10) by (auto simp: authenticate_agent_def HasPrefix_def TrimPrefix_def)
  moreover have "\<exists>code msg. DownloadBundle P e'' r'' (b_token bd) ?s = (Reject code msg, ?s)" for e'' r''
    using DownloadBundle_spent [of P e'' "b_token bd" ?s r''] d(3) by force
  moreover have "map_of (bundle_files P n network) ''etc/hop-agent/ca.crt'' = Some (n_ca_cert network, 420)"
      "map_of (bundle_files P n network) ''etc/hop-agent/node.crt'' = Some (CertPEM cert, 420)"
      "map_of (bundle_files P n network) ''etc/hop-agent/node.key'' = Some (KeyPEM cert, 384)"
      "map_of (bundle_files P n network) ''etc/hop-agent/token'' = Some (nd_agent_token n, 384)"
    using n by (simp_all add: bundle_files_def)
  moreover have "node_cert P e network (bu_node_id b) ip bundleCertDuration = Some (Inr cert)" "nd_id n = bu_node_id b" "nd_ip n = bu_ip b"
    using c n by simp_all
  ultimately show ?thesis using c(1,2,9,11) n(3)
    by (intro exI [of _ "b_token bd"] exI [of _ network] exI [of _ ip] exI [of _ cert] exI [of _ "''hop-bundle-'' @ take 8 (nd_id n) @ ''.tar.gz''"]
        exI [of _ "bundle_files P n network"] exI [of _ ?s] exI [of _ n] conjI) blast+
qed

definition bundle_request :: request where
  "bundle_request = sample_request\<lparr>new_id := (\<lambda>i. ''0f9a6c1e-'' @ itoa i)\<rparr>"

theorem bundle_enrolls_once_witness:
  "\<exists>b s' token name files s'' node.
     CreateBundle sample_platform bundle_request sample_user ''n1'' (empty_server\<lparr>sv_networks := sample_networks\<rparr>) = (Reply 201 b, s')
     \<and> DownloadBundle sample_platform sample_request \<lparr>tls = True, forwarded_proto = []\<rparr> token s' = (Reply 200 (name, files), s'')
     \<and> map_of files ''etc/hop-agent/token'' = Some (nd_agent_token node, 384) \<and> nd_id node = ''0f9a6c1e-0''
     \<and> authenticate_agent sample_platform sample_request (''Bearer '' @ nd_agent_token node) (Some ''0f9a6c1e-0'') s'' = Inr node
     \<and> (\<exists>code msg. DownloadBundle sample_platform sample_request \<lparr>tls = True, forwarded_proto = []\<rparr> token s'' = (Reject code msg, s''))"
proof -
  let ?c = "CreateBundle sample_platform bundle_request sample_user ''n1'' (empty_server\<lparr>sv_networks := sample_networks\<rparr>)"
  have "case ?c of (Reply c b, s') \<Rightarrow> c = 201 \<and> bu_node_id b = ''0f9a6c1e-0'' | _ \<Rightarrow> False" by code_simp
  then obtain b s' where b: "?c = (Reply 201 b, s')" "bu_node_id b = ''0f9a6c1e-0''" by (auto split: prod.splits http.splits)
  have p: "gcm_correct (aead sample_platform)" "nonce bundle_request i = Inr ''abcdefghijkl''" "length ''abcdefghijkl'' = NonceSize"
      "clash_free bundle_clash (sv_bundles (empty_server\<lparr>sv_networks := sample_networks\<rparr>))" "fails sample_request l = None"
      "clock sample_request 0 < clock bundle_request 30 + bundleTTL" for i l
    by (simp_all add: sample_platform_def gcm_correct_def plain_gcm_def bundle_request_def sample_request_def NonceSize_def empty_server_def bundleTTL_def)
  show ?thesis
    using bundle_enrolls_once [OF p(1,2,2,3,3,4) b(1) p(5,6), of "\<lparr>tls = True, forwarded_proto = []\<rparr>"] b unfolding b(2) transport.simps by blast
qed

end
