(* ===== verification/Spec2Isabelle.thy ===== *)
theory Spec2Isabelle
  imports Resilience Subnet DeviceCodes Accounts Membership Crypto Networks Nodes NodeStatus
    Heartbeats RateLimit EventLog Resources Pki Authz ProxyAuth Server Enrollment
    Sharing NetworkManager Forwards EventHub NetworkApi AccountApi RecordsApi HtmlRewrite
    NodeSettings ProxyApi RenewApi PortMap Registry Services PeerCache AgentLoops DeviceSpec
    OAuth Clipboard BundleApi
begin

text \<open>
  Verification of the hopssh control plane (first layout).
\<close>

section \<open>From the administrator to the configuration of the agent\<close>

text \<open>The printed form of a prefix contains no white space.\<close>

definition unspaced :: "string \<Rightarrow> bool" where
  "unspaced s \<longleftrightarrow> (\<forall>c \<in> set s. \<not> is_space c)"

lemma unspaced_append [simp]: "unspaced (a @ b) \<longleftrightarrow> unspaced a \<and> unspaced b"
  by (auto simp: unspaced_def)

lemma unspaced_Cons [simp]: "unspaced (c # s) \<longleftrightarrow> \<not> is_space c \<and> unspaced s"
  by (auto simp: unspaced_def)

lemma unspaced_Nil [simp]: "unspaced []"
  by (simp add: unspaced_def)

lemma unspaced_itoa [simp]: "unspaced (itoa n)"
  using itoa_digits [of n] by (auto simp: unspaced_def list_all_iff is_digit_def is_space_def)

lemma unspaced_addr [simp]: "unspaced (addr_string a)"
  by (cases a) (simp add: addr_string_def octet_string_def is_space_def)

lemma unspaced_hex_digit: "n < 16 \<Longrightarrow> \<not> is_space (hex_digit n)"
  by (auto simp: hex_digit_def is_space_def)

declare hex_text.simps [simp del]

lemma unspaced_hex_text [simp]: "unspaced (hex_text n)"
proof (induction n rule: hex_text.induct)
  case (1 n)
  show ?case
  proof (cases "n < 16")
    case True
    then show ?thesis by (subst hex_text.simps) (simp add: unspaced_hex_digit)
  next
    case False
    then show ?thesis using 1 unspaced_hex_digit [of "n mod 16"] by (subst hex_text.simps) simp
  qed
qed

lemma unspaced_join: "list_all unspaced xs \<Longrightarrow> unspaced (join_colon xs)"
  by (induction xs rule: join_colon.induct) (auto simp: is_space_def)

lemma unspaced_ip [simp]: "unspaced (ip_string ip)"
  by (auto simp: ip_string_def Let_def list_all_iff is_space_def intro!: unspaced_join split: net_ip.split prod.split)

lemma unspaced_prefix: "unspaced (Prefix_String (Masked p))"
  by (auto simp: Prefix_String_def Masked_def is_space_def split: addr.split prod.split option.split)

lemma unspaced_trim: "unspaced s \<Longrightarrow> TrimSpace s = s"
proof -
  have drop: "unspaced t \<Longrightarrow> dropWhile is_space t = t" for t by (cases t) auto
  assume s: "unspaced s"
  then have "unspaced (rev s)" by (simp add: unspaced_def)
  then show ?thesis using s by (simp add: TrimSpace_def trim_by_def drop)
qed

lemma unspaced_one_line: "unspaced s \<Longrightarrow> one_line s"
  by (auto simp: unspaced_def one_line_def is_space_def)

lemma requested_text:
  assumes "r \<in> requested_routes rs"
  shows "unspaced r" "r \<noteq> []"
  using assms unspaced_prefix by (auto simp: requested_routes_def Prefix_String_def)

lemma normaliseRoutes_canonical:
  assumes "distinct rs" "\<And>r. r \<in> set rs \<Longrightarrow> unspaced r \<and> r \<noteq> []"
  shows "normaliseRoutes rs = sort rs"
proof -
  have "distinct (out @ rs) \<Longrightarrow> \<forall>r \<in> set rs. TrimSpace r = r \<and> r \<noteq> [] \<Longrightarrow> fold (\<lambda>r. unseen (TrimSpace r)) rs out = out @ rs" for out
    by (induction rs arbitrary: out) (auto simp: unseen_def)
  from this [of "[]"] show ?thesis using assms unspaced_trim by (simp add: normaliseRoutes_def)
qed

text \<open>A request of the agent that the control plane answers.\<close>

definition over_http ::
  "platform \<Rightarrow> request \<Rightarrow> (addr \<Rightarrow> addr_port option list) option \<Rightarrow> server \<times> endpoint_cache \<Rightarrow> string \<Rightarrow> HeartbeatBody
     \<Rightarrow> (nat \<times> HeartbeatResponse res) res" where
  "over_http P e lighthouse st token body =
     (case fst (Heartbeat P e lighthouse (''Bearer '' @ token) (Some body) st) of
        Reply code resp \<Rightarrow> Inr (code, Inr resp)
      | Reject code msg \<Rightarrow> Inr (code, Inl (ErrMsg msg)))"

lemma heartbeat_applies_routes:
  assumes "readInstanceToken st = Inr token" "hx_request io = None"
    and "hx_send io token (heartbeat_body (hx_view io) i c) = Inr (200, Inr body)"
    and "hx_routes_fault io = None" "\<not> hx_routes_kept io" "hx_yaml_fault io = None"
    and "yaml_lib_ok Y" "yaml_writes Y" "routes_in_sync Y old (nf_routes st) (nf_yaml st)" "list_all one_line (hr_routes body)"
  shows "\<exists>st' c'. sendHeartbeat Y io i (st, c) = Some (None, st', c')
    \<and> routes_in_sync Y (normaliseRoutes (hr_routes body)) (nf_routes st') (nf_yaml st')"
proof -
  obtain rf f r where a: "applyRoutesUpdate Y None False None (hr_routes body) (nf_routes st) (nf_yaml st) = Some (rf, f, r)"
      "routes_in_sync Y (normaliseRoutes (hr_routes body)) rf f"
    using routes_applied [OF assms(7-10)] by blast
  then obtain st' c' where "apply_answer Y io i body (st, c) = Some (st', c')" "nf_routes st' = rf" "nf_yaml st' = f"
    using assms(4-6) apply_answer_files [of Y io body st rf f r i c] by auto
  then show ?thesis using a(2) assms(1-3) by (auto simp: sendHeartbeat_def Let_def)
qed


definition sample_agent :: Client where
  "sample_agent = (NewClient False one_enrollment)\<lparr>cl_heap := [newMeshInstance
     \<lparr>en_name = ''home'', en_node_id = ''node-aaa'', en_network_id = ''n1'', en_endpoint = ''https://hop.example'', en_tun_mode = ''userspace'',
      en_ca_fingerprint = [], en_dns_domain = [], en_port = 0, en_clipboard = False, en_enrolled_at = 0\<rparr>]\<rparr>"


end
